(* ===== verification/Prelude.thy ===== *)
theory Prelude
  imports Main "HOL-Library.Word"
begin

text \<open>
  Shared vocabulary of the xNBD development.

  \<^item> The machine integers of the C sources (\<open>uint8_t\<close>, \<open>uint16_t\<close>, \<open>uint32_t\<close>,
    \<open>uint64_t\<close> and \<open>unsigned long\<close>) as words; \<open>off_t\<close>, whose overflow is undefined
    behaviour in C, as \<^typ>\<open>int\<close>; conversion to a C \<open>int\<close> as \<open>int32\<close>, \<open>int64\<close>.
  \<^item> How a C function can end other than by returning: \<open>err()\<close> and \<open>g_error()\<close> abort the
    process, \<open>g_assert()\<close> aborts it, \<open>exit()\<close> ends it, an access outside an array is a
    fault. These are the values of \<open>stop\<close>; a function that may stop returns \<open>stop + 'a\<close>.
  \<^item> Byte memories (a buffer, an mmap-ed file, a disk image) as functions from addresses to
    bytes with \<open>peek\<close> and \<open>poke\<close> (the effect of \<open>memcpy\<close>), and their algebra.
\<close>

section \<open>Machine integers\<close>

type_synonym u8 = "8 word"
type_synonym u16 = "16 word"
type_synonym u32 = "32 word"
type_synonym u64 = "64 word"
type_synonym bytes = "u8 list"

text \<open>What a C assignment to \<open>int\<close> or to \<open>off_t\<close> keeps of a wider value.\<close>

definition int32 :: "int \<Rightarrow> int" where
  "int32 x = (x + 2147483648) mod 4294967296 - 2147483648"

definition int64 :: "int \<Rightarrow> int" where
  "int64 x = (x + 9223372036854775808) mod 18446744073709551616 - 9223372036854775808"

lemma int32_id: "- 2147483648 \<le> x \<Longrightarrow> x < 2147483648 \<Longrightarrow> int32 x = x"
  by (simp add: int32_def)

lemma int64_id: "- 9223372036854775808 \<le> x \<Longrightarrow> x < 9223372036854775808 \<Longrightarrow> int64 x = x"
  by (simp add: int64_def)

lemma int32_minus1 [simp]: "int32 (-1) = -1"
  by (simp add: int32_def)

lemma int32_bounds: "- 2147483648 \<le> int32 x" "int32 x < 2147483648"
  by (simp_all add: int32_def)

lemma int32_le: "- 2147483648 \<le> x \<Longrightarrow> int32 x \<le> x"
  unfolding int32_def using zmod_le_nonneg_dividend[of "x + 2147483648" 4294967296] by linarith

lemma int32_wrap: "2147483648 \<le> x \<Longrightarrow> x < 4294967296 \<Longrightarrow> int32 x = x - 4294967296"
  using minus_mod_self2[of "x + 2147483648" 4294967296] by (simp add: int32_def)

lemma int32_of_nat: "n < 2147483648 \<Longrightarrow> int32 (int n) = int n"
  by (rule int32_id) auto

lemma unat_le_iff_u64: "(a :: u64) \<le> b \<longleftrightarrow> unat a \<le> unat b"
  by (rule word_le_nat_alt)

lemma unat_word_of_int_u64: "0 \<le> k \<Longrightarrow> k < 18446744073709551616 \<Longrightarrow> unat (word_of_int k :: u64) = nat k"
  by (simp add: unat_eq_nat_uint uint_word_of_int)

lemma uint_word_of_int_u64: "0 \<le> k \<Longrightarrow> k < 18446744073709551616 \<Longrightarrow> uint (word_of_int k :: u64) = k"
  by (simp add: uint_word_of_int)

section \<open>How a function ends\<close>

datatype stop =
    Err string      \<comment> \<open>\<open>err()\<close> and \<open>g_error()\<close>\<close>
  | Assert string   \<comment> \<open>a failed \<open>g_assert()\<close> or \<open>assert()\<close>\<close>
  | Segv            \<comment> \<open>an access outside the array or mapping\<close>
  | Exit int        \<comment> \<open>\<open>exit()\<close>; \<open>err_ue()\<close> is \<open>Exit 1\<close>\<close>

definition bindE :: "'e + 'a \<Rightarrow> ('a \<Rightarrow> 'e + 'b) \<Rightarrow> 'e + 'b" where
  "bindE x f = (case x of Inl e \<Rightarrow> Inl e | Inr a \<Rightarrow> f a)"

lemma bindE_simps [simp]: "bindE (Inl e) f = Inl e" "bindE (Inr a) f = f a"
  by (simp_all add: bindE_def)

lemma bindE_eq_Inr: "bindE x f = Inr b \<longleftrightarrow> (\<exists>a. x = Inr a \<and> f a = Inr b)"
  by (cases x) auto

lemma bindE_assoc: "bindE (bindE x f) g = bindE x (\<lambda>a. bindE (f a) g)"
  by (cases x) auto

text \<open>\<open>g_assert (c)\<close> before the rest of a function.\<close>

definition assertE :: "string \<Rightarrow> bool \<Rightarrow> stop + unit" where
  "assertE what c = (if c then Inr () else Inl (Assert what))"

lemma assertE_simps [simp]: "assertE w True = Inr ()" "assertE w False = Inl (Assert w)"
  by (simp_all add: assertE_def)

lemma assertE_eq_Inr [simp]: "assertE w c = Inr u \<longleftrightarrow> c"
  by (simp add: assertE_def)

text \<open>The \<open>errno\<close> values the sources compare with.\<close>

abbreviation (input) ENOENT :: nat where "ENOENT \<equiv> 2"
abbreviation (input) EINTR :: nat where "EINTR \<equiv> 4"
abbreviation (input) EIO :: nat where "EIO \<equiv> 5"
abbreviation (input) EEXIST :: nat where "EEXIST \<equiv> 17"
abbreviation (input) EINVAL :: nat where "EINVAL \<equiv> 22"
abbreviation (input) EPIPE :: nat where "EPIPE \<equiv> 32"
abbreviation (input) EOVERFLOW :: nat where "EOVERFLOW \<equiv> 75"
abbreviation (input) ECONNRESET :: nat where "ECONNRESET \<equiv> 104"

section \<open>Byte memories\<close>

type_synonym mem = "int \<Rightarrow> u8"

definition peek :: "mem \<Rightarrow> int \<Rightarrow> nat \<Rightarrow> bytes" where
  "peek m a n = map (\<lambda>k. m (a + int k)) [0..<n]"

definition poke :: "mem \<Rightarrow> int \<Rightarrow> bytes \<Rightarrow> mem" where
  "poke m a bs = (\<lambda>x. if a \<le> x \<and> x < a + int (length bs) then bs ! nat (x - a) else m x)"

text \<open>The memory that holds one buffer at address 0.\<close>

definition mem_of :: "bytes \<Rightarrow> mem" where
  "mem_of bs = poke (\<lambda>_. 0) 0 bs"

lemma length_peek [simp]: "length (peek m a n) = n"
  by (simp add: peek_def)

lemma nth_peek [simp]: "k < n \<Longrightarrow> peek m a n ! k = m (a + int k)"
  by (simp add: peek_def)

lemma peek_0 [simp]: "peek m a 0 = []"
  by (simp add: peek_def)

lemma peek_cong: "(\<And>x. a \<le> x \<Longrightarrow> x < a + int n \<Longrightarrow> m x = m' x) \<Longrightarrow> peek m a n = peek m' a n"
  by (simp add: peek_def)

lemma peek_add: "peek m a (i + j) = peek m a i @ peek m (a + int i) j"
  by (rule nth_equalityI) (auto simp: nth_append)

lemma take_peek: "take i (peek m a n) = peek m a (min i n)"
  by (rule nth_equalityI) auto

lemma drop_peek: "drop i (peek m a n) = peek m (a + int i) (n - i)"
  by (rule nth_equalityI) (auto simp: ac_simps)

lemma poke_Nil [simp]: "poke m a [] = m"
  by (rule ext) (auto simp: poke_def)

lemma poke_out: "x < a \<or> a + int (length bs) \<le> x \<Longrightarrow> poke m a bs x = m x"
  by (auto simp: poke_def)

lemma poke_in: "a \<le> x \<Longrightarrow> x < a + int (length bs) \<Longrightarrow> poke m a bs x = bs ! nat (x - a)"
  by (simp add: poke_def)

lemma poke_in_nat: "k < length bs \<Longrightarrow> poke m a bs (a + int k) = bs ! k"
  by (simp add: poke_def)

lemma peek_poke [simp]: "length bs = n \<Longrightarrow> peek (poke m a bs) a n = bs"
  by (rule nth_equalityI) (auto simp: poke_in_nat)

lemma poke_peek: "poke m a (peek m a n) = m"
  by (rule ext) (auto simp: poke_def)

lemma peek_poke_disjoint:
  "a + int n \<le> b \<or> b + int (length bs) \<le> a \<Longrightarrow> peek (poke m b bs) a n = peek m a n"
  by (rule peek_cong) (auto simp: poke_out)

lemma poke_append: "poke m a (xs @ ys) = poke (poke m a xs) (a + int (length xs)) ys"
proof (rule ext)
  fix x
  have "nat (x - a) - length xs = nat (x - (a + int (length xs)))"
    if "a + int (length xs) \<le> x"
    using that by (simp add: nat_diff_distrib' flip: diff_diff_eq)
  moreover have "nat (x - a) < length xs \<longleftrightarrow> x < a + int (length xs)" if "a \<le> x"
    using that by linarith
  ultimately show "poke m a (xs @ ys) x = poke (poke m a xs) (a + int (length xs)) ys x"
    by (auto simp: poke_def nth_append)
qed

lemma poke_take_drop: "poke (poke m a (take k bs)) (a + int (min k (length bs))) (drop k bs) = poke m a bs"
  using poke_append[of m a "take k bs" "drop k bs"] by (simp add: min.commute)

lemma peek_mem_of [simp]: "length bs = n \<Longrightarrow> peek (mem_of bs) 0 n = bs"
  by (simp add: mem_of_def)

lemma mem_of_nth: "k < length bs \<Longrightarrow> mem_of bs (int k) = bs ! k"
  using poke_in_nat[of k bs "\<lambda>_. 0" 0] by (simp add: mem_of_def)

section \<open>Lists\<close>

lemma take_concat_Cons: "length x \<le> n \<Longrightarrow> take n (concat (x # xs)) = x @ take (n - length x) (concat xs)"
  by simp

lemma sum_list_map_append1: "sum_list (map f (xs @ [x])) = sum_list (map f xs) + (f x :: nat)"
  by simp

section \<open>Printing\<close>

text \<open>\<open>%lu\<close> and \<open>%0<w>lu\<close>: decimal digits, padded with zeros to a width.\<close>

definition digit :: "nat \<Rightarrow> char" where
  "digit d = char_of (48 + d)"

function decimal :: "nat \<Rightarrow> string" where
  "decimal n = (if n < 10 then [digit n] else decimal (n div 10) @ [digit (n mod 10)])"
  by pat_completeness auto
termination by (relation "measure id") auto

declare decimal.simps [simp del]

text \<open>What the digits of a number denote, as \<open>atoi\<close> and \<open>strtoul\<close> read them.\<close>

definition digits_value :: "string \<Rightarrow> nat" where
  "digits_value = foldl (\<lambda>v c. 10 * v + (of_char c - 48)) 0"

lemma digit_char: "d < 10 \<Longrightarrow> of_char (digit d) = 48 + d"
  by (simp add: digit_def)

lemma digits_value_decimal [simp]: "digits_value (decimal n) = n"
  by (induction n rule: decimal.induct) (subst decimal.simps, auto simp: digits_value_def digit_char)

lemma decimal_inject [simp]: "decimal m = decimal n \<longleftrightarrow> m = n"
  by (metis digits_value_decimal)

lemma decimal_digits: "c \<in> set (decimal n) \<Longrightarrow> \<exists>d < 10. c = digit d"
proof (induction n rule: decimal.induct)
  case (1 n)
  then show ?case by (cases "n < 10") (auto simp: decimal.simps[of n], metis mod_less_divisor zero_less_numeral)
qed

lemma decimal_not_Nil [simp]: "decimal n \<noteq> []"
  by (subst decimal.simps) simp

definition is_digit :: "char \<Rightarrow> bool" where
  "is_digit c \<longleftrightarrow> 48 \<le> (of_char c :: nat) \<and> (of_char c :: nat) \<le> 57"

lemma is_digit_decimal: "list_all is_digit (decimal n)"
proof -
  have "is_digit c" if "c \<in> set (decimal n)" for c using decimal_digits[OF that] by (auto simp: is_digit_def digit_char)
  then show ?thesis by (simp add: list_all_iff)
qed

text \<open>
  \<open>strtol\<close> with base 10: white space, a sign and digits, the value cut off at the bounds of \<open>long\<close>; with the rest of the
  string, which is all of it when there are no digits.
\<close>

definition is_space :: "char \<Rightarrow> bool" where
  "is_space c \<longleftrightarrow> of_char c \<in> {9, 10, 11, 12, 13, 32 :: nat}"

definition strtol :: "string \<Rightarrow> int \<times> string" where
  "strtol s =
     (let s1 = dropWhile is_space s;
          (neg, s2) = (case s1 of c # cs \<Rightarrow> if c = CHR ''-'' then (True, cs) else if c = CHR ''+'' then (False, cs) else (False, s1) | [] \<Rightarrow> (False, s1));
          ds = takeWhile is_digit s2; v = int (digits_value ds)
      in if ds = [] then (0, s)
         else (if neg then max (- 9223372036854775808) (- v) else min 9223372036854775807 v, dropWhile is_digit s2))"

text \<open>\<open>atoi\<close> cuts the result of \<open>strtol\<close> to an \<open>int\<close>.\<close>

definition atoi :: "string \<Rightarrow> int" where
  "atoi s = sint (word_of_int (fst (strtol s)) :: 32 word)"

lemma strtol_decimal:
  assumes "n \<le> 9223372036854775807" and "rest = [] \<or> \<not> is_digit (hd rest)"
  shows "strtol (decimal n @ rest) = (int n, rest)"
proof -
  obtain c cs where c: "decimal n = c # cs" by (cases "decimal n") auto
  then have "is_digit c" using is_digit_decimal[of n] by simp
  then have n1: "\<not> is_space c" "c \<noteq> CHR ''-''" "c \<noteq> CHR ''+''" by (auto simp: is_digit_def is_space_def)
  have all: "\<And>x. x \<in> set (c # cs) \<Longrightarrow> is_digit x" using is_digit_decimal[of n] c by (auto simp: list_all_iff)
  then have "takeWhile is_digit ((c # cs) @ rest) = c # cs" "dropWhile is_digit ((c # cs) @ rest) = rest"
    using assms(2) by (cases rest; auto simp: takeWhile_append dropWhile_append)+
  moreover have "int (digits_value (c # cs)) = int n" using digits_value_decimal[of n] c by simp
  ultimately show ?thesis using n1 assms(1) c by (simp add: strtol_def Let_def)
qed

definition zero_pad :: "nat \<Rightarrow> string \<Rightarrow> string" where
  "zero_pad w s = replicate (w - length s) (CHR ''0'') @ s"

section \<open>Loops\<close>

text \<open>
  \<open>foldE f xs s\<close> runs the loop body \<open>f\<close> for the successive values \<open>xs\<close> of the loop variable
  and stops where the body stops. \<open>ul_range a b\<close> are the values of an \<open>unsigned long\<close> in
  \<open>for (i = a; i <= b; i++)\<close>.
\<close>

fun foldE :: "('a \<Rightarrow> 's \<Rightarrow> 'e + 's) \<Rightarrow> 'a list \<Rightarrow> 's \<Rightarrow> 'e + 's" where
  "foldE f [] s = Inr s"
| "foldE f (x # xs) s = bindE (f x s) (foldE f xs)"

definition ul_range :: "u64 \<Rightarrow> u64 \<Rightarrow> u64 list" where
  "ul_range a b = map of_nat [unat a..<Suc (unat b)]"

lemma foldE_invariant:
  "(\<And>x s. x \<in> set xs \<Longrightarrow> P s \<Longrightarrow> \<exists>s'. f x s = Inr s' \<and> P s') \<Longrightarrow> P s \<Longrightarrow> \<exists>s'. foldE f xs s = Inr s' \<and> P s'"
proof (induction xs arbitrary: s)
  case (Cons x xs)
  then obtain s1 where "f x s = Inr s1" "P s1" by (meson list.set_intros(1))
  with Cons show ?case by simp
qed simp

lemma foldE_append: "foldE f (xs @ ys) s = bindE (foldE f xs s) (foldE f ys)"
  by (induction xs arbitrary: s) (auto simp: bindE_def split: sum.splits)

lemma foldE_cong_set: "(\<And>x s. x \<in> set xs \<Longrightarrow> f x s = g x s) \<Longrightarrow> foldE f xs s = foldE g xs s"
  by (induction xs arbitrary: s) (auto simp: bindE_def split: sum.splits)

lemma unat_of_nat_small: "n < 18446744073709551616 \<Longrightarrow> unat (of_nat n :: u64) = n"
  by (simp add: unat_of_nat)

lemma unat_u64_less: "unat (b :: u64) < 18446744073709551616"
  using unsigned_less[of b, where 'a = nat] by simp

lemma unat_of_nat_u64: "n \<le> unat (b :: u64) \<Longrightarrow> unat (of_nat n :: u64) = n"
  using unat_u64_less[of b] by (simp add: unat_of_nat_small)

lemma map_unat_ul_range: "map unat (ul_range a b) = [unat a..<Suc (unat b)]"
proof -
  have "unat (of_nat n :: u64) = n" if "n \<in> set [unat a..<Suc (unat b)]" for n
    using that by (intro unat_of_nat_u64[of _ b]) (auto simp del: upt_Suc)
  then have "map (\<lambda>n. unat (of_nat n :: u64)) [unat a..<Suc (unat b)] = [unat a..<Suc (unat b)]"
    by (rule map_idI)
  then show ?thesis by (simp only: ul_range_def map_map comp_def)
qed

lemma set_ul_range: "set (ul_range a b) = {i. a \<le> i \<and> i \<le> b}"
proof -
  have "unat ` set (ul_range a b) = {unat a..unat b}"
    using map_unat_ul_range[of a b] by (metis image_set set_upt atLeastLessThanSuc_atLeastAtMost)
  moreover have "inj (unat :: u64 \<Rightarrow> nat)" by (rule injI) (simp add: word_unat_eq_iff)
  ultimately have "i \<in> set (ul_range a b) \<longleftrightarrow> unat i \<in> {unat a..unat b}" for i
    by (metis inj_image_mem_iff)
  then show ?thesis by (auto simp: word_le_nat_alt)
qed

text \<open>Loops over a range, with an invariant that follows the loop variable.\<close>

lemma foldE_upt_sound:
  "(\<And>j s s'. lo \<le> j \<Longrightarrow> j < hi \<Longrightarrow> P j s \<Longrightarrow> f (g j) s = Inr s' \<Longrightarrow> P (Suc j) s') \<Longrightarrow> P lo s \<Longrightarrow> lo \<le> hi \<Longrightarrow>
   foldE f (map g [lo..<hi]) s = Inr s' \<Longrightarrow> P hi s'"
proof (induction "hi - lo" arbitrary: lo s)
  case (Suc n)
  then have lt: "lo < hi" by simp
  then obtain s1 where s1: "f (g lo) s = Inr s1" "foldE f (map g [Suc lo..<hi]) s1 = Inr s'"
    using Suc.prems(4) by (auto simp: upt_conv_Cons bindE_eq_Inr)
  then show ?case using Suc.hyps(1)[of "Suc lo" s1] Suc.hyps(2) Suc.prems lt by auto
qed auto

lemma foldE_upt_total:
  "(\<And>j s. lo \<le> j \<Longrightarrow> j < hi \<Longrightarrow> P j s \<Longrightarrow> \<exists>s'. f (g j) s = Inr s' \<and> P (Suc j) s') \<Longrightarrow> P lo s \<Longrightarrow> lo \<le> hi \<Longrightarrow>
   \<exists>s'. foldE f (map g [lo..<hi]) s = Inr s' \<and> P hi s'"
proof (induction "hi - lo" arbitrary: lo s)
  case (Suc n)
  then have lt: "lo < hi" by simp
  then obtain s1 where s1: "f (g lo) s = Inr s1" "P (Suc lo) s1" using Suc.prems by blast
  obtain s' where "foldE f (map g [Suc lo..<hi]) s1 = Inr s'" "P hi s'"
    using Suc.hyps(1)[of "Suc lo" s1] Suc.hyps(2) Suc.prems(1) lt s1 by (metis Suc_diff_Suc Suc_leD Suc_leI nat.inject)
  with s1 lt show ?case by (simp add: upt_conv_Cons)
qed auto

lemmas foldE_range_sound = foldE_upt_sound[where g = "of_nat :: nat \<Rightarrow> u64" and lo = "unat a" and hi = "Suc (unat b)" for a b :: u64,
  folded ul_range_def]

lemmas foldE_range_total = foldE_upt_total[where g = "of_nat :: nat \<Rightarrow> u64" and lo = "unat a" and hi = "Suc (unat b)" for a b :: u64,
  folded ul_range_def]

section \<open>Named collections\<close>

named_theorems geometry \<open>facts on block indices and aligned ranges\<close>
named_theorems wire \<open>layouts of the protocol's structures\<close>
named_theorems steps \<open>equations of one step of a thread or server loop\<close>

end
