(* ===== verification/Net_IO.thy ===== *)
theory Net_IO
  imports Prelude
begin

text \<open>
  \<open>lib/net.c\<close>: moving whole buffers over a descriptor with \<open>readv\<close> and \<open>writev\<close>.

  A descriptor is a \<open>sock\<close>: the segments consecutive \<open>readv\<close> calls deliver (each call
  gets at most one of them), what follows the last segment (end of file, or an error), the
  bytes written so far, and what consecutive \<open>writev\<close> calls accept. This is the documented
  behaviour of the two system calls, short transfers included. \<open>net_iov_all\<close> and the
  wrappers around it are translated line by line, with the C \<open>int\<close> arithmetic of the
  progress computation written out. The theorems say that for transfers below
  \<open>2 ^ 31\<close> bytes the way the kernel cuts the stream does not matter.
\<close>

section \<open>Descriptors and the two system calls\<close>

record iovec =
  iov_base :: int
  iov_len :: nat

record sock =
  rx :: "bytes list"
  rx_end :: "nat option"
  tx :: bytes
  tx_plan :: "(nat + nat) list"

definition wf_sock :: "sock \<Rightarrow> bool" where
  "wf_sock s \<longleftrightarrow> [] \<notin> set (rx s)"

definition pending :: "sock \<Rightarrow> bytes" where
  "pending s = concat (rx s)"

definition iov_total :: "iovec list \<Rightarrow> nat" where
  "iov_total iov = sum_list (map iov_len iov)"

fun scatter :: "mem \<Rightarrow> iovec list \<Rightarrow> bytes \<Rightarrow> mem" where
  "scatter m [] bs = m"
| "scatter m (v # vs) bs =
     scatter (poke m (iov_base v) (take (iov_len v) bs)) vs (drop (iov_len v) bs)"

definition gather :: "mem \<Rightarrow> iovec list \<Rightarrow> bytes" where
  "gather m iov = concat (map (\<lambda>v. peek m (iov_base v) (iov_len v)) iov)"

text \<open>What a system call reports: the bytes it moved, or -1 with \<open>errno\<close>.\<close>

datatype sysret = Xfer nat | Fail nat

definition sys_readv :: "mem \<Rightarrow> sock \<Rightarrow> iovec list \<Rightarrow> sysret \<times> mem \<times> sock" where
  "sys_readv m s iov =
     (if iov_total iov = 0 then (Xfer 0, m, s)
      else case rx s of
        [] \<Rightarrow> (case rx_end s of None \<Rightarrow> (Xfer 0, m, s) | Some e \<Rightarrow> (Fail e, m, s))
      | seg # segs \<Rightarrow>
          let got = take (iov_total iov) seg; rest = drop (iov_total iov) seg
          in (Xfer (length got), scatter m iov got,
              s\<lparr>rx := (if rest = [] then segs else rest # segs)\<rparr>))"

definition sys_writev :: "mem \<Rightarrow> sock \<Rightarrow> iovec list \<Rightarrow> sysret \<times> mem \<times> sock" where
  "sys_writev m s iov =
     (if iov_total iov = 0 then (Xfer 0, m, s)
      else case tx_plan s of
        [] \<Rightarrow> (Xfer (iov_total iov), m, s\<lparr>tx := tx s @ gather m iov\<rparr>)
      | Inl e # plan \<Rightarrow> (Fail e, m, s\<lparr>tx_plan := plan\<rparr>)
      | Inr k # plan \<Rightarrow>
          let n = min (Suc k) (iov_total iov)
          in (Xfer n, m, s\<lparr>tx := tx s @ take n (gather m iov), tx_plan := plan\<rparr>))"

section \<open>The transfer loop\<close>

text \<open>
  The \<open>for\<close> loop that finds the first iovec the last call did not finish; \<open>None\<close> is
  \<open>do_next == 0\<close>. \<open>expected\<close>, \<open>rest_in_block\<close> and \<open>sent_in_block\<close> are C \<open>int\<close>s.
\<close>

fun advance :: "int \<Rightarrow> nat \<Rightarrow> iovec list \<Rightarrow> iovec list option" where
  "advance expected sent [] = None"
| "advance expected sent (v # vs) =
     (let expected' = int32 (expected + int (iov_len v)) in
      if int sent < expected' then
        let rest_in_block = int32 (expected' - int sent);
            sent_in_block = int32 (int (iov_len v) - rest_in_block)
        in Some (v\<lparr>iov_base := iov_base v + sent_in_block, iov_len := nat rest_in_block\<rparr> # vs)
      else advance expected' sent vs)"

lemma iov_total_simps [simp]: "iov_total [] = 0" "iov_total (v # vs) = iov_len v + iov_total vs"
  by (simp_all add: iov_total_def)

lemma advance_shrinks:
  "advance e n iov = Some iov' \<Longrightarrow> - 2147483648 \<le> e \<Longrightarrow>
   int (iov_total iov') + int n \<le> e + int (iov_total iov)"
proof (induction e n iov rule: advance.induct)
  case (2 e n v vs)
  define e' where "e' = int32 (e + int (iov_len v))"
  have le: "e' \<le> e + int (iov_len v)" unfolding e'_def using "2.prems"(2) by (intro int32_le) auto
  have lo: "- 2147483648 \<le> e'" and hi: "e' < 2147483648" unfolding e'_def by (rule int32_bounds)+
  show ?case
  proof (cases "int n < e'")
    case True
    then have "int32 (e' - int n) = e' - int n" using hi by (intro int32_id) auto
    with True "2.prems"(1) have "int (iov_total iov') = e' - int n + int (iov_total vs)"
      by (auto simp: Let_def e'_def[symmetric])
    with le show ?thesis by simp
  next
    case False
    with "2.prems" have "advance e' n vs = Some iov'" by (simp add: Let_def e'_def)
    from "2.IH"[of e', OF _ _ this lo] False have "int (iov_total iov') + int n \<le> e' + int (iov_total vs)"
      by (simp add: e'_def)
    with le show ?thesis by simp
  qed
qed simp

text \<open>
  \<open>net_iov_all\<close>: the result is the C return value (the bytes moved, or -1), the memory, the
  descriptor and \<open>errno\<close>. Every round but the last moves at least one byte, so the loop ends.
\<close>

function net_iov_all ::
  "bool \<Rightarrow> iovec list \<Rightarrow> nat \<Rightarrow> mem \<Rightarrow> sock \<Rightarrow> nat \<Rightarrow> int \<times> mem \<times> sock \<times> nat" where
  "net_iov_all reading iov tot m s errno =
     (case (if reading then sys_readv m s iov else sys_writev m s iov) of
        (Fail e, m', s') \<Rightarrow> (-1, m', s', e)
      | (Xfer sent, m', s') \<Rightarrow>
          if sent = 0 then (int tot, m', s', errno)
          else (case advance 0 sent iov of
              None \<Rightarrow> (int (tot + sent), m', s', errno)
            | Some iov' \<Rightarrow> net_iov_all reading iov' (tot + sent) m' s' errno))"
  by pat_completeness auto
termination
  by (relation "measure (\<lambda>(reading, iov, tot, m, s, errno). iov_total iov)")
    (auto dest!: advance_shrinks)

declare net_iov_all.simps [simp del]

section \<open>Whole buffers\<close>

definition iov1 :: "bytes \<Rightarrow> iovec list" where
  "iov1 buf = [\<lparr>iov_base = 0, iov_len = length buf\<rparr>]"

definition net_send_all :: "sock \<Rightarrow> bytes \<Rightarrow> nat \<Rightarrow> int \<times> sock \<times> nat" where
  "net_send_all s buff errno =
     (case net_iov_all False (iov1 buff) 0 (mem_of buff) s errno of (ret, _, s', e) \<Rightarrow> (ret, s', e))"

text \<open>A receive buffer is passed in with its old contents, which survive a short read.\<close>

definition net_recv_all :: "sock \<Rightarrow> bytes \<Rightarrow> nat \<Rightarrow> int \<times> bytes \<times> sock \<times> nat" where
  "net_recv_all s buff errno =
     (case net_iov_all True (iov1 buff) 0 (mem_of buff) s errno of
        (ret, m, s', e) \<Rightarrow> (ret, peek m 0 (length buff), s', e))"

text \<open>The two checks of a return value: both may end the process.\<close>

definition check_done :: "int \<Rightarrow> nat \<Rightarrow> stop + unit" where
  "check_done ret errcode =
     (if ret = -1 then
        if errcode = ECONNRESET \<or> errcode = EPIPE then Inl (Exit 0) else Inl (Err ''xmit'')
      else if 0 \<le> ret then Inr ()
      else Inl (Err ''not reached''))"

definition check_fin :: "int \<Rightarrow> nat \<Rightarrow> nat \<Rightarrow> stop + bool" where
  "check_fin ret errcode len =
     (if ret = -1 then
        if errcode = ECONNRESET \<or> errcode = EPIPE then Inl (Exit 0) else Inl (Err ''xmit'')
      else if ret = 0 then
        if 0 < len then Inr True else Inl (Err ''len must be larger than 0'')
      else if 0 < ret then
        if ret < int32 (int len) then Inr True
        else if ret = int32 (int len) then Inr False
        else Inl (Err ''len mismatch'')
      else Inl (Err ''not reached''))"

definition net_send_all_or_error :: "sock \<Rightarrow> bytes \<Rightarrow> nat \<Rightarrow> int \<times> sock \<times> nat" where
  "net_send_all_or_error s buff errno =
     (case net_send_all s buff errno of (ret, s', e) \<Rightarrow>
        if int32 ret \<noteq> int32 (int (length buff)) then (-1, s', e) else (int32 ret, s', e))"

definition net_recv_all_or_error :: "sock \<Rightarrow> bytes \<Rightarrow> nat \<Rightarrow> int \<times> bytes \<times> sock \<times> nat" where
  "net_recv_all_or_error s buff errno =
     (case net_recv_all s buff errno of (ret, b, s', e) \<Rightarrow>
        if int32 ret \<noteq> int32 (int (length buff)) then (-1, b, s', e) else (int32 ret, b, s', e))"

definition net_send_all_or_abort :: "sock \<Rightarrow> bytes \<Rightarrow> nat \<Rightarrow> stop + sock \<times> nat" where
  "net_send_all_or_abort s buff errno =
     (case net_send_all s buff errno of (ret, s', e) \<Rightarrow>
        bindE (check_done (int32 ret) e) (\<lambda>_. Inr (s', e)))"

definition net_recv_all_or_abort :: "sock \<Rightarrow> bytes \<Rightarrow> nat \<Rightarrow> stop + bytes \<times> sock \<times> nat" where
  "net_recv_all_or_abort s buff errno =
     (case net_recv_all s buff errno of (ret, b, s', e) \<Rightarrow>
        bindE (check_fin (int32 ret) e (length buff))
          (\<lambda>fin. if fin then Inl (Err ''sockfd closed'') else Inr (b, s', e)))"

definition net_writev_all_or_abort :: "mem \<Rightarrow> sock \<Rightarrow> iovec list \<Rightarrow> nat \<Rightarrow> stop + sock \<times> nat" where
  "net_writev_all_or_abort m s iov errno =
     (case net_iov_all False iov 0 m s errno of (ret, _, s', e) \<Rightarrow>
        bindE (check_done (int32 ret) e) (\<lambda>_. Inr (s', e)))"

definition net_writev_all_or_error :: "mem \<Rightarrow> sock \<Rightarrow> iovec list \<Rightarrow> nat \<Rightarrow> int \<times> sock \<times> nat" where
  "net_writev_all_or_error m s iov errno =
     (case net_iov_all False iov 0 m s errno of (ret, _, s', e) \<Rightarrow>
        if int32 ret \<noteq> int32 (int (iov_total iov)) then (-1, s', e) else (int32 ret, s', e))"

definition net_readv_all_or_abort :: "mem \<Rightarrow> sock \<Rightarrow> iovec list \<Rightarrow> nat \<Rightarrow> stop + mem \<times> sock \<times> nat" where
  "net_readv_all_or_abort m s iov errno =
     (case net_iov_all True iov 0 m s errno of (ret, m', s', e) \<Rightarrow>
        bindE (check_fin (int32 ret) e (iov_total iov))
          (\<lambda>fin. if fin then Inl (Err ''sockfd closed'') else Inr (m', s', e)))"

definition net_readv_all_or_error ::
  "mem \<Rightarrow> sock \<Rightarrow> iovec list \<Rightarrow> nat \<Rightarrow> int \<times> mem \<times> sock \<times> nat" where
  "net_readv_all_or_error m s iov errno =
     (case net_iov_all True iov 0 m s errno of (ret, m', s', e) \<Rightarrow>
        if int32 ret \<noteq> int32 (int (iov_total iov)) then (-1, m', s', e) else (int32 ret, m', s', e))"


section \<open>How the progress computation behaves below \<open>2 ^ 31\<close> bytes\<close>

lemma scatter_Nil [simp]: "scatter m iov [] = m"
  by (induction iov arbitrary: m) auto

lemma scatter_take: "iov_total iov \<le> n \<Longrightarrow> scatter m iov (take n bs) = scatter m iov bs"
proof (induction iov arbitrary: m bs n)
  case (Cons v vs)
  then have "scatter m' vs (take (n - iov_len v) (drop (iov_len v) bs)) = scatter m' vs (drop (iov_len v) bs)" for m'
    by auto
  with Cons.prems show ?case by (simp add: min_absorb1 drop_take)
qed simp

lemma length_gather [simp]: "length (gather m iov) = iov_total iov"
  by (induction iov) (auto simp: gather_def)

lemma gather_Cons: "gather m (v # vs) = peek m (iov_base v) (iov_len v) @ gather m vs"
  by (simp add: gather_def)

lemma advance_None:
  "p \<le> n \<Longrightarrow> p + iov_total iov \<le> n \<Longrightarrow> p + iov_total iov < 2147483648 \<Longrightarrow> advance (int p) n iov = None"
proof (induction iov arbitrary: p)
  case (Cons v vs)
  have "int32 (int p + int (iov_len v)) = int (p + iov_len v)"
    using Cons.prems by (simp add: int32_id)
  with Cons.IH[of "p + iov_len v"] Cons.prems show ?case by (simp add: Let_def)
qed simp

text \<open>
  The remaining iovecs hold exactly what the last call left over: scattering the rest of the
  bytes into them finishes the transfer, gathering from them yields what is still to send.
\<close>

lemma advance_Some:
  "p \<le> n \<Longrightarrow> n < p + iov_total iov \<Longrightarrow> p + iov_total iov < 2147483648 \<Longrightarrow>
   \<exists>iov'. advance (int p) n iov = Some iov' \<and> iov_total iov' = p + iov_total iov - n \<and>
     (\<forall>m bs. scatter (scatter m iov (take (n - p) bs)) iov' (drop (n - p) bs) = scatter m iov bs) \<and>
     (\<forall>m. gather m iov' = drop (n - p) (gather m iov))"
proof (induction iov arbitrary: p)
  case (Cons v vs)
  let ?e = "int (p + iov_len v)"
  have e: "int32 (int p + int (iov_len v)) = ?e"
    using Cons.prems by (simp add: int32_id)
  show ?case
  proof (cases "n < p + iov_len v")
    case True
    let ?v = "v\<lparr>iov_base := iov_base v + int (n - p), iov_len := p + iov_len v - n\<rparr>"
    have r: "int32 (?e - int n) = ?e - int n" and q: "int32 (int (iov_len v) - (?e - int n)) = int (n - p)"
      using True Cons.prems by (auto intro: int32_id simp: int32_id of_nat_diff)
    have nr: "nat (int p + int (iov_len v) - int n) = p + iov_len v - n" by linarith
    have adv: "advance (int p) n (v # vs) = Some (?v # vs)"
      using True e r q nr by (simp add: Let_def)
    have k: "n - p \<le> iov_len v" using True by simp
    have sc: "scatter (scatter m (v # vs) (take (n - p) bs)) (?v # vs) (drop (n - p) bs) = scatter m (v # vs) bs" for m bs
    proof -
      have "take (iov_len v) (take (n - p) bs) = take (n - p) (take (iov_len v) bs)"
        by (simp add: min.commute)
      moreover have "drop (iov_len v) (take (n - p) bs) = []" using k by simp
      moreover have "take (p + iov_len v - n) (drop (n - p) bs) = drop (n - p) (take (iov_len v) bs)"
        using True Cons.prems(1) by (simp add: drop_take add.commute)
      moreover have "drop (p + iov_len v - n) (drop (n - p) bs) = drop (iov_len v) bs"
        using True Cons.prems(1) by (simp add: add.commute)
      moreover have "poke (poke m (iov_base v) (take (n - p) (take (iov_len v) bs)))
            (iov_base v + int (n - p)) (drop (n - p) (take (iov_len v) bs)) = poke m (iov_base v) (take (iov_len v) bs)"
      proof (cases "n - p \<le> length (take (iov_len v) bs)")
        case True
        then show ?thesis using poke_take_drop[of m "iov_base v" "n - p" "take (iov_len v) bs"]
          by (simp add: min_absorb1)
      next
        case False
        then have "length bs \<le> n - p" using k by simp
        with k show ?thesis by (simp add: min_absorb1)
      qed
      ultimately show ?thesis by simp
    qed
    have ga: "gather m (?v # vs) = drop (n - p) (gather m (v # vs))" for m
      using k Cons.prems(1) by (simp add: gather_Cons drop_peek add.commute)
    from adv sc ga True Cons.prems show ?thesis by (intro exI[of _ "?v # vs"]) simp
  next
    case False
    then have "p + iov_len v \<le> n" by simp
    with Cons.IH[of "p + iov_len v"] Cons.prems obtain iov' where
      adv: "advance ?e n vs = Some iov'" and tot: "iov_total iov' = p + iov_len v + iov_total vs - n"
      and sc: "\<And>m bs. scatter (scatter m vs (take (n - (p + iov_len v)) bs)) iov' (drop (n - (p + iov_len v)) bs) = scatter m vs bs"
      and ga: "\<And>m. gather m iov' = drop (n - (p + iov_len v)) (gather m vs)" by auto
    have d: "n - p = iov_len v + (n - (p + iov_len v))" using \<open>p + iov_len v \<le> n\<close> by simp
    have "scatter (scatter m (v # vs) (take (n - p) bs)) iov' (drop (n - p) bs) = scatter m (v # vs) bs" for m bs
    proof -
      have "take (iov_len v) (take (n - p) bs) = take (iov_len v) bs"
        "drop (iov_len v) (take (n - p) bs) = take (n - (p + iov_len v)) (drop (iov_len v) bs)"
        "drop (n - p) bs = drop (n - (p + iov_len v)) (drop (iov_len v) bs)"
        using d by (simp_all add: drop_take min_absorb1 add.commute)
      with sc[of "poke m (iov_base v) (take (iov_len v) bs)" "drop (iov_len v) bs"]
      show ?thesis by (simp del: drop_drop take_take)
    qed
    moreover have "gather m iov' = drop (n - p) (gather m (v # vs))" for m
      using d by (simp add: ga gather_Cons)
    ultimately show ?thesis using adv tot e False Cons.prems by (simp add: Let_def)
  qed
qed simp

section \<open>The kernel's segmentation does not matter\<close>

lemma net_iov_all_read_full:
  "iov_total iov < 2147483648 \<Longrightarrow> wf_sock s \<Longrightarrow> iov_total iov \<le> length (pending s) \<Longrightarrow>
   \<exists>segs. net_iov_all True iov tot m s e =
       (int (tot + iov_total iov), scatter m iov (pending s), s\<lparr>rx := segs\<rparr>, e) \<and>
     concat segs = drop (iov_total iov) (pending s) \<and> [] \<notin> set segs"
proof (induction "iov_total iov" arbitrary: iov tot m s rule: less_induct)
  case less
  show ?case
  proof (cases "iov_total iov = 0")
    case True
    have "scatter m iov (pending s) = m"
      using scatter_take[of iov 0 m "pending s"] True by simp
    with True less.prems show ?thesis
      by (intro exI[of _ "rx s"]) (simp add: net_iov_all.simps sys_readv_def pending_def wf_sock_def)
  next
    case False
    with less.prems obtain seg segs where rx: "rx s = seg # segs" and seg: "seg \<noteq> []"
      by (cases "rx s") (auto simp: pending_def wf_sock_def)
    show ?thesis
    proof (cases "iov_total iov \<le> length seg")
      case True
      let ?rest = "drop (iov_total iov) seg"
      have "advance 0 (iov_total iov) iov = None"
        using advance_None[of 0 "iov_total iov" iov] less.prems by simp
      moreover have "scatter m iov (take (iov_total iov) seg) = scatter m iov (pending s)"
        using scatter_take[of iov "iov_total iov" m "seg @ concat segs"] True
        by (simp add: pending_def rx)
      ultimately show ?thesis
        using True False rx less.prems(2)
        by (intro exI[of _ "if ?rest = [] then segs else ?rest # segs"])
          (auto simp: net_iov_all.simps[of True iov] sys_readv_def pending_def wf_sock_def min_absorb2)
    next
      case short: False
      let ?n = "length seg" and ?s = "s\<lparr>rx := segs\<rparr>"
      obtain iov' where adv: "advance 0 ?n iov = Some iov'" and tot': "iov_total iov' = iov_total iov - ?n"
        and sc: "\<And>m bs. scatter (scatter m iov (take ?n bs)) iov' (drop ?n bs) = scatter m iov bs"
        using advance_Some[of 0 ?n iov] short less.prems by auto
      have pend: "pending s = seg @ pending ?s" by (simp add: pending_def rx)
      have step: "net_iov_all True iov tot m s e = net_iov_all True iov' (tot + ?n) (scatter m iov seg) ?s e"
        using False short rx seg adv by (simp add: net_iov_all.simps[of True iov] sys_readv_def)
      have "iov_total iov' < iov_total iov" using tot' seg short False by simp
      moreover have "wf_sock ?s" using less.prems(2) rx by (simp add: wf_sock_def)
      moreover have "iov_total iov' \<le> length (pending ?s)" using tot' less.prems(3) pend by simp
      moreover have "iov_total iov' < 2147483648" using tot' less.prems(1) by simp
      ultimately obtain segs' where
        "net_iov_all True iov' (tot + ?n) (scatter m iov seg) ?s e =
           (int (tot + ?n + iov_total iov'), scatter (scatter m iov seg) iov' (pending ?s), ?s\<lparr>rx := segs'\<rparr>, e)"
        "concat segs' = drop (iov_total iov') (pending ?s)" "[] \<notin> set segs'"
        using less.hyps[of iov' ?s "tot + ?n" "scatter m iov seg"] by auto
      moreover have "scatter (scatter m iov seg) iov' (pending ?s) = scatter m iov (pending s)"
        using sc[of m "pending s"] by (simp add: pend)
      ultimately show ?thesis using step tot' short pend
        by (intro exI[of _ segs']) simp
    qed
  qed
qed

lemma net_iov_all_read_short:
  "iov_total iov < 2147483648 \<Longrightarrow> wf_sock s \<Longrightarrow> length (pending s) < iov_total iov \<Longrightarrow>
   net_iov_all True iov tot m s e =
     (case rx_end s of
        None \<Rightarrow> (int (tot + length (pending s)), scatter m iov (pending s), s\<lparr>rx := []\<rparr>, e)
      | Some err \<Rightarrow> (-1, scatter m iov (pending s), s\<lparr>rx := []\<rparr>, err))"
proof (induction "length (rx s)" arbitrary: iov tot m s)
  case 0
  then show ?case
    by (auto simp: net_iov_all.simps[of True iov] sys_readv_def pending_def split: option.splits)
next
  case (Suc k)
  then obtain seg segs where rx: "rx s = seg # segs" and seg: "seg \<noteq> []"
    by (cases "rx s") (auto simp: wf_sock_def)
  let ?n = "length seg" and ?s = "s\<lparr>rx := segs\<rparr>"
  have pend: "pending s = seg @ pending ?s" by (simp add: pending_def rx)
  then have short: "?n < iov_total iov" using Suc.prems by simp
  obtain iov' where adv: "advance 0 ?n iov = Some iov'" and tot': "iov_total iov' = iov_total iov - ?n"
    and sc: "\<And>m bs. scatter (scatter m iov (take ?n bs)) iov' (drop ?n bs) = scatter m iov bs"
    using advance_Some[of 0 ?n iov] short Suc.prems by auto
  have step: "net_iov_all True iov tot m s e = net_iov_all True iov' (tot + ?n) (scatter m iov seg) ?s e"
    using short rx seg adv by (simp add: net_iov_all.simps[of True iov] sys_readv_def)
  have "scatter (scatter m iov seg) iov' (pending ?s) = scatter m iov (pending s)"
    using sc[of m "pending s"] by (simp add: pend)
  with Suc.hyps(1)[of ?s iov' "tot + ?n" "scatter m iov seg"] Suc.prems Suc.hyps(2) tot' rx step pend
  show ?case by (auto simp: wf_sock_def split: option.splits)
qed

text \<open>A descriptor whose writes never fail, however little each call accepts.\<close>

definition writable :: "sock \<Rightarrow> bool" where
  "writable s \<longleftrightarrow> (\<forall>x \<in> set (tx_plan s). \<not> isl x)"

lemma net_iov_all_write_full:
  "iov_total iov < 2147483648 \<Longrightarrow> writable s \<Longrightarrow>
   \<exists>plan. net_iov_all False iov tot m s e =
       (int (tot + iov_total iov), m, s\<lparr>tx := tx s @ gather m iov, tx_plan := plan\<rparr>, e) \<and>
     (\<forall>x \<in> set plan. \<not> isl x)"
proof (induction "iov_total iov" arbitrary: iov tot s rule: less_induct)
  case less
  have none: "advance 0 (iov_total iov) iov = None"
    using advance_None[of 0 "iov_total iov" iov] less.prems by simp
  show ?case
  proof (cases "iov_total iov = 0 \<or> tx_plan s = []")
    case True
    then consider "iov_total iov = 0" | "iov_total iov \<noteq> 0" "tx_plan s = []" by auto
    then show ?thesis
    proof cases
      case 1
      moreover from 1 have "gather m iov = []" using length_gather[of m iov] by (simp del: length_gather)
      ultimately show ?thesis using less.prems
        by (intro exI[of _ "tx_plan s"]) (simp add: net_iov_all.simps[of False iov] sys_writev_def writable_def)
    next
      case 2
      then show ?thesis using none
        by (intro exI[of _ "[]"]) (simp add: net_iov_all.simps[of False iov] sys_writev_def)
    qed
  next
    case False
    then obtain k plan where plan: "tx_plan s = Inr k # plan" and pos: "0 < iov_total iov"
      using less.prems(2) by (cases "tx_plan s") (auto simp: writable_def isl_def split: sum.splits, metis sum.exhaust)
    define n where n: "n = min (Suc k) (iov_total iov)"
    have n0: "n \<noteq> 0" using pos by (simp add: n)
    let ?s = "s\<lparr>tx := tx s @ take n (gather m iov), tx_plan := plan\<rparr>"
    have pl: "\<forall>x \<in> set plan. \<not> isl x" using less.prems(2) plan by (simp add: writable_def)
    show ?thesis
    proof (cases "n = iov_total iov")
      case True
      then show ?thesis using none plan pos pl
        by (intro exI[of _ plan]) (simp add: net_iov_all.simps[of False iov] sys_writev_def Let_def n[symmetric])
    next
      case short: False
      then have lt: "n < iov_total iov" by (simp add: n)
      obtain iov' where adv: "advance 0 n iov = Some iov'" and tot': "iov_total iov' = iov_total iov - n"
        and ga: "\<And>m. gather m iov' = drop n (gather m iov)"
        using advance_Some[of 0 n iov] lt less.prems by auto
      have step: "net_iov_all False iov tot m s e = net_iov_all False iov' (tot + n) m ?s e"
        using plan pos adv n0 by (simp add: net_iov_all.simps[of False iov] sys_writev_def Let_def n[symmetric])
      have "writable ?s" using pl by (simp add: writable_def)
      moreover have "iov_total iov' < iov_total iov" using tot' lt n0 by simp
      moreover have "iov_total iov' < 2147483648" using tot' less.prems(1) by simp
      ultimately obtain plan' where
        "net_iov_all False iov' (tot + n) m ?s e =
           (int (tot + n + iov_total iov'), m, ?s\<lparr>tx := tx ?s @ gather m iov', tx_plan := plan'\<rparr>, e)"
        "\<forall>x \<in> set plan'. \<not> isl x"
        using less.hyps[of iov' ?s "tot + n"] by blast
      with step tot' lt show ?thesis
        by (intro exI[of _ plan']) (simp add: ga)
    qed
  qed
qed


section \<open>The contract the protocol code relies on\<close>

text \<open>
  What \<open>lib/nbd.c\<close> needs of a receive routine: given enough bytes it fills the buffer with
  the next ones of the stream and consumes exactly those, else it says -1; and what it needs of a
  send routine: the bytes are appended to what was sent.
\<close>

locale exact_recv =
  fixes recv :: "'s \<Rightarrow> bytes \<Rightarrow> nat \<Rightarrow> int \<times> bytes \<times> 's \<times> nat"
    and pend :: "'s \<Rightarrow> bytes" and ok :: "'s \<Rightarrow> bool" and other :: "'s \<Rightarrow> 'o" and lim :: nat
  assumes recv_full: "ok s \<Longrightarrow> length buf < lim \<Longrightarrow> length buf \<le> length (pend s) \<Longrightarrow>
      \<exists>s'. recv s buf e = (int (length buf), take (length buf) (pend s), s', e) \<and> ok s' \<and>
        pend s' = drop (length buf) (pend s) \<and> other s' = other s"
    and recv_short: "ok s \<Longrightarrow> length buf < lim \<Longrightarrow> length (pend s) < length buf \<Longrightarrow>
      fst (recv s buf e) = -1"
begin

lemma recv_struct:
  assumes "ok s" and "pend s = xs @ rest" and "length buf = length xs" and "length xs < lim"
  obtains s' where "recv s buf e = (int (length xs), xs, s', e)" and "ok s'" and "pend s' = rest"
    and "other s' = other s"
  using recv_full[of s buf e] assms by auto

lemma recv_nonneg_iff:
  assumes "ok s" and "length buf < lim"
  shows "0 \<le> fst (recv s buf e) \<longleftrightarrow> length buf \<le> length (pend s)"
proof (cases "length buf \<le> length (pend s)")
  case True
  with recv_full[OF assms True, of e] show ?thesis by auto
next
  case False
  with recv_short[OF assms, of e] show ?thesis by simp
qed

lemma recv_two:
  assumes "ok s" and "pend s = xs @ ys @ rest" and "length b1 = length xs" and "length b2 = length ys"
    and "length xs < lim" and "length ys < lim"
  obtains s1 s2 where "recv s b1 e = (int (length xs), xs, s1, e)"
    and "recv s1 b2 e = (int (length ys), ys, s2, e)" and "ok s2" and "pend s2 = rest" and "other s2 = other s"
proof -
  obtain s1 where 1: "recv s b1 e = (int (length xs), xs, s1, e)" "ok s1" "pend s1 = ys @ rest" "other s1 = other s"
    using recv_struct[of s xs "ys @ rest" b1 e] assms by auto
  obtain s2 where "recv s1 b2 e = (int (length ys), ys, s2, e)" "ok s2" "pend s2 = rest" "other s2 = other s1"
    using recv_struct[of s1 ys rest b2 e] assms 1 by auto
  with 1 that show ?thesis by simp
qed

end

locale exact_send =
  fixes send :: "'s \<Rightarrow> bytes \<Rightarrow> nat \<Rightarrow> int \<times> 's \<times> nat"
    and sent :: "'s \<Rightarrow> bytes" and ok :: "'s \<Rightarrow> bool" and other :: "'s \<Rightarrow> 'o" and lim :: nat
  assumes send_full: "ok s \<Longrightarrow> length buf < lim \<Longrightarrow>
      \<exists>s'. send s buf e = (int (length buf), s', e) \<and> ok s' \<and> sent s' = sent s @ buf \<and> other s' = other s"
begin

lemma send_two:
  assumes "ok s" and "length a < lim" and "length b < lim"
  obtains s1 s2 where "send s a e = (int (length a), s1, e)" and "send s1 b e = (int (length b), s2, e)"
    and "ok s2" and "sent s2 = sent s @ a @ b" and "other s2 = other s"
  using send_full[OF assms(1,2), of e] send_full[OF _ assms(3), of _ e] that
  by (metis append.assoc)

end

definition rx_part :: "sock \<Rightarrow> bytes list \<times> nat option" where
  "rx_part s = (rx s, rx_end s)"

definition tx_part :: "sock \<Rightarrow> bytes \<times> (nat + nat) list \<times> nat option" where
  "tx_part s = (tx s, tx_plan s, rx_end s)"

lemma iov1_total [simp]: "iov_total (iov1 buf) = length buf"
  by (simp add: iov1_def)

lemma scatter_iov1: "length buf = length xs \<Longrightarrow> peek (scatter (mem_of buf) (iov1 buf) xs) 0 (length buf) = xs"
  by (simp add: iov1_def)

lemma scatter_iov1_long:
  "length buf \<le> length bs \<Longrightarrow> peek (scatter (mem_of buf) (iov1 buf) bs) 0 (length buf) = take (length buf) bs"
  by (simp add: iov1_def)

lemma gather_iov1 [simp]: "gather (mem_of buf) (iov1 buf) = buf"
  by (simp add: iov1_def gather_def)

lemma net_recv_all_or_error_full:
  assumes "wf_sock s" and "length buf < 2147483648" and "length buf \<le> length (pending s)"
  shows "\<exists>s'. net_recv_all_or_error s buf e = (int (length buf), take (length buf) (pending s), s', e) \<and>
    wf_sock s' \<and> pending s' = drop (length buf) (pending s) \<and> tx_part s' = tx_part s"
proof -
  obtain segs where "net_iov_all True (iov1 buf) 0 (mem_of buf) s e =
      (int (length buf), scatter (mem_of buf) (iov1 buf) (pending s), s\<lparr>rx := segs\<rparr>, e)"
    and "concat segs = drop (length buf) (pending s)" and "[] \<notin> set segs"
    using net_iov_all_read_full[of "iov1 buf" s 0 "mem_of buf" e] assms by auto
  then show ?thesis using assms
    by (intro exI[of _ "s\<lparr>rx := segs\<rparr>"])
      (simp add: net_recv_all_or_error_def net_recv_all_def scatter_iov1_long int32_of_nat
        wf_sock_def pending_def tx_part_def)
qed

lemma net_recv_all_or_error_short:
  assumes "wf_sock s" and "length buf < 2147483648" and "length (pending s) < length buf"
  shows "fst (net_recv_all_or_error s buf e) = -1"
  using net_iov_all_read_short[of "iov1 buf" s 0 "mem_of buf" e] assms
  by (auto simp: net_recv_all_or_error_def net_recv_all_def int32_of_nat split: option.splits)

lemma net_send_all_full:
  assumes "writable s" and "length buf < 2147483648"
  shows "\<exists>s'. net_send_all s buf e = (int (length buf), s', e) \<and> writable s' \<and>
    tx s' = tx s @ buf \<and> rx_part s' = rx_part s"
proof -
  obtain plan where "net_iov_all False (iov1 buf) 0 (mem_of buf) s e =
      (int (length buf), mem_of buf, s\<lparr>tx := tx s @ buf, tx_plan := plan\<rparr>, e)"
    and "\<forall>x \<in> set plan. \<not> isl x"
    using net_iov_all_write_full[of "iov1 buf" s 0 "mem_of buf" e] assms by auto
  then show ?thesis
    by (intro exI[of _ "s\<lparr>tx := tx s @ buf, tx_plan := plan\<rparr>"])
      (simp add: net_send_all_def writable_def rx_part_def)
qed

lemma net_send_all_or_error_full:
  assumes "writable s" and "length buf < 2147483648"
  shows "\<exists>s'. net_send_all_or_error s buf e = (int (length buf), s', e) \<and> writable s' \<and>
    tx s' = tx s @ buf \<and> rx_part s' = rx_part s"
  using net_send_all_full[OF assms, of e] assms(2)
  by (auto simp: net_send_all_or_error_def int32_of_nat)

interpretation net_in: exact_recv net_recv_all_or_error pending wf_sock tx_part 2147483648
  by unfold_locales (blast intro: net_recv_all_or_error_full, rule net_recv_all_or_error_short)

interpretation net_out: exact_send net_send_all_or_error tx writable rx_part 2147483648
  by unfold_locales (blast intro: net_send_all_or_error_full)

interpretation net_out_raw: exact_send net_send_all tx writable rx_part 2147483648
  by unfold_locales (blast intro: net_send_all_full)

lemma net_send_all_or_abort_full:
  assumes "writable s" and "length buf < 2147483648"
  shows "\<exists>s'. net_send_all_or_abort s buf e = Inr (s', e) \<and> writable s' \<and>
    tx s' = tx s @ buf \<and> rx_part s' = rx_part s"
  using net_send_all_full[OF assms, of e] assms(2)
  by (auto simp: net_send_all_or_abort_def check_done_def int32_of_nat)

lemma net_writev_all_or_abort_full:
  assumes "writable s" and "iov_total iov < 2147483648"
  shows "\<exists>s'. net_writev_all_or_abort m s iov e = Inr (s', e) \<and> writable s' \<and>
    tx s' = tx s @ gather m iov \<and> rx_part s' = rx_part s"
proof -
  obtain plan where "net_iov_all False iov 0 m s e =
      (int (iov_total iov), m, s\<lparr>tx := tx s @ gather m iov, tx_plan := plan\<rparr>, e)"
    and "\<forall>x \<in> set plan. \<not> isl x"
    using net_iov_all_write_full[OF assms(2,1), of 0 m e] by auto
  then show ?thesis using assms(2)
    by (intro exI[of _ "s\<lparr>tx := tx s @ gather m iov, tx_plan := plan\<rparr>"])
      (simp add: net_writev_all_or_abort_def check_done_def int32_of_nat writable_def rx_part_def)
qed

section \<open>Properties\<close>

text \<open>
  C9. How the kernel cuts a stream into segments does not change what \<open>net_recv_all_or_error\<close>
  does: on two descriptors that hold the same pending bytes and end the same way, a receive of
  less than \<open>2 ^ 31\<close> bytes returns the same code; when it succeeds it yields the same buffer and
  leaves the same bytes pending.
\<close>

theorem recv_segmentation_independent:
  assumes "wf_sock s" and "wf_sock t" and "pending s = pending t" and "length buf < 2147483648"
    and "net_recv_all_or_error s buf e = (r, b, s', e')" and "net_recv_all_or_error t buf e = (r2, b2, t', e2)"
  shows "r = r2 \<and> (0 \<le> r \<longrightarrow> b = b2 \<and> pending s' = pending t' \<and> e' = e2)"
proof (cases "length buf \<le> length (pending s)")
  case True
  with net_recv_all_or_error_full[OF assms(1,4), of e] net_recv_all_or_error_full[OF assms(2,4), of e] assms
  show ?thesis by auto
next
  case False
  with net_recv_all_or_error_short[OF assms(1,4), of e] net_recv_all_or_error_short[OF assms(2,4), of e] assms
  show ?thesis by simp
qed

theorem recv_segmentation_independent_witness:
  "\<exists>r b s' t' e' r2 b2 e2.
     net_recv_all_or_error \<lparr>rx = [[1], [2, 3], [4]], rx_end = None, tx = [], tx_plan = []\<rparr> [0, 0, 0] 0 = (r, b, s', e') \<and>
     net_recv_all_or_error \<lparr>rx = [[1, 2, 3, 4]], rx_end = None, tx = [], tx_plan = []\<rparr> [0, 0, 0] 0 = (r2, b2, t', e2) \<and>
     r = r2"
proof -
  let ?s = "\<lparr>rx = [[1], [2, 3], [4]], rx_end = None, tx = [], tx_plan = []\<rparr> :: sock"
  let ?t = "\<lparr>rx = [[1, 2, 3, 4]], rx_end = None, tx = [], tx_plan = []\<rparr> :: sock"
  obtain r b s' e' where 1: "net_recv_all_or_error ?s [0, 0, 0] 0 = (r, b, s', e')" by (metis prod_cases4)
  obtain r2 b2 t' e2 where 2: "net_recv_all_or_error ?t [0, 0, 0] 0 = (r2, b2, t', e2)" by (metis prod_cases4)
  have "wf_sock ?s" "wf_sock ?t" "pending ?s = pending ?t" by (simp_all add: wf_sock_def pending_def)
  from recv_segmentation_independent[OF this _ 1 2] 1 2 show ?thesis by auto
qed

end
