(* ===== verification/Byte_Order.thy ===== *)
theory Byte_Order
  imports Prelude
begin

text \<open>
  How integers lie in memory and on the wire. The sources fill packed structures with
  \<open>htons\<close>, \<open>htonl\<close> and \<open>htonll\<close> and send their memory; the host is little-endian. \<open>le n w\<close>
  is the memory of an \<open>n\<close>-byte integer, \<open>un_le\<close> reads it back, \<open>swap n\<close> is the byte swap
  behind the \<open>hton\<close> functions and their inverses.
\<close>

definition le :: "nat \<Rightarrow> 'a::len word \<Rightarrow> bytes" where
  "le n w = map (\<lambda>k. ucast (drop_bit (8 * k) w)) [0..<n]"

definition un_le :: "bytes \<Rightarrow> 'a::len word" where
  "un_le bs = foldr (\<lambda>b acc. or (ucast b) (push_bit 8 acc)) bs 0"

definition swap :: "nat \<Rightarrow> 'a::len word \<Rightarrow> 'a word" where
  "swap n w = un_le (rev (le n w))"

definition htons :: "u16 \<Rightarrow> u16" where "htons = swap 2"
definition htonl :: "u32 \<Rightarrow> u32" where "htonl = swap 4"
definition htonll :: "u64 \<Rightarrow> u64" where "htonll = swap 8"
definition ntohs :: "u16 \<Rightarrow> u16" where "ntohs = swap 2"
definition ntohl :: "u32 \<Rightarrow> u32" where "ntohl = swap 4"
definition ntohll :: "u64 \<Rightarrow> u64" where "ntohll = swap 8"

lemma length_le [simp]: "length (le n w) = n"
  by (simp add: le_def)

lemma un_le_Nil [simp]: "un_le [] = 0"
  by (simp add: un_le_def)

lemma un_le_Cons: "un_le (b # bs) = or (ucast b) (push_bit 8 (un_le bs))"
  by (simp add: un_le_def)

lemma bit_un_le:
  "bit (un_le bs :: 'a::len word) i \<longleftrightarrow> i < LENGTH('a) \<and> i div 8 < length bs \<and> bit (bs ! (i div 8)) (i mod 8)"
proof (induction bs arbitrary: i)
  case (Cons b bs)
  show ?case
  proof (cases "i < 8")
    case True
    then show ?thesis by (auto simp: un_le_Cons bit_or_iff bit_ucast_iff bit_push_bit_iff dest: bit_imp_le_length)
  next
    case False
    then have "i div 8 = Suc ((i - 8) div 8)" and "(i - 8) mod 8 = i mod 8" by (auto simp: le_div_geq le_mod_geq)
    moreover have "\<not> bit b i" using False bit_imp_le_length[of b i] by auto
    ultimately show ?thesis using False
      by (auto simp: un_le_Cons bit_or_iff bit_ucast_iff bit_push_bit_iff Cons.IH)
  qed
qed simp

lemma un_le_le: "LENGTH('a) = 8 * n \<Longrightarrow> un_le (le n w) = (w :: 'a::len word)"
proof (rule bit_eqI)
  fix i
  assume len: "LENGTH('a) = 8 * n"
  have "bit (ucast (drop_bit (8 * (i div 8)) w) :: u8) (i mod 8) \<longleftrightarrow> bit w i"
    by (simp add: bit_ucast_iff bit_drop_bit_eq)
  moreover have "i div 8 < n \<longleftrightarrow> i < LENGTH('a)" using len by auto
  ultimately show "bit (un_le (le n w) :: 'a word) i = bit w i"
    using bit_imp_le_length[of w i] by (auto simp: bit_un_le le_def)
qed

lemma le_un_le: "LENGTH('a) = 8 * n \<Longrightarrow> length bs = n \<Longrightarrow> le n (un_le bs :: 'a::len word) = bs"
proof (rule nth_equalityI)
  fix k
  assume len: "LENGTH('a) = 8 * n" and n: "length bs = n" and k: "k < length (le n (un_le bs :: 'a word))"
  show "le n (un_le bs :: 'a word) ! k = bs ! k"
  proof (rule bit_eqI)
    fix j
    assume "possible_bit TYPE(8 word) j"
    then have j: "j < 8" by simp
    then have "(8 * k + j) div 8 = k" "(8 * k + j) mod 8 = j" by simp_all
    with j k n len show "bit (le n (un_le bs :: 'a word) ! k) j = bit (bs ! k) j"
      by (simp add: le_def bit_ucast_iff bit_drop_bit_eq bit_un_le)
  qed
qed simp

lemma swap_swap: "LENGTH('a) = 8 * n \<Longrightarrow> swap n (swap n w) = (w :: 'a::len word)"
  by (simp add: swap_def le_un_le un_le_le)

lemma le_swap: "LENGTH('a) = 8 * n \<Longrightarrow> le n (swap n w) = rev (le n (w :: 'a::len word))"
  by (simp add: swap_def le_un_le)

lemma hton_ntoh [simp]:
  "ntohs (htons a) = a" "ntohl (htonl b) = b" "ntohll (htonll c) = c"
  "htons (ntohs a) = a" "htonl (ntohl b) = b" "htonll (ntohll c) = c"
  by (simp_all add: ntohs_def htons_def ntohl_def htonl_def ntohll_def htonll_def swap_swap)

lemma swap_0 [simp]: "swap n 0 = 0"
proof -
  have "rev (le n (0 :: 'a word)) = replicate n 0" by (simp add: le_def map_replicate_const)
  moreover have "un_le (replicate n 0) = (0 :: 'a word)" by (induction n) (simp_all add: un_le_Cons)
  ultimately show ?thesis by (simp add: swap_def)
qed

lemma hton_0 [simp]: "htonl 0 = 0" "ntohl 0 = 0" "htonll 0 = 0" "ntohll 0 = 0"
  by (simp_all add: htonl_def ntohl_def htonll_def ntohll_def)

lemma htonl_eq_iff: "htonl a = htonl b \<longleftrightarrow> a = b"
  by (metis hton_ntoh(2))

lemma un_le_le_words [simp]:
  "un_le (le 2 (a :: u16)) = a" "un_le (le 4 (b :: u32)) = b" "un_le (le 8 (c :: u64)) = c"
  by (simp_all add: un_le_le)

text \<open>An array of \<open>unsigned long\<close> as it lies in an mmap-ed file.\<close>

function words_of :: "bytes \<Rightarrow> u64 list" where
  "words_of bs = (if length bs < 8 then [] else un_le (take 8 bs) # words_of (drop 8 bs))"
  by pat_completeness auto
termination by (relation "measure length") auto

declare words_of.simps [simp del]

lemma length_words_of [simp]: "length (words_of bs) = length bs div 8"
proof (induction bs rule: words_of.induct)
  case (1 bs)
  then show ?case by (subst words_of.simps) (auto simp: le_div_geq not_less)
qed

definition bytes_of :: "u64 list \<Rightarrow> bytes" where
  "bytes_of ws = concat (map (le 8) ws)"

lemma length_bytes_of [simp]: "length (bytes_of ws) = 8 * length ws"
  by (induction ws) (auto simp: bytes_of_def)

lemma words_of_bytes_of [simp]: "words_of (bytes_of ws) = ws"
proof (induction ws)
  case Nil
  then show ?case by (simp add: bytes_of_def words_of.simps)
next
  case (Cons w ws)
  then show ?case by (subst words_of.simps) (simp add: bytes_of_def)
qed

lemma words_of_zeros: "words_of (replicate (8 * n) 0) = replicate n 0"
proof (induction n)
  case 0
  then show ?case by (simp add: words_of.simps)
next
  case (Suc n)
  have "replicate (8 * Suc n) (0 :: u8) = replicate 8 0 @ replicate (8 * n) 0"
    by (simp flip: replicate_add)
  moreover have "un_le (replicate 8 0) = (0 :: u64)"
    by (simp add: numeral_eq_Suc un_le_Cons)
  ultimately show ?case using Suc by (subst words_of.simps) simp
qed

end
