(* ===== verification/Nbd.thy ===== *)
theory Nbd
  imports Net_IO Byte_Order
begin

text \<open>
  \<open>lib/nbd.c\<close> and \<open>lib/nbd.h\<close>: the request and reply headers, their client and server side, and the
  two negotiations. The fields of a structure hold what its memory holds (network byte order, as the
  sources store it); \<open>enc_\<close> functions give the packed memory image that is sent and \<open>dec_\<close> functions
  read one back. The \<open>errno\<close> of a transfer is only printed here and is dropped.
\<close>

section \<open>Structures and constants\<close>

definition NBD_REQUEST_MAGIC :: u32 where "NBD_REQUEST_MAGIC = 0x25609513"
definition NBD_REPLY_MAGIC :: u32 where "NBD_REPLY_MAGIC = 0x67446698"

record nbd_request =
  rq_magic :: u32
  rq_type :: u32
  rq_handle :: u64
  rq_from :: u64
  rq_len :: u32

record nbd_reply =
  rp_magic :: u32
  rp_error :: u32
  rp_handle :: u64

abbreviation (input) NBD_CMD_READ :: u32 where "NBD_CMD_READ \<equiv> 0"
abbreviation (input) NBD_CMD_WRITE :: u32 where "NBD_CMD_WRITE \<equiv> 1"
abbreviation (input) NBD_CMD_DISC :: u32 where "NBD_CMD_DISC \<equiv> 2"
abbreviation (input) NBD_CMD_FLUSH :: u32 where "NBD_CMD_FLUSH \<equiv> 3"
abbreviation (input) NBD_CMD_TRIM :: u32 where "NBD_CMD_TRIM \<equiv> 4"
abbreviation (input) NBD_CMD_CACHE :: u32 where "NBD_CMD_CACHE \<equiv> 5"
abbreviation (input) NBD_CMD_READ_COMPRESS :: u32 where "NBD_CMD_READ_COMPRESS \<equiv> 6"
abbreviation (input) NBD_CMD_READ_COMPRESS_LZO :: u32 where "NBD_CMD_READ_COMPRESS_LZO \<equiv> 7"
abbreviation (input) NBD_CMD_UNDEFINED :: u32 where "NBD_CMD_UNDEFINED \<equiv> 8"

definition nbd_get_iotype_string :: "u32 \<Rightarrow> string" where
  "nbd_get_iotype_string iotype =
     (let table = [''NBD_CMD_READ'', ''NBD_CMD_WRITE'', ''NBD_CMD_DISC'', ''NBD_CMD_FLUSH'', ''NBD_CMD_TRIM'',
                   ''NBD_CMD_CACHE'', ''NBD_CMD_READ_COMPRESS'', ''NBD_CMD_READ_COMPRESS_LZO'', ''NBD_CMD_UNDEFINED'']
      in if length table \<le> unat iotype then ''NBD_CMD_(unknown)'' else table ! unat iotype)"

definition enc_request :: "nbd_request \<Rightarrow> bytes" where
  "enc_request q = le 4 (rq_magic q) @ le 4 (rq_type q) @ le 8 (rq_handle q) @ le 8 (rq_from q) @ le 4 (rq_len q)"

definition dec_request :: "bytes \<Rightarrow> nbd_request" where
  "dec_request b = \<lparr>rq_magic = un_le (take 4 b), rq_type = un_le (take 4 (drop 4 b)),
     rq_handle = un_le (take 8 (drop 8 b)), rq_from = un_le (take 8 (drop 16 b)), rq_len = un_le (take 4 (drop 24 b))\<rparr>"

definition enc_reply :: "nbd_reply \<Rightarrow> bytes" where
  "enc_reply r = le 4 (rp_magic r) @ le 4 (rp_error r) @ le 8 (rp_handle r)"

definition dec_reply :: "bytes \<Rightarrow> nbd_reply" where
  "dec_reply b = \<lparr>rp_magic = un_le (take 4 b), rp_error = un_le (take 4 (drop 4 b)), rp_handle = un_le (take 8 (drop 8 b))\<rparr>"

section \<open>The client side\<close>

definition nbd_client_send_request_header :: "sock \<Rightarrow> u32 \<Rightarrow> int \<Rightarrow> u64 \<Rightarrow> u64 \<Rightarrow> stop + int \<times> sock" where
  "nbd_client_send_request_header remotefd iotype iofrom len handle =
     bindE (assertE ''len <= UINT32_MAX'' (len \<le> 0xFFFFFFFF)) (\<lambda>_.
     bindE (assertE ''iofrom + len <= OFF_MAX'' (word_of_int iofrom + len \<le> 0x7FFFFFFFFFFFFFFF)) (\<lambda>_.
     bindE (assertE ''iofrom >= 0'' (iofrom \<ge> 0)) (\<lambda>_.
       let request = \<lparr>rq_magic = htonl NBD_REQUEST_MAGIC, rq_type = htonl iotype, rq_handle = htonll handle,
                      rq_from = htonll (word_of_int iofrom), rq_len = htonl (ucast len)\<rparr>
       in case net_send_all remotefd (enc_request request) 0 of (ret, s, _) \<Rightarrow>
            if ret < 28 then Inr (-1, s) else Inr (0, s))))"

definition nbd_client_recv_reply_header :: "sock \<Rightarrow> u64 \<Rightarrow> int \<times> sock" where
  "nbd_client_recv_reply_header remotefd handle =
     (case net_recv_all_or_error remotefd (replicate 16 0) 0 of (ret, b, s, _) \<Rightarrow>
        let reply = dec_reply b in
        if ret < 0 then (- int EPIPE, s)
        else if ntohl (rp_magic reply) \<noteq> NBD_REPLY_MAGIC then (- int EPIPE, s)
        else if rp_handle reply \<noteq> ntohll handle then (- int EPIPE, s)
        else let error = ntohl (rp_error reply) in
          if error \<noteq> 0 then (int32 (uint (- error)), s) else (0, s))"

definition nbd_client_recv_read_reply_iov :: "mem \<Rightarrow> sock \<Rightarrow> iovec list \<Rightarrow> u64 \<Rightarrow> int \<times> mem \<times> sock" where
  "nbd_client_recv_read_reply_iov m remotefd iov handle =
     (case nbd_client_recv_reply_header remotefd handle of (ret, s) \<Rightarrow>
        if ret < 0 then (- int EPIPE, m, s)
        else case net_readv_all_or_error m s iov 0 of (ret', m', s', _) \<Rightarrow>
          if ret' < 0 then (- int EPIPE, m', s') else (0, m', s'))"

definition myhandle :: u64 where "myhandle = - 1"

definition nbd_client_send_read_request :: "sock \<Rightarrow> int \<Rightarrow> u64 \<Rightarrow> stop + int \<times> sock" where
  "nbd_client_send_read_request remotefd iofrom len =
     nbd_client_send_request_header remotefd NBD_CMD_READ iofrom len myhandle"

text \<open>The buffer is at \<open>buf\<close> in \<open>m\<close>; NULL is \<^const>\<open>None\<close>.\<close>

definition nbd_client_recv_read_reply :: "mem \<Rightarrow> sock \<Rightarrow> int option \<Rightarrow> u64 \<Rightarrow> stop + int \<times> mem \<times> sock" where
  "nbd_client_recv_read_reply m remotefd buf len =
     (case buf of None \<Rightarrow> Inl (Assert ''buf'') | Some a \<Rightarrow>
       bindE (assertE ''len <= UINT32_MAX'' (len \<le> 0xFFFFFFFF)) (\<lambda>_.
         Inr (nbd_client_recv_read_reply_iov m remotefd [\<lparr>iov_base = a, iov_len = unat len\<rparr>] myhandle)))"

definition nbd_client_send_disc_request :: "sock \<Rightarrow> sock" where
  "nbd_client_send_disc_request remotefd =
     (let request = \<lparr>rq_magic = htonl NBD_REQUEST_MAGIC, rq_type = htonl NBD_CMD_DISC, rq_handle = 0,
                     rq_from = 0, rq_len = 0\<rparr>
      in case net_send_all remotefd (enc_request request) 0 of (_, s, _) \<Rightarrow> s)"

section \<open>The server side of a request\<close>

abbreviation (input) NBD_SERVER_RECV__BAD_REQUEST :: int where "NBD_SERVER_RECV__BAD_REQUEST \<equiv> -1"
abbreviation (input) NBD_SERVER_RECV__MAGIC_MISMATCH :: int where "NBD_SERVER_RECV__MAGIC_MISMATCH \<equiv> -2"
abbreviation (input) NBD_SERVER_RECV__TERMINATE :: int where "NBD_SERVER_RECV__TERMINATE \<equiv> -3"

text \<open>
  The out parameters: \<open>*iotype_arg\<close>, \<open>*iofrom_arg\<close>, \<open>*iolen_arg\<close> and \<open>*reply\<close>. What the function
  does not assign keeps its value.
\<close>

record request_out =
  iotype_arg :: u32
  iofrom_arg :: int
  iolen_arg :: u64
  reply_arg :: nbd_reply

definition nbd_server_recv_request :: "sock \<Rightarrow> int \<Rightarrow> request_out \<Rightarrow> int \<times> request_out \<times> sock" where
  "nbd_server_recv_request clientfd disksize out =
     (case net_recv_all_or_error clientfd (replicate 28 0) 0 of (ret, b, s, _) \<Rightarrow>
        let request = dec_request b;
            magic = ntohl (rq_magic request);
            iotype = ntohl (rq_type request);
            iofrom = ntohll (rq_from request);
            iolen = ntohl (rq_len request)
        in
        if ret < 0 then (NBD_SERVER_RECV__TERMINATE, out, s)
        else if magic \<noteq> NBD_REQUEST_MAGIC then (NBD_SERVER_RECV__MAGIC_MISMATCH, out, s)
        else if iotype = NBD_CMD_DISC then (NBD_SERVER_RECV__TERMINATE, out, s)
        else
          let out' = out\<lparr>reply_arg := (reply_arg out)\<lparr>rp_handle := rq_handle request\<rparr>\<rparr>;
              bad = out'\<lparr>reply_arg := (reply_arg out')\<lparr>rp_error := htonl (of_nat EINVAL)\<rparr>\<rparr>
          in
          if iotype = NBD_CMD_FLUSH \<and> \<not> (iofrom = 0 \<and> iolen = 0) then (NBD_SERVER_RECV__BAD_REQUEST, bad, s)
          else if iofrom + ucast iolen > word_of_int disksize then (NBD_SERVER_RECV__BAD_REQUEST, bad, s)
          else (0, out'\<lparr>iotype_arg := iotype, iofrom_arg := sint iofrom, iolen_arg := ucast iolen\<rparr>, s))"

section \<open>Negotiation\<close>

definition NBD_PASSWD :: u64 where "NBD_PASSWD = 0x4e42444d41474943"
definition NBD_NEGOTIATE_VERSION1_MAGIC :: u64 where "NBD_NEGOTIATE_VERSION1_MAGIC = 0x0000420281861253"
definition NBD_NEGOTIATE_VERSION2_MAGIC :: u64 where "NBD_NEGOTIATE_VERSION2_MAGIC = 0x49484156454F5054"

abbreviation (input) NBD_NEGOTIATE_VERSION2_OPT_EXPORT_NAME :: u32 where "NBD_NEGOTIATE_VERSION2_OPT_EXPORT_NAME \<equiv> 1"
abbreviation (input) XNBD_EXPORT_NAME_MAXLEN :: u32 where "XNBD_EXPORT_NAME_MAXLEN \<equiv> 256"

record v2_pdu_type0 =
  p0_passwd :: u64
  p0_magic :: u64
  p0_hs_flags16 :: u16

record v2_pdu_type1 =
  p1_reserved :: u32
  p1_opt_magic :: u64
  p1_opt :: u32
  p1_namesize :: u32

record v2_pdu_type2 =
  p2_size :: u64
  p2_tm_flags16 :: u16

record v1_pdu =
  v1_passwd :: u64
  v1_magic :: u64
  v1_size :: u64
  v1_flags :: u32

definition enc_pdu0 :: "v2_pdu_type0 \<Rightarrow> bytes" where
  "enc_pdu0 p = le 8 (p0_passwd p) @ le 8 (p0_magic p) @ le 2 (p0_hs_flags16 p)"

definition dec_pdu0 :: "bytes \<Rightarrow> v2_pdu_type0" where
  "dec_pdu0 b = \<lparr>p0_passwd = un_le (take 8 b), p0_magic = un_le (take 8 (drop 8 b)), p0_hs_flags16 = un_le (take 2 (drop 16 b))\<rparr>"

definition enc_pdu1 :: "v2_pdu_type1 \<Rightarrow> bytes" where
  "enc_pdu1 p = le 4 (p1_reserved p) @ le 8 (p1_opt_magic p) @ le 4 (p1_opt p) @ le 4 (p1_namesize p)"

definition dec_pdu1 :: "bytes \<Rightarrow> v2_pdu_type1" where
  "dec_pdu1 b = \<lparr>p1_reserved = un_le (take 4 b), p1_opt_magic = un_le (take 8 (drop 4 b)),
     p1_opt = un_le (take 4 (drop 12 b)), p1_namesize = un_le (take 4 (drop 16 b))\<rparr>"

text \<open>The last two structures end in \<open>char padding[124]\<close>, cleared by \<open>memset\<close>.\<close>

definition enc_pdu2 :: "v2_pdu_type2 \<Rightarrow> bytes" where
  "enc_pdu2 p = le 8 (p2_size p) @ le 2 (p2_tm_flags16 p) @ replicate 124 0"

definition dec_pdu2 :: "bytes \<Rightarrow> v2_pdu_type2" where
  "dec_pdu2 b = \<lparr>p2_size = un_le (take 8 b), p2_tm_flags16 = un_le (take 2 (drop 8 b))\<rparr>"

definition enc_v1 :: "v1_pdu \<Rightarrow> bytes" where
  "enc_v1 p = le 8 (v1_passwd p) @ le 8 (v1_magic p) @ le 8 (v1_size p) @ le 4 (v1_flags p) @ replicate 124 0"

definition dec_v1 :: "bytes \<Rightarrow> v1_pdu" where
  "dec_v1 b = \<lparr>v1_passwd = un_le (take 8 b), v1_magic = un_le (take 8 (drop 8 b)),
     v1_size = un_le (take 8 (drop 16 b)), v1_flags = un_le (take 4 (drop 24 b))\<rparr>"

text \<open>The transmission flags: has-flags and send-flush, and read-only if so exported.\<close>

definition NBD_FLAG_HAS_FLAGS :: "'a::len word" where "NBD_FLAG_HAS_FLAGS = push_bit 0 1"
definition NBD_FLAG_READ_ONLY :: "'a::len word" where "NBD_FLAG_READ_ONLY = push_bit 1 1"
definition NBD_FLAG_SEND_FLUSH :: "'a::len word" where "NBD_FLAG_SEND_FLUSH = push_bit 2 1"

definition export_flags :: "bool \<Rightarrow> 'a::len word" where
  "export_flags readonly =
     (let flags = or NBD_FLAG_HAS_FLAGS NBD_FLAG_SEND_FLUSH
      in if readonly then or flags NBD_FLAG_READ_ONLY else flags)"

text \<open>A \<open>char *\<close> as the code that prints and compares it sees it: up to the first NUL.\<close>

definition c_str :: "bytes \<Rightarrow> bytes" where
  "c_str b = takeWhile (\<lambda>c. c \<noteq> 0) b"

text \<open>
  \<open>junk\<close> is what the uninitialised \<open>pdu1\<close> held before the receive, whose return value the code
  does not test.
\<close>

definition nbd_negotiate_v2_server_phase0 :: "sock \<Rightarrow> bytes \<Rightarrow> bytes option \<times> sock" where
  "nbd_negotiate_v2_server_phase0 sockfd junk =
     (let pdu0 = \<lparr>p0_passwd = htonll NBD_PASSWD, p0_magic = htonll NBD_NEGOTIATE_VERSION2_MAGIC, p0_hs_flags16 = 0\<rparr>
      in case net_send_all_or_error sockfd (enc_pdu0 pdu0) 0 of (ret, s, _) \<Rightarrow>
      if ret < 0 then (None, s)
      else case net_recv_all_or_error s junk 0 of (_, b, s', _) \<Rightarrow>
        let pdu1 = dec_pdu1 b in
        if ntohll (p1_opt_magic pdu1) \<noteq> NBD_NEGOTIATE_VERSION2_MAGIC \<or>
           ntohl (p1_opt pdu1) \<noteq> NBD_NEGOTIATE_VERSION2_OPT_EXPORT_NAME then (None, s')
        else let namesize = ntohl (p1_namesize pdu1) in
          if namesize > XNBD_EXPORT_NAME_MAXLEN then (None, s')
          else case net_recv_all_or_error s' (replicate (unat namesize) 0) 0 of (ret', name, s'', _) \<Rightarrow>
            if ret' < 0 then (None, s'') else (Some (c_str name), s''))"

definition nbd_negotiate_v2_server_phase1 :: "sock \<Rightarrow> int \<Rightarrow> bool \<Rightarrow> stop + int \<times> sock" where
  "nbd_negotiate_v2_server_phase1 sockfd exportsize readonly =
     bindE (assertE ''exportsize >= 0'' (exportsize \<ge> 0)) (\<lambda>_.
       let pdu2 = \<lparr>p2_size = htonll (word_of_int exportsize), p2_tm_flags16 = htons (export_flags readonly)\<rparr>
       in case net_send_all_or_error sockfd (enc_pdu2 pdu2) 0 of (ret, s, _) \<Rightarrow>
          if ret < 0 then Inr (-1, s) else Inr (0, s))"

text \<open>
  The client sides return the code and, when it is 0, the size and the flags for the caller's
  non-NULL pointers.
\<close>

definition nbd_negotiate_v2_client_side :: "sock \<Rightarrow> u64 \<Rightarrow> bytes \<Rightarrow> bytes \<Rightarrow> bytes \<Rightarrow> int \<times> (int \<times> u32) option \<times> sock" where
  "nbd_negotiate_v2_client_side sockfd namesize target_name junk0 junk2 =
     (case net_recv_all_or_error sockfd junk0 0 of (ret, b, s, _) \<Rightarrow>
      let pdu0 = dec_pdu0 b in
      if ret < 0 then (-1, None, s)
      else if ntohll (p0_passwd pdu0) \<noteq> NBD_PASSWD then (-1, None, s)
      else if ntohll (p0_magic pdu0) = NBD_NEGOTIATE_VERSION1_MAGIC then (-1, None, s)
      else if ntohll (p0_magic pdu0) \<noteq> NBD_NEGOTIATE_VERSION2_MAGIC then (-1, None, s)
      else
        let pdu1 = \<lparr>p1_reserved = 0, p1_opt_magic = htonll NBD_NEGOTIATE_VERSION2_MAGIC,
                    p1_opt = htonl NBD_NEGOTIATE_VERSION2_OPT_EXPORT_NAME, p1_namesize = htonl (ucast namesize)\<rparr>
        in case net_send_all_or_error s (enc_pdu1 pdu1) 0 of (ret1, s1, _) \<Rightarrow>
        if ret1 < 0 then (-1, None, s1)
        else case net_send_all_or_error s1 (take (unat namesize) target_name) 0 of (ret2, s2, _) \<Rightarrow>
        if ret2 < 0 then (-1, None, s2)
        else case net_recv_all_or_error s2 junk2 0 of (ret3, b2, s3, _) \<Rightarrow>
          let pdu2 = dec_pdu2 b2; size = ntohll (p2_size pdu2); tm_flags16 = ntohs (p2_tm_flags16 pdu2) in
          if ret3 < 0 then (-1, None, s3)
          else if size > 0x7FFFFFFFFFFFFFFF then (-1, None, s3)
          else (0, Some (sint size, ucast tm_flags16), s3))"

definition nbd_negotiate_v1_server_side_main :: "sock \<Rightarrow> int \<Rightarrow> bool \<Rightarrow> stop + int \<times> sock" where
  "nbd_negotiate_v1_server_side_main sockfd exportsize readonly =
     bindE (assertE ''exportsize >= 0'' (exportsize \<ge> 0)) (\<lambda>_.
       let pdu = \<lparr>v1_passwd = htonll NBD_PASSWD, v1_magic = htonll NBD_NEGOTIATE_VERSION1_MAGIC,
                  v1_size = htonll (word_of_int exportsize), v1_flags = htonl (export_flags readonly)\<rparr>
       in case net_send_all_or_error sockfd (enc_v1 pdu) 0 of (ret, s, _) \<Rightarrow>
          if ret < 0 then Inr (-1, s) else Inr (0, s))"

definition nbd_negotiate_v1_server_side_readonly :: "sock \<Rightarrow> int \<Rightarrow> stop + int \<times> sock" where
  "nbd_negotiate_v1_server_side_readonly sockfd exportsize = nbd_negotiate_v1_server_side_main sockfd exportsize True"

definition nbd_negotiate_v1_server_side :: "sock \<Rightarrow> int \<Rightarrow> stop + int \<times> sock" where
  "nbd_negotiate_v1_server_side sockfd exportsize = nbd_negotiate_v1_server_side_main sockfd exportsize False"

definition nbd_negotiate_v1_client_side :: "sock \<Rightarrow> bytes \<Rightarrow> int \<times> (int \<times> u32) option \<times> sock" where
  "nbd_negotiate_v1_client_side sockfd junk =
     (case net_recv_all_or_error sockfd (take 16 junk) 0 of (ret, b, s, _) \<Rightarrow>
      let pdu = dec_v1 (b @ drop 16 junk) in
      if ret < 0 then (-1, None, s)
      else if ntohll (v1_passwd pdu) \<noteq> NBD_PASSWD then (-1, None, s)
      else if ntohll (v1_magic pdu) = NBD_NEGOTIATE_VERSION2_MAGIC then (-1, None, s)
      else if ntohll (v1_magic pdu) \<noteq> NBD_NEGOTIATE_VERSION1_MAGIC then (-1, None, s)
      else case net_recv_all_or_error s (drop 16 junk) 0 of (ret', b', s', _) \<Rightarrow>
        let pdu' = dec_v1 (b @ b'); size = ntohll (v1_size pdu'); flags = ntohl (v1_flags pdu') in
        if ret' < 0 then (-1, None, s')
        else if size > 0x7FFFFFFFFFFFFFFF then (-1, None, s')
        else (0, Some (sint size, flags), s'))"

section \<open>Layouts\<close>

lemma length_enc [simp]:
  "length (enc_request q) = 28" "length (enc_reply r) = 16" "length (enc_pdu0 p0) = 18"
  "length (enc_pdu1 p1) = 20" "length (enc_pdu2 p2) = 134" "length (enc_v1 p) = 152"
  by (simp_all add: enc_request_def enc_reply_def enc_pdu0_def enc_pdu1_def enc_pdu2_def enc_v1_def)

lemma dec_enc [simp]:
  "dec_request (enc_request q) = q" "dec_reply (enc_reply r) = r" "dec_pdu0 (enc_pdu0 p0) = p0"
  "dec_pdu1 (enc_pdu1 p1) = p1" "dec_pdu2 (enc_pdu2 p2) = p2" "dec_v1 (enc_v1 p) = p"
  by (simp_all add: dec_request_def enc_request_def dec_reply_def enc_reply_def dec_pdu0_def enc_pdu0_def
    dec_pdu1_def enc_pdu1_def dec_pdu2_def enc_pdu2_def dec_v1_def enc_v1_def)

lemma enc_dec_request: "length b = 28 \<Longrightarrow> enc_request (dec_request b) = b"
proof -
  assume b: "length b = 28"
  have "b = take 4 b @ take 4 (drop 4 b) @ take 8 (drop 8 b) @ take 8 (drop 16 b) @ take 4 (drop 24 b)"
    using b append_take_drop_id[of 4 b] append_take_drop_id[of 4 "drop 4 b"] append_take_drop_id[of 8 "drop 8 b"]
      append_take_drop_id[of 8 "drop 16 b"] by simp
  with b show ?thesis by (simp add: enc_request_def dec_request_def le_un_le)
qed

section \<open>Headers on the wire\<close>

lemma send_request_header_ok:
  assumes "writable s" and "len \<le> 0xFFFFFFFF" and "0 \<le> iofrom" and "iofrom + uint len \<le> 0x7FFFFFFFFFFFFFFF"
  shows "\<exists>s'. nbd_client_send_request_header s iotype iofrom len handle = Inr (0, s') \<and> writable s' \<and>
    rx_part s' = rx_part s \<and>
    tx s' = tx s @ enc_request \<lparr>rq_magic = htonl NBD_REQUEST_MAGIC, rq_type = htonl iotype, rq_handle = htonll handle,
      rq_from = htonll (word_of_int iofrom), rq_len = htonl (ucast len)\<rparr>"
proof -
  have "word_of_int iofrom + len = (word_of_int (iofrom + uint len) :: u64)" by simp
  then have "uint (word_of_int iofrom + len) = iofrom + uint len"
    using assms uint_ge_0[of len] by (simp add: uint_word_of_int del: of_int_add)
  then have "word_of_int iofrom + len \<le> 0x7FFFFFFFFFFFFFFF" using assms(4) by (simp add: word_le_def)
  with assms(2,3) net_out_raw.send_full[OF assms(1), of "enc_request \<lparr>rq_magic = htonl NBD_REQUEST_MAGIC,
      rq_type = htonl iotype, rq_handle = htonll handle, rq_from = htonll (word_of_int iofrom), rq_len = htonl (ucast len)\<rparr>" 0]
  show ?thesis by (auto simp: nbd_client_send_request_header_def Let_def)
qed

text \<open>What the server makes of a complete header.\<close>

lemma recv_request_full:
  assumes "wf_sock s" and "pending s = enc_request q @ rest"
  obtains s' where "wf_sock s'" and "pending s' = rest" and "tx_part s' = tx_part s"
    and "\<And>disksize out. nbd_server_recv_request s disksize out =
      (if ntohl (rq_magic q) \<noteq> NBD_REQUEST_MAGIC then (-2, out, s')
       else if ntohl (rq_type q) = NBD_CMD_DISC then (-3, out, s')
       else let out' = out\<lparr>reply_arg := (reply_arg out)\<lparr>rp_handle := rq_handle q\<rparr>\<rparr>;
              bad = out'\<lparr>reply_arg := (reply_arg out')\<lparr>rp_error := htonl (of_nat EINVAL)\<rparr>\<rparr>
            in if ntohl (rq_type q) = NBD_CMD_FLUSH \<and> \<not> (ntohll (rq_from q) = 0 \<and> ntohl (rq_len q) = 0) then (-1, bad, s')
               else if ntohll (rq_from q) + ucast (ntohl (rq_len q)) > word_of_int disksize then (-1, bad, s')
               else (0, out'\<lparr>iotype_arg := ntohl (rq_type q), iofrom_arg := sint (ntohll (rq_from q)),
                        iolen_arg := ucast (ntohl (rq_len q))\<rparr>, s'))"
proof -
  obtain s' where r: "net_recv_all_or_error s (replicate 28 0) 0 = (28, enc_request q, s', 0)"
    and s': "wf_sock s'" "pending s' = rest" "tx_part s' = tx_part s"
    using net_in.recv_struct[OF assms, of "replicate 28 0" 0] by auto
  show thesis by (rule that[OF s']) (auto simp: nbd_server_recv_request_def r Let_def)
qed

lemma recv_disc:
  assumes "wf_sock s" and "pending s = enc_request \<lparr>rq_magic = htonl NBD_REQUEST_MAGIC, rq_type = htonl NBD_CMD_DISC, rq_handle = h,
      rq_from = f, rq_len = l\<rparr> @ rest"
  shows "\<exists>s'. nbd_server_recv_request s disksize out = (NBD_SERVER_RECV__TERMINATE, out, s') \<and> pending s' = rest \<and> tx_part s' = tx_part s"
  by (rule recv_request_full[OF assms]) auto

lemma recv_request_short:
  assumes "wf_sock s" and "length (pending s) < 28"
  shows "\<exists>s'. nbd_server_recv_request s disksize out = (NBD_SERVER_RECV__TERMINATE, out, s')"
  using net_in.recv_short[OF assms(1), of "replicate 28 0" 0] assms(2)
  by (auto simp: nbd_server_recv_request_def Let_def split: prod.splits)

lemma recv_reply_header_full:
  assumes "wf_sock s" and "pending s = enc_reply r @ rest"
  shows "\<exists>s'. wf_sock s' \<and> pending s' = rest \<and> tx_part s' = tx_part s \<and>
    nbd_client_recv_reply_header s handle =
     (if ntohl (rp_magic r) \<noteq> NBD_REPLY_MAGIC \<or> rp_handle r \<noteq> ntohll handle then (- 32, s')
      else if ntohl (rp_error r) \<noteq> 0 then (int32 (uint (- ntohl (rp_error r))), s') else (0, s'))"
proof -
  obtain s' where r: "net_recv_all_or_error s (replicate 16 0) 0 = (16, enc_reply r, s', 0)"
    and s': "wf_sock s'" "pending s' = rest" "tx_part s' = tx_part s"
    using net_in.recv_struct[OF assms, of "replicate 16 0" 0] by auto
  then show ?thesis by (intro exI[of _ s']) (simp add: nbd_client_recv_reply_header_def Let_def)
qed

lemma sint_of_small: "0 \<le> k \<Longrightarrow> k \<le> 0x7FFFFFFFFFFFFFFF \<Longrightarrow> sint (word_of_int k :: u64) = k"
  by (simp add: sint_uint uint_word_of_int signed_take_bit_int_eq_self)

lemma uint_of_sint: "0 \<le> sint (w :: u64) \<Longrightarrow> uint w = sint w \<and> uint w \<le> 0x7FFFFFFFFFFFFFFF"
  using sint_range_size[of w] by (simp add: word_size uint_sint take_bit_int_eq_self)

lemma ucast_ucast_u32: "(len :: u64) \<le> 0xFFFFFFFF \<Longrightarrow> ucast (ucast len :: u32) = len"
proof -
  assume "len \<le> 0xFFFFFFFF"
  then have "uint len < 2 ^ 32" by (simp add: word_le_def)
  then show ?thesis by (intro word_uint_eqI) (simp add: unsigned_ucast_eq unsigned_take_bit_eq take_bit_int_eq_self)
qed

text \<open>A header for a range inside the disk is accepted as it is.\<close>

lemma recv_request_accept:
  assumes "wf_sock s" and "0 \<le> iofrom" and "iofrom + uint len \<le> disksize"
    and "disksize \<le> 0x7FFFFFFFFFFFFFFF" and "len \<le> 0xFFFFFFFF" and "iotype \<noteq> NBD_CMD_DISC"
    and "iotype = NBD_CMD_FLUSH \<longrightarrow> iofrom = 0 \<and> len = 0"
    and "pending s = enc_request \<lparr>rq_magic = htonl NBD_REQUEST_MAGIC, rq_type = htonl iotype, rq_handle = h,
      rq_from = htonll (word_of_int iofrom), rq_len = htonl (ucast len)\<rparr> @ rest"
  shows "\<exists>s'. nbd_server_recv_request s disksize out =
      (0, \<lparr>iotype_arg = iotype, iofrom_arg = iofrom, iolen_arg = len, reply_arg = (reply_arg out)\<lparr>rp_handle := h\<rparr>\<rparr>, s') \<and>
    wf_sock s' \<and> pending s' = rest \<and> tx_part s' = tx_part s"
proof (rule recv_request_full[OF assms(1,8)], goal_cases)
  case (1 s')
  have sum: "word_of_int iofrom + len = (word_of_int (iofrom + uint len) :: u64)" by simp
  have "uint (word_of_int disksize :: u64) = disksize"
    using assms(2,3,4) uint_ge_0[of len] by (intro uint_word_of_int_u64) linarith+
  then have "\<not> word_of_int iofrom + len > (word_of_int disksize :: u64)"
    unfolding sum using assms(2,3,4) uint_ge_0[of len] uint_word_of_int_u64[of "iofrom + uint len"]
    by (simp add: not_less word_le_def del: of_int_add)
  moreover have "sint (word_of_int iofrom :: u64) = iofrom"
    using assms(2,3,4) uint_ge_0[of len] by (intro sint_of_small) linarith+
  ultimately show ?case using 1 assms(6,7)
    by (intro exI[of _ s']) (auto simp: Let_def ucast_ucast_u32[OF assms(5)])
qed

text \<open>
  C13. A request a client sends for a range inside the disk reaches the server unchanged, however
  the stream is cut: the server accepts it with the same type, offset and length, keeps the handle for
  the reply, and has consumed exactly the header.
\<close>

theorem request_roundtrip:
  assumes "writable c" and "wf_sock s" and "0 \<le> iofrom" and "iofrom + uint len \<le> disksize"
    and "disksize \<le> 0x7FFFFFFFFFFFFFFF" and "len \<le> 0xFFFFFFFF" and "iotype \<noteq> NBD_CMD_DISC"
    and "iotype = NBD_CMD_FLUSH \<longrightarrow> iofrom = 0 \<and> len = 0"
  shows "\<exists>c' sent. nbd_client_send_request_header c iotype iofrom len handle = Inr (0, c') \<and> tx c' = tx c @ sent \<and>
    (pending s = sent @ rest \<longrightarrow>
      (\<exists>s'. nbd_server_recv_request s disksize out =
         (0, \<lparr>iotype_arg = iotype, iofrom_arg = iofrom, iolen_arg = len, reply_arg = (reply_arg out)\<lparr>rp_handle := htonll handle\<rparr>\<rparr>, s') \<and>
         wf_sock s' \<and> pending s' = rest \<and> tx_part s' = tx_part s))"
proof -
  obtain c' where "nbd_client_send_request_header c iotype iofrom len handle = Inr (0, c')"
    "tx c' = tx c @ enc_request \<lparr>rq_magic = htonl NBD_REQUEST_MAGIC, rq_type = htonl iotype, rq_handle = htonll handle,
      rq_from = htonll (word_of_int iofrom), rq_len = htonl (ucast len)\<rparr>"
    using send_request_header_ok[OF assms(1,6,3)] assms(4,5) by auto
  with recv_request_accept[OF assms(2-8)] show ?thesis by blast
qed

theorem request_roundtrip_witness:
  "\<exists>c' sent. nbd_client_send_request_header \<lparr>rx = [], rx_end = None, tx = [], tx_plan = [Inr 3]\<rparr> NBD_CMD_READ 512 1024 7 = Inr (0, c') \<and>
     tx c' = sent"
  using request_roundtrip[of "\<lparr>rx = [], rx_end = None, tx = [], tx_plan = [Inr 3]\<rparr>" "\<lparr>rx = [], rx_end = None, tx = [], tx_plan = []\<rparr>"
    512 1024 4096 NBD_CMD_READ 7 "[]"]
  by (auto simp: writable_def wf_sock_def)

lemma split_request:
  assumes "28 \<le> length bs"
  obtains q rest where "bs = enc_request q @ rest"
  using that[of "dec_request (take 28 bs)" "drop 28 bs"] assms by (simp add: enc_dec_request)

text \<open>
  C14. The server accepts a request (returns 0) only if it is not a disconnect, a flush has offset and
  length zero, and, for an offset that is not negative as an \<open>off_t\<close>, the whole range lies inside the disk.
\<close>

theorem accepted_request_in_disk:
  assumes "wf_sock s" and "0 \<le> disksize" and "disksize \<le> 0x7FFFFFFFFFFFFFFF"
    and "nbd_server_recv_request s disksize out = (0, q, s')" and "0 \<le> iofrom_arg q"
  shows "iofrom_arg q + uint (iolen_arg q) \<le> disksize \<and> iotype_arg q \<noteq> NBD_CMD_DISC \<and> uint (iolen_arg q) \<le> 0xFFFFFFFF \<and>
    (iotype_arg q = NBD_CMD_FLUSH \<longrightarrow> iofrom_arg q = 0 \<and> iolen_arg q = 0)"
proof -
  have "28 \<le> length (pending s)"
    using recv_request_short[OF assms(1), of disksize out] assms(4) by fastforce
  then obtain p rest where p: "pending s = enc_request p @ rest" by (rule split_request)
  let ?f = "ntohll (rq_from p)" and ?l = "ntohl (rq_len p)"
  obtain t where "q = out\<lparr>reply_arg := t, iotype_arg := ntohl (rq_type p), iofrom_arg := sint ?f, iolen_arg := ucast ?l\<rparr>"
    and ok: "ntohl (rq_type p) \<noteq> 2" "ntohl (rq_type p) = 3 \<longrightarrow> ?f = 0 \<and> ?l = 0" "\<not> ?f + ucast ?l > word_of_int disksize"
    by (rule recv_request_full[OF assms(1) p]) (use assms(4) in \<open>auto simp: Let_def split: if_splits\<close>)
  then have q: "iofrom_arg q = sint ?f" "iolen_arg q = ucast ?l" "iotype_arg q = ntohl (rq_type p)" by simp_all
  have l: "uint (ucast ?l :: u64) = uint ?l" "uint ?l \<le> 0xFFFFFFFF"
    using uint_bounded[of ?l] by (simp_all add: unsigned_ucast_eq take_bit_int_eq_self)
  have f: "uint ?f = sint ?f" "uint ?f \<le> 0x7FFFFFFFFFFFFFFF"
    using assms(5) q uint_of_sint[of ?f] by simp_all
  have "uint (?f + ucast ?l) = uint ?f + uint ?l"
    using f l uint_ge_0[of ?f] uint_ge_0[of ?l] by (simp add: uint_word_ariths)
  moreover have "uint (?f + ucast ?l) \<le> disksize"
    using ok(3) assms(2,3) uint_word_of_int_u64[of disksize] by (simp add: not_less word_le_def)
  ultimately show ?thesis using q f l ok by auto
qed

definition req_sock :: "nbd_request \<Rightarrow> sock" where
  "req_sock q = \<lparr>rx = [take 10 (enc_request q), drop 10 (enc_request q)], rx_end = None, tx = [], tx_plan = []\<rparr>"

lemma req_sock: "wf_sock (req_sock q)" "pending (req_sock q) = enc_request q @ []"
proof -
  have "length (take 10 (enc_request q)) = 10" "length (drop 10 (enc_request q)) = 18" by simp_all
  then have "take 10 (enc_request q) \<noteq> []" "drop 10 (enc_request q) \<noteq> []" by (metis list.size(3) zero_neq_numeral)+
  then show "wf_sock (req_sock q)" by (simp add: wf_sock_def req_sock_def)
qed (simp add: pending_def req_sock_def)

theorem accepted_request_in_disk_witness:
  "\<exists>q s'. nbd_server_recv_request (req_sock \<lparr>rq_magic = htonl NBD_REQUEST_MAGIC, rq_type = htonl NBD_CMD_READ, rq_handle = 0,
       rq_from = htonll 4096, rq_len = htonl 512\<rparr>) 8192 \<lparr>iotype_arg = 0, iofrom_arg = 0, iolen_arg = 0, reply_arg = dec_reply []\<rparr> = (0, q, s') \<and>
     iofrom_arg q + uint (iolen_arg q) \<le> 8192"
proof -
  let ?q = "\<lparr>rq_magic = htonl NBD_REQUEST_MAGIC, rq_type = htonl NBD_CMD_READ, rq_handle = 0,
       rq_from = htonll 4096, rq_len = htonl 512\<rparr>"
  let ?out = "\<lparr>iotype_arg = 0, iofrom_arg = 0, iolen_arg = 0, reply_arg = dec_reply []\<rparr>"
  have "\<exists>q s'. nbd_server_recv_request (req_sock ?q) 8192 ?out = (0, q, s') \<and> 0 \<le> iofrom_arg q"
  proof (rule recv_request_full[OF req_sock[of ?q]], goal_cases)
    case (1 s')
    then show ?case by (simp add: 1(4) Let_def)
  qed
  then obtain q s' where r: "nbd_server_recv_request (req_sock ?q) 8192 ?out = (0, q, s')" and f: "0 \<le> iofrom_arg q" by blast
  from accepted_request_in_disk[OF req_sock(1) _ _ r f] r show ?thesis by auto
qed

text \<open>
  The bounds test is done modulo \<open>2 ^ 64\<close>: a request whose offset is \<open>k\<close> bytes below zero and
  whose length carries it back over zero is accepted, with a negative offset.
\<close>

lemma wrapped_request_accepted:
  assumes "wf_sock s" and "0 < k" and "k \<le> uint len" and "uint len - k \<le> disksize" and "disksize \<le> 0x7FFFFFFFFFFFFFFF"
    and "pending s = enc_request \<lparr>rq_magic = htonl NBD_REQUEST_MAGIC, rq_type = htonl NBD_CMD_WRITE, rq_handle = h,
       rq_from = htonll (word_of_int (- k)), rq_len = htonl len\<rparr> @ rest"
  shows "\<exists>q s'. nbd_server_recv_request s disksize out = (0, q, s') \<and> iofrom_arg q = - k \<and> iolen_arg q = ucast len"
proof (rule recv_request_full[OF assms(1,6)], goal_cases)
  case (1 s')
  have len: "uint (ucast len :: u64) = uint len" "uint len < 4294967296"
    using uint_bounded[of len] by (simp_all add: unsigned_ucast_eq take_bit_int_eq_self)
  have "word_of_int (- k) + ucast len = (word_of_int (uint len - k) :: u64)"
    using len(1) by (metis add.commute diff_conv_add_uminus of_int_add word_of_int_uint)
  then have "uint (word_of_int (- k) + ucast len :: u64) = uint len - k"
    using assms(2,3) len uint_word_of_int_u64[of "uint len - k"] by simp
  then have "\<not> word_of_int (- k) + ucast len > (word_of_int disksize :: u64)"
    using assms(3,4,5) uint_word_of_int_u64[of disksize] by (simp add: not_less word_le_def)
  moreover have "sint (word_of_int (- k) :: u64) = - k"
    using assms(2,3) len by (simp add: sint_sbintrunc' signed_take_bit_int_eq_self del: of_int_minus)
  ultimately show ?case by (simp add: 1(4) Let_def)
qed

lemma wrapped_request_accepted_witness:
  "\<exists>q s'. nbd_server_recv_request (req_sock \<lparr>rq_magic = htonl NBD_REQUEST_MAGIC, rq_type = htonl NBD_CMD_WRITE, rq_handle = 0,
       rq_from = htonll (word_of_int (- 4096)), rq_len = htonl 4096\<rparr>) 8192 \<lparr>iotype_arg = 0, iofrom_arg = 0, iolen_arg = 0,
       reply_arg = dec_reply []\<rparr> = (0, q, s') \<and> iofrom_arg q = - 4096"
  using wrapped_request_accepted[OF req_sock(1) _ _ _ _ req_sock(2), of 4096 4096 8192 0
    "\<lparr>iotype_arg = 0, iofrom_arg = 0, iolen_arg = 0, reply_arg = dec_reply []\<rparr>"] by auto

text \<open>
  A bad request is classified by what is wrong with it. A truncated header or a disconnect
  ends the session, a wrong magic number is a protocol violation, and a flush with a range or a range
  beyond the disk gets the error EINVAL under the handle of the request, with the header consumed.
\<close>

lemma bad_request_classified:
  assumes "wf_sock s" and "pending s = enc_request q @ rest"
  shows "\<exists>s'. pending s' = rest \<and> tx_part s' = tx_part s \<and>
    (ntohl (rq_magic q) \<noteq> NBD_REQUEST_MAGIC \<longrightarrow>
      nbd_server_recv_request s disksize out = (NBD_SERVER_RECV__MAGIC_MISMATCH, out, s')) \<and>
    (ntohl (rq_magic q) = NBD_REQUEST_MAGIC \<and> ntohl (rq_type q) = NBD_CMD_DISC \<longrightarrow>
      nbd_server_recv_request s disksize out = (NBD_SERVER_RECV__TERMINATE, out, s')) \<and>
    (ntohl (rq_magic q) = NBD_REQUEST_MAGIC \<and> ntohl (rq_type q) \<noteq> NBD_CMD_DISC \<and>
       (word_of_int disksize < ntohll (rq_from q) + ucast (ntohl (rq_len q)) \<or>
        ntohl (rq_type q) = NBD_CMD_FLUSH \<and> (ntohll (rq_from q) \<noteq> 0 \<or> ntohl (rq_len q) \<noteq> 0)) \<longrightarrow>
      nbd_server_recv_request s disksize out = (NBD_SERVER_RECV__BAD_REQUEST,
        out\<lparr>reply_arg := (reply_arg out)\<lparr>rp_handle := rq_handle q, rp_error := htonl 22\<rparr>\<rparr>, s'))"
  by (rule recv_request_full[OF assms]) (auto simp: Let_def)

lemma bad_request_classified_witness:
  "\<exists>s'. nbd_server_recv_request (req_sock \<lparr>rq_magic = 0, rq_type = 0, rq_handle = 0, rq_from = 0, rq_len = 0\<rparr>) 8192
     \<lparr>iotype_arg = 0, iofrom_arg = 0, iolen_arg = 0, reply_arg = dec_reply []\<rparr> =
     (- 2, \<lparr>iotype_arg = 0, iofrom_arg = 0, iolen_arg = 0, reply_arg = dec_reply []\<rparr>, s')"
proof -
  have "ntohl 0 \<noteq> NBD_REQUEST_MAGIC"
    by (simp add: NBD_REQUEST_MAGIC_def)
  with bad_request_classified[OF req_sock, of "\<lparr>rq_magic = 0, rq_type = 0, rq_handle = 0, rq_from = 0, rq_len = 0\<rparr>" 8192
      "\<lparr>iotype_arg = 0, iofrom_arg = 0, iolen_arg = 0, reply_arg = dec_reply []\<rparr>"]
  show ?thesis by auto
qed

section \<open>Replies\<close>

lemma int32_neg_u32: "e \<noteq> 0 \<Longrightarrow> int32 (uint (- e :: u32)) = (if uint e \<le> 2147483648 then - uint e else 4294967296 - uint e)"
proof -
  assume "e \<noteq> 0"
  then have "uint e \<noteq> 0" by (simp add: uint_0_iff)
  then have "0 < uint e" "uint e < 4294967296" using uint_bounded[of e] uint_ge_0[of e] by (auto simp: less_le)
  moreover have "uint (- e) = (- uint e) mod 4294967296" by (simp add: uint_word_ariths)
  ultimately have "uint (- e) = 4294967296 - uint e" by (simp add: zmod_zminus1_eq_if)
  with \<open>0 < uint e\<close> \<open>uint e < 4294967296\<close> show ?thesis
    by (auto simp: int32_wrap int32_id)
qed

lemma ntohll_htonll: "ntohll = htonll"
  by (simp add: ntohll_def htonll_def)

text \<open>
  The client takes a reply for its request only under the same handle, and then returns 0 for
  success and the negated error code otherwise; but a code above \<open>2 ^ 31\<close> comes out positive, which
  every caller takes for success.
\<close>

lemma reply_header_verdict:
  assumes "wf_sock s"
    and "pending s = enc_reply \<lparr>rp_magic = htonl NBD_REPLY_MAGIC, rp_error = htonl e, rp_handle = htonll h\<rparr> @ rest"
  shows "\<exists>s'. pending s' = rest \<and> tx_part s' = tx_part s \<and> nbd_client_recv_reply_header s handle =
    (if handle \<noteq> h then - int EPIPE else if e = 0 then 0
     else if uint e \<le> 2147483648 then - uint e else 4294967296 - uint e, s')"
proof -
  have "htonll h \<noteq> ntohll handle \<longleftrightarrow> handle \<noteq> h" by (metis hton_ntoh(3) ntohll_htonll)
  with recv_reply_header_full[OF assms, of handle] int32_neg_u32[of e] show ?thesis by auto
qed

lemma reply_header_verdict_witness:
  "\<exists>s'. nbd_client_recv_reply_header \<lparr>rx = [enc_reply \<lparr>rp_magic = htonl NBD_REPLY_MAGIC, rp_error = htonl 5, rp_handle = htonll 9\<rparr>],
     rx_end = None, tx = [], tx_plan = []\<rparr> 9 = (- 5, s')"
proof -
  let ?r = "enc_reply \<lparr>rp_magic = htonl NBD_REPLY_MAGIC, rp_error = htonl 5, rp_handle = htonll 9\<rparr>"
  have "?r \<noteq> []" using length_enc(2) by (metis list.size(3) zero_neq_numeral)
  then show ?thesis
    using reply_header_verdict[of "\<lparr>rx = [?r], rx_end = None, tx = [], tx_plan = []\<rparr>" 5 9 "[]" 9]
    by (auto simp: wf_sock_def pending_def)
qed

section \<open>Both ends of a negotiation\<close>

lemma sint_ntohll: "0 \<le> k \<Longrightarrow> k \<le> 0x7FFFFFFFFFFFFFFF \<Longrightarrow>
    \<not> (word_of_int k :: u64) > 0x7FFFFFFFFFFFFFFF \<and> sint (word_of_int k :: u64) = k"
  using uint_word_of_int_u64[of k] by (simp add: sint_of_small not_less word_le_def)

lemma take_enc_v1: "take 16 (enc_v1 p) = le 8 (v1_passwd p) @ le 8 (v1_magic p)"
  by (simp add: enc_v1_def)

text \<open>
  The old negotiation: what the server sends makes the client accept, learn exactly the
  exported size and flags, and consume exactly the header. The read-only flag tells a read-only export.
\<close>

lemma negotiate_v1_agree:
  assumes "writable srv" and "wf_sock cli" and "0 \<le> exportsize" and "exportsize \<le> 0x7FFFFFFFFFFFFFFF" and "length junk = 152"
  shows "\<exists>srv' sent. nbd_negotiate_v1_server_side_main srv exportsize readonly = Inr (0, srv') \<and> tx srv' = tx srv @ sent \<and>
    (pending cli = sent @ rest \<longrightarrow> (\<exists>cli'. nbd_negotiate_v1_client_side cli junk =
        (0, Some (exportsize, if readonly then 7 else 5), cli') \<and> pending cli' = rest \<and> tx_part cli' = tx_part cli))"
proof -
  let ?p = "\<lparr>v1_passwd = htonll NBD_PASSWD, v1_magic = htonll NBD_NEGOTIATE_VERSION1_MAGIC,
     v1_size = htonll (word_of_int exportsize), v1_flags = htonl (export_flags readonly)\<rparr>"
  obtain srv' where srv': "nbd_negotiate_v1_server_side_main srv exportsize readonly = Inr (0, srv')" "tx srv' = tx srv @ enc_v1 ?p"
    using net_out.send_full[OF assms(1), of "enc_v1 ?p" 0] assms(3)
    by (auto simp: nbd_negotiate_v1_server_side_main_def)
  have "\<exists>cli'. nbd_negotiate_v1_client_side cli junk = (0, Some (exportsize, if readonly then 7 else 5), cli') \<and>
      pending cli' = rest \<and> tx_part cli' = tx_part cli" if p: "pending cli = enc_v1 ?p @ rest"
  proof -
    have "pending cli = take 16 (enc_v1 ?p) @ drop 16 (enc_v1 ?p) @ rest" using p by simp
    from net_in.recv_two[OF assms(2) this, of "take 16 junk" "drop 16 junk" 0] assms(5)
    obtain c1 c2 where c: "net_recv_all_or_error cli (take 16 junk) 0 = (16, take 16 (enc_v1 ?p), c1, 0)"
      "net_recv_all_or_error c1 (drop 16 junk) 0 = (136, drop 16 (enc_v1 ?p), c2, 0)"
      "pending c2 = rest" "tx_part c2 = tx_part cli" by (simp, metis)
    have "v1_passwd (dec_v1 (take 16 (enc_v1 ?p) @ x)) = htonll NBD_PASSWD"
      "v1_magic (dec_v1 (take 16 (enc_v1 ?p) @ x)) = htonll NBD_NEGOTIATE_VERSION1_MAGIC" for x
      by (simp_all add: take_enc_v1 dec_v1_def)
    with c sint_ntohll[OF assms(3,4)] show ?thesis
      by (intro exI[of _ c2]) (simp add: nbd_negotiate_v1_client_side_def Let_def NBD_NEGOTIATE_VERSION1_MAGIC_def
        NBD_NEGOTIATE_VERSION2_MAGIC_def export_flags_def NBD_FLAG_HAS_FLAGS_def NBD_FLAG_SEND_FLUSH_def NBD_FLAG_READ_ONLY_def)
  qed
  with srv' show ?thesis by blast
qed

lemma negotiate_v1_agree_witness:
  "\<exists>srv' sent. nbd_negotiate_v1_server_side_main \<lparr>rx = [], rx_end = None, tx = [], tx_plan = []\<rparr> 4096 True = Inr (0, srv') \<and> tx srv' = sent"
  using negotiate_v1_agree[of "\<lparr>rx = [], rx_end = None, tx = [], tx_plan = []\<rparr>" "\<lparr>rx = [], rx_end = None, tx = [], tx_plan = []\<rparr>"
    4096 "replicate 152 0" True "[]"] by (auto simp: writable_def wf_sock_def)

text \<open>What each side of the new negotiation puts on the wire.\<close>

definition v2_hello :: bytes where
  "v2_hello = enc_pdu0 \<lparr>p0_passwd = htonll NBD_PASSWD, p0_magic = htonll NBD_NEGOTIATE_VERSION2_MAGIC, p0_hs_flags16 = 0\<rparr>"

definition v2_option :: "bytes \<Rightarrow> bytes" where
  "v2_option name = enc_pdu1 \<lparr>p1_reserved = 0, p1_opt_magic = htonll NBD_NEGOTIATE_VERSION2_MAGIC,
     p1_opt = htonl NBD_NEGOTIATE_VERSION2_OPT_EXPORT_NAME, p1_namesize = htonl (of_nat (length name))\<rparr>"

definition v2_export :: "int \<Rightarrow> bool \<Rightarrow> bytes" where
  "v2_export exportsize readonly = enc_pdu2 \<lparr>p2_size = htonll (word_of_int exportsize), p2_tm_flags16 = htons (export_flags readonly)\<rparr>"

lemma length_v2 [simp]: "length v2_hello = 18" "length (v2_option name) = 20" "length (v2_export sz ro) = 134"
  by (simp_all add: v2_hello_def v2_option_def v2_export_def)

lemma v2_fields [wire]:
  "ntohll (p0_passwd (dec_pdu0 v2_hello)) = NBD_PASSWD" "ntohll (p0_magic (dec_pdu0 v2_hello)) = NBD_NEGOTIATE_VERSION2_MAGIC"
  "ntohll (p1_opt_magic (dec_pdu1 (v2_option name))) = NBD_NEGOTIATE_VERSION2_MAGIC" "ntohl (p1_opt (dec_pdu1 (v2_option name))) = 1"
  "ntohl (p1_namesize (dec_pdu1 (v2_option name))) = of_nat (length name)"
  "ntohll (p2_size (dec_pdu2 (v2_export exportsize readonly))) = word_of_int exportsize"
  "ntohs (p2_tm_flags16 (dec_pdu2 (v2_export exportsize readonly))) = export_flags readonly"
  by (simp_all add: v2_hello_def v2_option_def v2_export_def)

lemma v2_magic_not_v1 [simp]: "NBD_NEGOTIATE_VERSION2_MAGIC \<noteq> NBD_NEGOTIATE_VERSION1_MAGIC"
  by (simp add: NBD_NEGOTIATE_VERSION2_MAGIC_def NBD_NEGOTIATE_VERSION1_MAGIC_def)

lemma v2_server_phase0_ok:
  assumes "writable s" and "wf_sock s" and "pending s = v2_option name @ name @ rest" and "length name \<le> 256" and "length junk = 20"
  shows "\<exists>s'. nbd_negotiate_v2_server_phase0 s junk = (Some (c_str name), s') \<and> writable s' \<and> wf_sock s' \<and>
    pending s' = rest \<and> tx s' = tx s @ v2_hello"
proof -
  obtain s1 where s1: "net_send_all_or_error s v2_hello 0 = (18, s1, 0)" "writable s1" "tx s1 = tx s @ v2_hello" "rx_part s1 = rx_part s"
    using net_out.send_full[OF assms(1), of v2_hello 0] by auto
  then have w1: "wf_sock s1" "pending s1 = v2_option name @ name @ rest"
    using assms(2,3) by (simp_all add: wf_sock_def pending_def rx_part_def)
  have n: "unat (of_nat (length name) :: u32) = length name" using assms(4) by (simp add: unat_of_nat)
  obtain s2 s3 where s3: "net_recv_all_or_error s1 junk 0 = (20, v2_option name, s2, 0)"
    "net_recv_all_or_error s2 (replicate (length name) 0) 0 = (int (length name), name, s3, 0)"
    "wf_sock s3" "pending s3 = rest" "tx_part s3 = tx_part s1"
    using net_in.recv_two[OF w1, of junk "replicate (length name) 0" 0] assms(4,5) by (simp, metis)
  have "writable s3" "tx s3 = tx s @ v2_hello" using s1 s3(5) by (simp_all add: writable_def tx_part_def)
  moreover have "\<not> (of_nat (length name) :: u32) > 256" using n assms(4) by (simp add: not_less word_le_nat_alt)
  ultimately show ?thesis using s1 s3 n
    by (intro exI[of _ s3]) (simp add: nbd_negotiate_v2_server_phase0_def v2_hello_def[symmetric] wire)
qed

lemma v2_server_phase1_ok:
  assumes "writable s" and "0 \<le> exportsize"
  shows "\<exists>s'. nbd_negotiate_v2_server_phase1 s exportsize readonly = Inr (0, s') \<and> writable s' \<and>
    rx_part s' = rx_part s \<and> tx s' = tx s @ v2_export exportsize readonly"
  using net_out.send_full[OF assms(1), of "v2_export exportsize readonly" 0] assms(2)
  by (auto simp: nbd_negotiate_v2_server_phase1_def v2_export_def[symmetric])

lemma v2_client_ok:
  assumes "writable c" and "wf_sock c" and "pending c = v2_hello @ v2_export exportsize readonly @ rest"
    and "length name \<le> 256" and "length j0 = 18" and "length j2 = 134" and "0 \<le> exportsize" and "exportsize \<le> 0x7FFFFFFFFFFFFFFF"
  shows "\<exists>c'. nbd_negotiate_v2_client_side c (of_nat (length name)) name j0 j2 = (0, Some (exportsize, if readonly then 7 else 5), c') \<and>
    pending c' = rest \<and> tx c' = tx c @ v2_option name @ name"
proof -
  obtain c1 where c1: "net_recv_all_or_error c j0 0 = (18, v2_hello, c1, 0)" "wf_sock c1"
    "pending c1 = v2_export exportsize readonly @ rest" "tx_part c1 = tx_part c"
    using net_in.recv_struct[OF assms(2,3), of j0 0] assms(5) by auto
  then have w: "writable c1" "tx c1 = tx c" using assms(1) by (simp_all add: writable_def tx_part_def)
  obtain c2 c3 where c3: "net_send_all_or_error c1 (v2_option name) 0 = (20, c2, 0)"
    "net_send_all_or_error c2 name 0 = (int (length name), c3, 0)" "tx c3 = tx c @ v2_option name @ name" "rx_part c3 = rx_part c1"
    using net_out.send_two[OF w(1), of "v2_option name" name 0] assms(4) w(2) by (simp, metis)
  then have "wf_sock c3" "pending c3 = v2_export exportsize readonly @ rest"
    using c1 by (simp_all add: wf_sock_def pending_def rx_part_def)
  then obtain c4 where c4: "net_recv_all_or_error c3 j2 0 = (134, v2_export exportsize readonly, c4, 0)"
    "pending c4 = rest" "tx_part c4 = tx_part c3"
    using net_in.recv_struct[of c3 "v2_export exportsize readonly" rest j2 0] assms(6) by auto
  have n: "unat (of_nat (length name) :: u64) = length name" "(ucast (of_nat (length name) :: u64) :: u32) = of_nat (length name)"
    using assms(4) by (simp_all add: unat_of_nat unsigned_of_nat take_bit_nat_eq_self)
  have "tx c4 = tx c @ v2_option name @ name" using c3 c4 by (simp add: tx_part_def)
  moreover have "(ucast (export_flags readonly :: u16) :: u32) = (if readonly then 7 else 5)"
    by (simp add: export_flags_def NBD_FLAG_HAS_FLAGS_def NBD_FLAG_SEND_FLUSH_def NBD_FLAG_READ_ONLY_def)
  ultimately show ?thesis using c1 c3 c4 n sint_ntohll[OF assms(7,8)]
    by (intro exI[of _ c4])
      (simp add: nbd_negotiate_v2_client_side_def v2_option_def[symmetric] wire)
qed

text \<open>
  C15. The new negotiation: a client and a server connected to each other agree. If each side reads
  what the other sends (the hypotheses on the pending bytes are what the conclusion says the other side
  sent), the server learns the export name the client asked for, the client learns the size and the
  flags of the export, and nothing else is consumed from either stream.
\<close>

theorem negotiate_v2_agree:
  assumes "writable srv" and "wf_sock srv" and "writable cli" and "wf_sock cli"
    and "length name \<le> 256" and "0 \<le> exportsize" and "exportsize \<le> 0x7FFFFFFFFFFFFFFF"
    and "length junk = 20" and "length j0 = 18" and "length j2 = 134"
    and "pending srv = v2_option name @ name @ r1" and "pending cli = v2_hello @ v2_export exportsize readonly @ r2"
  shows "\<exists>srv' srv'' cli'. nbd_negotiate_v2_server_phase0 srv junk = (Some (c_str name), srv') \<and>
       nbd_negotiate_v2_server_phase1 srv' exportsize readonly = Inr (0, srv'') \<and>
       nbd_negotiate_v2_client_side cli (of_nat (length name)) name j0 j2 = (0, Some (exportsize, if readonly then 7 else 5), cli') \<and>
       tx srv'' = tx srv @ v2_hello @ v2_export exportsize readonly \<and> tx cli' = tx cli @ v2_option name @ name \<and>
       pending srv'' = r1 \<and> pending cli' = r2"
proof -
  obtain srv' where 1: "nbd_negotiate_v2_server_phase0 srv junk = (Some (c_str name), srv')" "writable srv'"
    "pending srv' = r1" "tx srv' = tx srv @ v2_hello"
    using v2_server_phase0_ok[OF assms(1,2,11,5,8)] by auto
  obtain srv'' where 2: "nbd_negotiate_v2_server_phase1 srv' exportsize readonly = Inr (0, srv'')"
    "rx_part srv'' = rx_part srv'" "tx srv'' = tx srv' @ v2_export exportsize readonly"
    using v2_server_phase1_ok[OF 1(2) assms(6)] by blast
  from 1 2 have "pending srv'' = r1" by (simp add: pending_def rx_part_def)
  with 1 2 v2_client_ok[OF assms(3,4,12,5,9,10,6,7)] show ?thesis by auto
qed

lemma one_segment: "b \<noteq> [] \<Longrightarrow> wf_sock \<lparr>rx = [b], rx_end = e, tx = t, tx_plan = p\<rparr>"
    "pending \<lparr>rx = [b], rx_end = e, tx = t, tx_plan = p\<rparr> = b" "writable \<lparr>rx = [b], rx_end = e, tx = t, tx_plan = []\<rparr>"
  by (simp_all add: wf_sock_def pending_def writable_def)

theorem negotiate_v2_agree_witness:
  "\<exists>srv' cli'. nbd_negotiate_v2_server_phase0 \<lparr>rx = [v2_option [65, 66] @ [65, 66]], rx_end = None, tx = [], tx_plan = []\<rparr>
       (replicate 20 0) = (Some (c_str [65, 66]), srv') \<and>
     nbd_negotiate_v2_client_side \<lparr>rx = [v2_hello @ v2_export 4096 True], rx_end = None, tx = [], tx_plan = []\<rparr> 2 [65, 66]
       (replicate 18 0) (replicate 134 0) = (0, Some (4096, 7), cli')"
proof -
  have "v2_hello \<noteq> []" using length_v2(1) by (metis list.size(3) zero_neq_numeral)
  then show ?thesis
    using negotiate_v2_agree[OF one_segment(3,1) one_segment(3,1), of "v2_option [65, 66] @ [65, 66]" "v2_hello @ v2_export 4096 True"
      "[65, 66]" 4096 "replicate 20 0" "replicate 18 0" "replicate 134 0" None "[]" "[]" None "[]" True "[]"]
    by (auto simp: one_segment(2))
qed

text \<open>
  The two negotiations do not mix: an old client that meets a wrapped server gives up after the
  first 16 bytes, and a client of a wrapped server that meets a plain one gives up after 18 bytes; neither
  has sent anything.
\<close>

lemma negotiate_version_mismatch:
  assumes "wf_sock c" and "length junk = 152" and "length j0 = 18"
  shows "(\<forall>rest. pending c = v2_hello @ rest \<longrightarrow>
      (\<exists>c'. nbd_negotiate_v1_client_side c junk = (-1, None, c') \<and> pending c' = drop 16 v2_hello @ rest \<and> tx_part c' = tx_part c)) \<and>
    (\<forall>rest p. pending c = enc_v1 p @ rest \<and> ntohll (v1_passwd p) = NBD_PASSWD \<and> ntohll (v1_magic p) = NBD_NEGOTIATE_VERSION1_MAGIC \<longrightarrow>
      (\<exists>c'. nbd_negotiate_v2_client_side c n name j0 j2 = (-1, None, c') \<and> pending c' = drop 18 (enc_v1 p) @ rest \<and> tx_part c' = tx_part c))"
proof (intro conjI allI impI)
  fix rest
  assume p: "pending c = v2_hello @ rest"
  have split: "v2_hello = take 16 v2_hello @ drop 16 v2_hello" by simp
  then have "pending c = take 16 v2_hello @ drop 16 v2_hello @ rest" using p by simp
  from net_in.recv_struct[OF assms(1) this, of "take 16 junk" 0] assms(2)
  obtain c' where c': "net_recv_all_or_error c (take 16 junk) 0 = (16, take 16 v2_hello, c', 0)"
    "pending c' = drop 16 v2_hello @ rest" "tx_part c' = tx_part c" by (simp, metis)
  moreover have "ntohll (v1_magic (dec_v1 (take 16 v2_hello @ drop 16 junk))) = NBD_NEGOTIATE_VERSION2_MAGIC"
    by (simp add: v2_hello_def enc_pdu0_def dec_v1_def)
  ultimately show "\<exists>c'. nbd_negotiate_v1_client_side c junk = (-1, None, c') \<and> pending c' = drop 16 v2_hello @ rest \<and> tx_part c' = tx_part c"
    by (intro exI[of _ c']) (simp add: nbd_negotiate_v1_client_side_def Let_def)
next
  fix rest p
  assume p: "pending c = enc_v1 p @ rest \<and> ntohll (v1_passwd p) = NBD_PASSWD \<and> ntohll (v1_magic p) = NBD_NEGOTIATE_VERSION1_MAGIC"
  then have "pending c = take 18 (enc_v1 p) @ drop 18 (enc_v1 p) @ rest" by simp
  from net_in.recv_struct[OF assms(1) this, of j0 0] assms(3)
  obtain c' where c': "net_recv_all_or_error c j0 0 = (18, take 18 (enc_v1 p), c', 0)"
    "pending c' = drop 18 (enc_v1 p) @ rest" "tx_part c' = tx_part c" by (simp, metis)
  have "p0_magic (dec_pdu0 (take 18 (enc_v1 p))) = v1_magic p" by (simp add: enc_v1_def dec_pdu0_def)
  with c' p show "\<exists>c'. nbd_negotiate_v2_client_side c n name j0 j2 = (-1, None, c') \<and> pending c' = drop 18 (enc_v1 p) @ rest \<and> tx_part c' = tx_part c"
    by (intro exI[of _ c']) (simp add: nbd_negotiate_v2_client_side_def Let_def)
qed

lemma negotiate_version_mismatch_witness:
  "\<exists>c'. nbd_negotiate_v1_client_side \<lparr>rx = [v2_hello], rx_end = None, tx = [], tx_plan = []\<rparr> (replicate 152 0) = (-1, None, c')"
proof -
  have "v2_hello \<noteq> []" using length_v2(1) by (metis list.size(3) zero_neq_numeral)
  then show ?thesis
    using negotiate_version_mismatch[OF one_segment(1), of v2_hello "replicate 152 0" "replicate 18 0" None "[]" "[]",
      THEN conjunct1, THEN spec[of _ "[]"]]
    by (auto simp: one_segment(2))
qed

end
