(* ===== verification/Disk_Spec.thy ===== *)
theory Disk_Spec
  imports Nbd
begin

text \<open>
  What an NBD server promises its client, independently of how it stores the disk: requests are served
  in order, a read returns the bytes of the disk, a write changes exactly its range, and every request is
  answered once, under its handle. \<open>run_spec\<close> is this abstract server; the locale \<open>sync_server\<close> is the contract
  of one round of a server loop, and its theorem lifts one round to a whole session.
\<close>

section \<open>The abstract server\<close>

datatype req =
    ReadReq u64 int u64
  | WriteReq u64 int bytes
  | FlushReq u64

definition req_header :: "u32 \<Rightarrow> u64 \<Rightarrow> int \<Rightarrow> u64 \<Rightarrow> bytes" where
  "req_header iotype h iofrom len = enc_request \<lparr>rq_magic = htonl NBD_REQUEST_MAGIC, rq_type = htonl iotype, rq_handle = h,
     rq_from = htonll (word_of_int iofrom), rq_len = htonl (ucast len)\<rparr>"

text \<open>The bytes a client sends for a request; the handle is an opaque 8-byte value.\<close>

fun enc_req :: "req \<Rightarrow> bytes" where
  "enc_req (ReadReq h iofrom len) = req_header NBD_CMD_READ h iofrom len"
| "enc_req (WriteReq h iofrom bs) = req_header NBD_CMD_WRITE h iofrom (of_nat (length bs)) @ bs"
| "enc_req (FlushReq h) = req_header NBD_CMD_FLUSH h 0 0"

text \<open>A non-empty range inside the disk, shorter than what one transfer can move.\<close>

fun sane :: "int \<Rightarrow> req \<Rightarrow> bool" where
  "sane disksize (ReadReq h iofrom len) \<longleftrightarrow>
     0 \<le> iofrom \<and> 0 < uint len \<and> iofrom + uint len \<le> disksize \<and> uint len < 2147483632"
| "sane disksize (WriteReq h iofrom bs) \<longleftrightarrow>
     0 \<le> iofrom \<and> bs \<noteq> [] \<and> iofrom + int (length bs) \<le> disksize \<and> length bs < 2147483632"
| "sane disksize (FlushReq h) \<longleftrightarrow> 0 \<le> disksize"

fun writes :: "req \<Rightarrow> bool" where
  "writes (WriteReq h iofrom bs) = True"
| "writes _ = False"

definition ok_reply :: "u64 \<Rightarrow> nbd_reply" where
  "ok_reply h = \<lparr>rp_magic = htonl NBD_REPLY_MAGIC, rp_error = 0, rp_handle = h\<rparr>"

fun serve_spec :: "mem \<Rightarrow> req \<Rightarrow> bytes \<times> mem" where
  "serve_spec d (ReadReq h iofrom len) = (enc_reply (ok_reply h) @ peek d iofrom (unat len), d)"
| "serve_spec d (WriteReq h iofrom bs) = (enc_reply (ok_reply h), poke d iofrom bs)"
| "serve_spec d (FlushReq h) = (enc_reply (ok_reply h), d)"

fun run_spec :: "mem \<Rightarrow> req list \<Rightarrow> bytes \<times> mem" where
  "run_spec d [] = ([], d)"
| "run_spec d (r # rs) =
     (case serve_spec d r of (out, d') \<Rightarrow> case run_spec d' rs of (outs, d'') \<Rightarrow> (out @ outs, d''))"

section \<open>Server loops\<close>

text \<open>
  The loop \<open>for (;;) { ret = f(ses); if (ret < 0) return ret; }\<close> of the session servers, fed with
  what the kernel does in each round. \<^const>\<open>None\<close>: the session waits for its next request.
\<close>

fun session_loop :: "('k \<Rightarrow> 'st \<Rightarrow> (stop + int) \<times> 'st) \<Rightarrow> 'k list \<Rightarrow> 'st \<Rightarrow> (stop + int) option \<times> 'st" where
  "session_loop f [] st = (None, st)"
| "session_loop f (k # ks) st =
     (case f k st of
        (Inl e, st') \<Rightarrow> (Some (Inl e), st')
      | (Inr ret, st') \<Rightarrow> if ret < 0 then (Some (Inr ret), st') else session_loop f ks st')"

lemma session_loop_append:
  "session_loop f ks st = (None, st') \<Longrightarrow> session_loop f (ks @ ks') st = session_loop f ks' st'"
  by (induction f ks st rule: session_loop.induct) (auto split: prod.splits sum.splits if_splits)

locale sync_server =
  fixes serve :: "'k \<Rightarrow> 'st \<Rightarrow> (stop + int) \<times> 'st" and sk :: "'st \<Rightarrow> sock" and view :: "'st \<Rightarrow> mem"
    and inv :: "'st \<Rightarrow> bool" and good :: "'k \<Rightarrow> bool" and accepts :: "'st \<Rightarrow> req \<Rightarrow> bool"
  assumes serve_req: "inv st \<Longrightarrow> good k \<Longrightarrow> accepts st r \<Longrightarrow> wf_sock (sk st) \<Longrightarrow> writable (sk st) \<Longrightarrow>
      pending (sk st) = enc_req r @ rest \<Longrightarrow>
      \<exists>st'. serve k st = (Inr 0, st') \<and> inv st' \<and> accepts st' = accepts st \<and> wf_sock (sk st') \<and> writable (sk st') \<and>
        pending (sk st') = rest \<and> tx (sk st') = tx (sk st) @ fst (serve_spec (view st) r) \<and> view st' = snd (serve_spec (view st) r)"
    and serve_disc: "inv st \<Longrightarrow> good k \<Longrightarrow> wf_sock (sk st) \<Longrightarrow>
      pending (sk st) = enc_request \<lparr>rq_magic = htonl NBD_REQUEST_MAGIC, rq_type = htonl NBD_CMD_DISC, rq_handle = h,
        rq_from = f, rq_len = l\<rparr> @ rest \<Longrightarrow>
      \<exists>st'. serve k st = (Inr (-3), st') \<and> inv st' \<and> view st' = view st \<and> tx (sk st') = tx (sk st)"
begin

text \<open>A whole session behaves as the abstract server.\<close>

lemma session_refines:
  "inv st \<Longrightarrow> wf_sock (sk st) \<Longrightarrow> writable (sk st) \<Longrightarrow> length ks = length rs \<Longrightarrow> (\<And>k. k \<in> set ks \<Longrightarrow> good k) \<Longrightarrow>
   (\<And>r. r \<in> set rs \<Longrightarrow> accepts st r) \<Longrightarrow> pending (sk st) = concat (map enc_req rs) @ rest \<Longrightarrow>
   \<exists>st'. session_loop serve ks st = (None, st') \<and> inv st' \<and> wf_sock (sk st') \<and> writable (sk st') \<and> pending (sk st') = rest \<and>
     tx (sk st') = tx (sk st) @ fst (run_spec (view st) rs) \<and> view st' = snd (run_spec (view st) rs)"
proof (induction rs arbitrary: ks st)
  case (Cons r rs)
  then obtain k ks' where ks: "ks = k # ks'" by (cases ks) auto
  have p: "pending (sk st) = enc_req r @ concat (map enc_req rs) @ rest" using Cons.prems by simp
  obtain st1 where st1: "serve k st = (Inr 0, st1)" "inv st1" "accepts st1 = accepts st" "wf_sock (sk st1)" "writable (sk st1)"
      "pending (sk st1) = concat (map enc_req rs) @ rest"
      "tx (sk st1) = tx (sk st) @ fst (serve_spec (view st) r)" "view st1 = snd (serve_spec (view st) r)"
    using serve_req[OF Cons.prems(1) _ _ Cons.prems(2,3) p, of k] Cons.prems(5)[of k] Cons.prems(6)[of r] ks by auto
  obtain st2 where "session_loop serve ks' st1 = (None, st2)" "inv st2" "wf_sock (sk st2)" "writable (sk st2)" "pending (sk st2) = rest"
      "tx (sk st2) = tx (sk st1) @ fst (run_spec (view st1) rs)" "view st2 = snd (run_spec (view st1) rs)"
    using Cons.IH[of st1 ks'] st1 Cons.prems ks by auto
  with st1 ks show ?case by (auto split: prod.splits)
qed auto

lemma session_until_disconnect:
  assumes "inv st" and "wf_sock (sk st)" and "writable (sk st)" and "length ks = length rs" and "\<And>k. k \<in> set ks \<Longrightarrow> good k"
    and "good k0" and "\<And>r. r \<in> set rs \<Longrightarrow> accepts st r"
    and "pending (sk st) = concat (map enc_req rs) @ enc_request \<lparr>rq_magic = htonl NBD_REQUEST_MAGIC, rq_type = htonl NBD_CMD_DISC,
      rq_handle = h, rq_from = f, rq_len = l\<rparr> @ rest"
  shows "\<exists>st'. session_loop serve (ks @ [k0]) st = (Some (Inr NBD_SERVER_RECV__TERMINATE), st') \<and>
    tx (sk st') = tx (sk st) @ fst (run_spec (view st) rs) \<and> view st' = snd (run_spec (view st) rs)"
proof -
  from session_refines[OF assms(1-5,7,8)] obtain st1 where st1: "session_loop serve ks st = (None, st1)" "inv st1" "wf_sock (sk st1)"
    "pending (sk st1) = enc_request \<lparr>rq_magic = htonl NBD_REQUEST_MAGIC, rq_type = htonl NBD_CMD_DISC, rq_handle = h, rq_from = f, rq_len = l\<rparr> @ rest"
    "tx (sk st1) = tx (sk st) @ fst (run_spec (view st) rs)" "view st1 = snd (run_spec (view st) rs)" by blast
  with serve_disc[OF st1(2) assms(6) st1(3,4)] show ?thesis by (auto simp: session_loop_append[OF st1(1)])
qed

end

section \<open>Receiving a request of the abstract client\<close>

definition fresh_reply :: nbd_reply where
  "fresh_reply = \<lparr>rp_magic = htonl NBD_REPLY_MAGIC, rp_error = 0, rp_handle = 0\<rparr>"

definition fresh_out :: request_out where
  "fresh_out = \<lparr>iotype_arg = 0, iofrom_arg = 0, iolen_arg = 0, reply_arg = fresh_reply\<rparr>"

lemma fresh_reply_handle [simp]: "fresh_reply\<lparr>rp_handle := h\<rparr> = ok_reply h"
  by (simp add: fresh_reply_def ok_reply_def)

text \<open>The three headers, as the server loops receive them.\<close>

lemma recv_req_header:
  assumes "wf_sock s" and "0 \<le> iofrom" and "iofrom + uint len \<le> disksize" and "disksize \<le> 0x7FFFFFFFFFFFFFFF"
    and "uint len < 2147483632" and "iotype \<noteq> NBD_CMD_DISC" and "iotype = NBD_CMD_FLUSH \<longrightarrow> iofrom = 0 \<and> len = 0"
    and "pending s = req_header iotype h iofrom len @ rest"
  obtains s' where "nbd_server_recv_request s disksize fresh_out =
      (0, \<lparr>iotype_arg = iotype, iofrom_arg = iofrom, iolen_arg = len, reply_arg = ok_reply h\<rparr>, s')"
    and "wf_sock s'" and "pending s' = rest" and "tx_part s' = tx_part s"
proof -
  have "len \<le> 0xFFFFFFFF" using assms(5) by (simp add: word_le_def)
  from recv_request_accept[OF assms(1-4) this assms(6,7), of h rest fresh_out] assms(8) that show thesis
    by (auto simp: req_header_def fresh_out_def)
qed

lemma of_nat_len: "n < 2147483632 \<Longrightarrow> uint (of_nat n :: u64) = int n \<and> unat (of_nat n :: u64) = n"
  by (simp add: unat_of_nat uint_nat)

end
