(* ===== verification/Block_Region.thy ===== *)
theory Block_Region
  imports Prelude "HOL-Library.Signed_Division"
begin

text \<open>
  Block geometry: which blocks a byte range touches (\<open>lib/io.h\<close>), how many blocks a disk has
  and how a range is mapped with its edges on block boundaries (\<open>xnbd_common.c\<close>,
  \<open>xnbd.h\<close>), on top of the page-aligned mappings of \<open>lib/io.c\<close>.

  An \<open>off_t\<close> is an \<^typ>\<open>int\<close> with C's truncating division; a \<open>size_t\<close> and a block index are
  64-bit words. A pointer into a mapped file is the file offset it points to, and NULL is
  \<^const>\<open>None\<close>. Whether \<open>mmap\<close> succeeds is a parameter of the operations that call it.
\<close>

section \<open>Block indices\<close>

abbreviation (input) CBLOCKSIZE :: int where "CBLOCKSIZE \<equiv> 4096"

definition get_bindex_sta :: "u32 \<Rightarrow> int \<Rightarrow> u64" where
  "get_bindex_sta blocksize iofrom = word_of_int (iofrom sdiv uint blocksize)"

definition get_bindex_end :: "u32 \<Rightarrow> int \<Rightarrow> u64" where
  "get_bindex_end blocksize ioend =
     (if ioend smod uint blocksize = 0 then word_of_int (ioend sdiv uint blocksize - 1)
      else word_of_int (ioend sdiv uint blocksize))"

definition get_disk_nblocks :: "int \<Rightarrow> u64" where
  "get_disk_nblocks disksize =
     word_of_int (disksize sdiv CBLOCKSIZE + (if disksize smod CBLOCKSIZE \<noteq> 0 then 1 else 0))"

definition confine_iolen_within_disk :: "int \<Rightarrow> int \<Rightarrow> u64 \<Rightarrow> u64" where
  "confine_iolen_within_disk disksize iofrom iolen =
     (let rest = word_of_int (disksize - iofrom) in if rest < iolen then rest else iolen)"

section \<open>Mapped regions\<close>

record mmap_region =
  mmap_buf :: "int option"
  mmap_len :: u64
  mr_iobuf :: "int option"

abbreviation (input) getpagesize :: int where "getpagesize \<equiv> 4096"

text \<open>The verdict of \<open>mmap(NULL, len, prot, MAP_SHARED, fd, offset)\<close>: offset, length, read-only.\<close>

type_synonym mmap_fn = "int \<Rightarrow> u64 \<Rightarrow> bool \<Rightarrow> bool"

definition mmap_region_create :: "mmap_fn \<Rightarrow> int \<Rightarrow> u64 \<Rightarrow> bool \<Rightarrow> stop + mmap_region" where
  "mmap_region_create kern iofrom iolen readonly =
     (let pa_iofrom = and iofrom (not (getpagesize - 1));
          len = iolen + word_of_int (iofrom - pa_iofrom)
      in if len \<noteq> 0 \<and> \<not> kern pa_iofrom len readonly then Inl (Err ''disk mapping failed'')
         else let buf = (if len \<noteq> 0 then Some pa_iofrom else None)
              in Inr \<lparr>mmap_buf = buf, mmap_len = len, mr_iobuf = map_option (\<lambda>p. p + (iofrom - pa_iofrom)) buf\<rparr>)"

text \<open>The result of \<open>mmap_region_free\<close> is the \<open>munmap\<close> call it makes, if any.\<close>

definition mmap_region_free :: "bool \<Rightarrow> mmap_region \<Rightarrow> stop + (int option \<times> u64) option" where
  "mmap_region_free munmap_ok mr =
     (if mmap_len mr \<noteq> 0 then
        if munmap_ok then Inr (Some (mmap_buf mr, mmap_len mr)) else Inl (Err ''munmap'')
      else Inr None)"

record mmap_block_region =
  mbr_mr :: mmap_region
  ba_iobuf :: "int option"
  mbr_iobuf :: "int option"
  ba_iofrom :: int

definition mmap_block_region_create ::
  "mmap_fn \<Rightarrow> int \<Rightarrow> int \<Rightarrow> u64 \<Rightarrow> bool \<Rightarrow> stop + mmap_block_region" where
  "mmap_block_region_create kern disksize iofrom iolen readonly =
     (let blocksize = CBLOCKSIZE;
          ba_from = and iofrom (not (blocksize - 1));
          ba_end = sint (and ((word_of_int iofrom + iolen) + word_of_int (blocksize - 1)) (not (word_of_int (blocksize - 1))) :: u64);
          ba_end' = (if ba_end > disksize then disksize else ba_end)
      in bindE (mmap_region_create kern ba_from (word_of_int (ba_end' - ba_from)) readonly) (\<lambda>mr.
         Inr \<lparr>mbr_mr = mr, ba_iobuf = mr_iobuf mr,
              mbr_iobuf = map_option (\<lambda>p. p + (iofrom - ba_from)) (mr_iobuf mr), ba_iofrom = ba_from\<rparr>))"

definition mmap_block_region_free :: "bool \<Rightarrow> mmap_block_region \<Rightarrow> stop + (int option \<times> u64) option" where
  "mmap_block_region_free munmap_ok mbr = mmap_region_free munmap_ok (mbr_mr mbr)"

text \<open>The result of \<open>mmap_region_msync\<close>: whether an \<open>msync\<close> call failed (a warning).\<close>

definition mmap_region_msync :: "bool \<Rightarrow> mmap_region \<Rightarrow> bool" where
  "mmap_region_msync msync_ok mr = (mmap_len mr \<noteq> 0 \<and> \<not> msync_ok)"

text \<open>\<open>fallocate\<close> with \<open>FALLOC_FL_PUNCH_HOLE | FALLOC_FL_KEEP_SIZE\<close> zeroes the range if it works.\<close>

definition punch_hole :: "bool \<Rightarrow> mem \<Rightarrow> int \<Rightarrow> int \<Rightarrow> mem" where
  "punch_hole fallocate_ok disk iofrom iolen =
     (if fallocate_ok then poke disk iofrom (replicate (nat iolen) 0) else disk)"

section \<open>The blocks of a range\<close>

lemma sdiv_nonneg: "0 \<le> a \<Longrightarrow> 0 < b \<Longrightarrow> (a :: int) sdiv b = a div b"
  by (simp add: signed_divide_int_def sgn_if)

lemma smod_nonneg: "0 \<le> a \<Longrightarrow> 0 < b \<Longrightarrow> (a :: int) smod b = a mod b"
  by (cases "a = 0") (simp_all add: signed_modulo_int_def sgn_if)

lemma div_4096_bounds: "4096 * (x div 4096) \<le> x" "x < 4096 * (x div 4096) + 4096" for x :: int
  by simp_all

lemma div_4096_le_iff: "q * 4096 \<le> x \<longleftrightarrow> q \<le> x div 4096" "x < (q + 1) * 4096 \<longleftrightarrow> x div 4096 \<le> q" for x q :: int
  by (insert div_4096_bounds[of x], linarith) (insert div_4096_bounds[of x], auto simp: distrib_right)

lemma bindex_sta_nat [geometry]:
  "0 \<le> iofrom \<Longrightarrow> iofrom < 9223372036854775808 \<Longrightarrow> unat (get_bindex_sta 4096 iofrom) = nat (iofrom div 4096)"
  by (simp add: get_bindex_sta_def sdiv_nonneg unat_word_of_int_u64)

lemma div_4096_pred: "(n - 1) div 4096 = (if n mod 4096 = 0 then n div 4096 - 1 else n div 4096)" for n :: int
proof -
  have "n = 4096 * (n div 4096) + n mod 4096" "0 \<le> n mod 4096" "n mod 4096 < 4096" by simp_all
  then show ?thesis using div_4096_bounds[of "n - 1"] by (split if_split) linarith
qed

lemma div_4096_up: "(n + 4095) div 4096 = n div 4096 + (if n mod 4096 \<noteq> 0 then 1 else 0)" for n :: int
proof -
  have "n = 4096 * (n div 4096) + n mod 4096" "0 \<le> n mod 4096" "n mod 4096 < 4096" by simp_all
  then show ?thesis using div_4096_bounds[of "n + 4095"] by (split if_split) linarith
qed

lemma bindex_end_nat [geometry]:
  assumes "0 < ioend" and "ioend < 9223372036854775808"
  shows "unat (get_bindex_end 4096 ioend) = nat ((ioend - 1) div 4096)"
proof -
  have "1 \<le> ioend div 4096" if "ioend mod 4096 = 0" using that assms by (auto elim!: dvdE)
  moreover have "ioend div 4096 < 9223372036854775808" using assms by linarith
  ultimately show ?thesis using assms
    by (auto simp add: get_bindex_end_def sdiv_nonneg smod_nonneg unat_word_of_int_u64 div_4096_pred simp del: of_int_diff)
qed

lemma nblocks_nat [geometry]:
  assumes "0 \<le> disksize" and "disksize < 9223372036854775808"
  shows "unat (get_disk_nblocks disksize) = nat ((disksize + 4095) div 4096)"
  using assms by (simp add: get_disk_nblocks_def sdiv_nonneg smod_nonneg unat_word_of_int_u64 div_4096_up del: of_int_add)

text \<open>The abstract blocks of a byte range, and the bytes of a block of a disk.\<close>

definition blocks_of :: "int \<Rightarrow> int \<Rightarrow> nat set" where
  "blocks_of iofrom ioend = {b. \<exists>x. iofrom \<le> x \<and> x < ioend \<and> 0 \<le> x \<and> b = nat (x div 4096)}"

lemma blocks_of_range [geometry]:
  assumes "0 \<le> iofrom" and "iofrom < ioend" and "ioend < 9223372036854775808"
  shows "blocks_of iofrom ioend = {unat (get_bindex_sta 4096 iofrom)..unat (get_bindex_end 4096 ioend)}"
proof -
  have "b \<in> blocks_of iofrom ioend \<longleftrightarrow> nat (iofrom div 4096) \<le> b \<and> b \<le> nat ((ioend - 1) div 4096)" for b
  proof
    assume "b \<in> blocks_of iofrom ioend"
    then obtain x where x: "iofrom \<le> x" "x < ioend" "0 \<le> x" "b = nat (x div 4096)"
      by (auto simp: blocks_of_def)
    then have "iofrom div 4096 \<le> x div 4096" "x div 4096 \<le> (ioend - 1) div 4096"
      by (auto intro: zdiv_mono1)
    with x show "nat (iofrom div 4096) \<le> b \<and> b \<le> nat ((ioend - 1) div 4096)" by (simp add: nat_mono)
  next
    assume b: "nat (iofrom div 4096) \<le> b \<and> b \<le> nat ((ioend - 1) div 4096)"
    then have lo: "iofrom div 4096 \<le> int b" and hi: "int b \<le> (ioend - 1) div 4096"
      using assms by linarith+
    let ?x = "max iofrom (int b * 4096)"
    have "int b * 4096 < ioend" using hi div_4096_bounds[of "ioend - 1"] by linarith
    moreover have "?x div 4096 = int b"
    proof (cases "iofrom \<le> int b * 4096")
      case False
      with lo have "iofrom div 4096 = int b" using div_4096_bounds[of iofrom] by linarith
      with False show ?thesis by (simp add: max_def)
    qed (simp add: max_def)
    ultimately show "b \<in> blocks_of iofrom ioend" using assms
      by (auto simp: blocks_of_def intro!: exI[of _ ?x])
  qed
  then have "blocks_of iofrom ioend = {nat (iofrom div 4096)..nat ((ioend - 1) div 4096)}"
    by (intro set_eqI) (simp only: atLeastAtMost_iff)
  then show ?thesis using assms by (simp add: bindex_sta_nat bindex_end_nat)
qed

lemma bindex_end_bound:
  assumes "0 < ioend" and "ioend \<le> disksize" and "disksize < 9223372036854775808"
  shows "unat (get_bindex_end 4096 ioend) < unat (get_disk_nblocks disksize)"
proof -
  have "(ioend - 1) div 4096 < (disksize + 4095) div 4096"
    using assms div_4096_bounds[of "ioend - 1"] div_4096_bounds[of "disksize + 4095"] by linarith
  moreover have "0 \<le> (ioend - 1) div 4096" using assms by simp
  ultimately show ?thesis using assms by (simp add: bindex_end_nat nblocks_nat nat_mono_iff)
qed

lemma bindex_sta_le_end:
  assumes "0 \<le> iofrom" and "iofrom < ioend" and "ioend < 9223372036854775808"
  shows "unat (get_bindex_sta 4096 iofrom) \<le> unat (get_bindex_end 4096 ioend)"
  using assms by (simp add: bindex_sta_nat bindex_end_nat zdiv_mono1 nat_mono)

text \<open>An empty range at offset 0 has no last block: the index wraps.\<close>

lemma bindex_end_0: "get_bindex_end 4096 0 = - 1"
  by (simp add: get_bindex_end_def signed_divide_int_def signed_modulo_int_def)

section \<open>Alignment\<close>

lemma and_not_4095 [geometry]: "and x (not 4095) = (x :: int) div 4096 * 4096"
proof -
  have "and x (not (mask 12)) = push_bit 12 (drop_bit 12 x)"
    by (rule bit_eqI) (auto simp: bit_simps not_less)
  moreover have "mask 12 = (4095 :: int)" by (simp add: mask_eq_exp_minus_1)
  ultimately show ?thesis by (simp add: push_bit_eq_mult drop_bit_eq_div)
qed

lemma and_not_4095_word: "and w (not 4095) = (word_of_int (uint w div 4096 * 4096) :: u64)"
proof -
  have m: "mask 12 = (4095 :: u64)" by (simp add: mask_eq_exp_minus_1)
  have "and w (not (mask 12)) = push_bit 12 (drop_bit 12 w)"
    by (rule bit_eqI) (auto simp: bit_simps not_less)
  also have "\<dots> = word_of_int (uint w div 4096 * 4096)"
    by (simp add: push_bit_eq_mult drop_bit_eq_div word_div_def)
  finally show ?thesis by (simp only: m)
qed

lemma and_m4096 [geometry]: "and x (- 4096) = (x :: int) div 4096 * 4096"
  using and_not_4095[of x] by simp

section \<open>What a block region maps\<close>

text \<open>
  The documented behaviour of \<open>mmap\<close> on a file of \<open>fsize\<close> bytes: a page-aligned, non-empty range
  inside the file can be mapped.
\<close>

definition mmap_works :: "mmap_fn \<Rightarrow> int \<Rightarrow> bool \<Rightarrow> bool" where
  "mmap_works kern fsize readonly \<longleftrightarrow>
     (\<forall>off len. 0 \<le> off \<and> off mod 4096 = 0 \<and> len \<noteq> 0 \<and> off + uint len \<le> fsize \<longrightarrow> kern off len readonly)"

definition ba_ioend_of :: "int \<Rightarrow> int \<Rightarrow> int" where
  "ba_ioend_of disksize ioend = min ((ioend + 4095) div 4096 * 4096) disksize"

lemma mmap_region_create_aligned:
  assumes "mmap_works kern fsize readonly" and "0 \<le> a" and "a mod 4096 = 0" and "0 < n" and "a + n \<le> fsize"
    and "fsize < 9223372036854771712"
  shows "mmap_region_create kern a (word_of_int n) readonly =
    Inr \<lparr>mmap_buf = Some a, mmap_len = word_of_int n, mr_iobuf = Some a\<rparr>"
proof -
  have al: "and a (not 4095) = a" using assms(3) by (auto simp: and_m4096)
  have u: "uint (word_of_int n :: u64) = n" using assms by (simp add: uint_word_of_int_u64)
  then have n0: "(word_of_int n :: u64) \<noteq> 0" using assms(4) by auto
  have "kern a (word_of_int n) readonly"
    using assms u n0 by (auto simp: mmap_works_def)
  with al n0 show ?thesis by (simp add: mmap_region_create_def Let_def)
qed

lemma mmap_block_region_create_ok:
  assumes "mmap_works kern disksize readonly" and "0 \<le> iofrom" and "0 < uint iolen"
    and "iofrom + uint iolen \<le> disksize" and "disksize < 9223372036854771712"
  shows "mmap_block_region_create kern disksize iofrom iolen readonly =
    Inr \<lparr>mbr_mr = \<lparr>mmap_buf = Some (iofrom div 4096 * 4096),
              mmap_len = word_of_int (ba_ioend_of disksize (iofrom + uint iolen) - iofrom div 4096 * 4096),
              mr_iobuf = Some (iofrom div 4096 * 4096)\<rparr>,
         ba_iobuf = Some (iofrom div 4096 * 4096), mbr_iobuf = Some iofrom, ba_iofrom = iofrom div 4096 * 4096\<rparr>"
proof -
  let ?e = "iofrom + uint iolen"
  have bounds: "?e \<le> (?e + 4095) div 4096 * 4096" "(?e + 4095) div 4096 * 4096 \<le> ?e + 4095"
    "iofrom div 4096 * 4096 \<le> iofrom"
    using div_4096_bounds[of "?e + 4095"] div_4096_bounds[of iofrom] by linarith+
  define E where "E = sint (and ((word_of_int iofrom + iolen) + word_of_int (4096 - 1)) (not (word_of_int (4096 - 1))) :: u64)"
  have "word_of_int iofrom + iolen + 4095 = (word_of_int (?e + 4095) :: u64)" by simp
  moreover have "uint (word_of_int (?e + 4095) :: u64) = ?e + 4095"
    using assms by (intro uint_word_of_int_u64) auto
  ultimately have "E = sint (word_of_int ((?e + 4095) div 4096 * 4096) :: u64)"
    using and_not_4095_word[of "word_of_int (?e + 4095)"] by (simp add: E_def)
  also have "\<dots> = (?e + 4095) div 4096 * 4096"
    using bounds assms by (simp add: sint_uint signed_take_bit_int_eq_self uint_word_of_int_u64 del: of_int_mult of_int_add)
  finally have e: "(if E > disksize then disksize else E) = ba_ioend_of disksize ?e"
    by (simp add: ba_ioend_of_def min_def)
  have al: "and iofrom (not (4096 - 1)) = iofrom div 4096 * 4096" by (simp add: and_m4096)
  have "mmap_region_create kern (iofrom div 4096 * 4096)
      (word_of_int (ba_ioend_of disksize ?e - iofrom div 4096 * 4096)) readonly =
    Inr \<lparr>mmap_buf = Some (iofrom div 4096 * 4096),
      mmap_len = word_of_int (ba_ioend_of disksize ?e - iofrom div 4096 * 4096), mr_iobuf = Some (iofrom div 4096 * 4096)\<rparr>"
    using assms bounds by (intro mmap_region_create_aligned) (auto simp: ba_ioend_of_def)
  then show ?thesis
    unfolding mmap_block_region_create_def Let_def E_def[symmetric] e al by (simp del: of_int_diff)
qed

lemma ba_range_blocks:
  assumes "0 \<le> iofrom" and "iofrom < ioend" and "ioend \<le> disksize"
  shows "iofrom div 4096 * 4096 \<le> x \<and> x < ba_ioend_of disksize ioend \<longleftrightarrow>
    0 \<le> x \<and> x < disksize \<and> iofrom div 4096 \<le> x div 4096 \<and> x div 4096 \<le> (ioend - 1) div 4096"
proof -
  have up: "(ioend + 4095) div 4096 = (ioend - 1) div 4096 + 1" by simp
  have "0 \<le> iofrom div 4096" using assms by simp
  then show ?thesis
    unfolding ba_ioend_of_def up min_less_iff_conj div_4096_le_iff using div_4096_bounds[of x] by auto
qed

text \<open>
  C12. For a non-empty request inside the disk, \<open>mmap_block_region_create\<close> succeeds and maps exactly
  the bytes of the disk that lie in a block the request touches: it starts on a block boundary,
  \<open>iobuf\<close> points to the request's first byte, and the region is cut at the end of a disk whose
  size is no multiple of the block size.
\<close>

theorem block_region_maps_blocks:
  assumes "mmap_works kern disksize readonly" and "0 \<le> iofrom" and "0 < uint iolen"
    and "iofrom + uint iolen \<le> disksize" and "disksize < 9223372036854771712"
  shows "\<exists>mbr. mmap_block_region_create kern disksize iofrom iolen readonly = Inr mbr \<and>
    mbr_iobuf mbr = Some iofrom \<and> ba_iobuf mbr = Some (ba_iofrom mbr) \<and> ba_iofrom mbr mod 4096 = 0 \<and>
    (\<forall>x. ba_iofrom mbr \<le> x \<and> x < ba_iofrom mbr + uint (mmap_len (mbr_mr mbr)) \<longleftrightarrow>
      0 \<le> x \<and> x < disksize \<and> nat (x div 4096) \<in> blocks_of iofrom (iofrom + uint iolen))"
proof -
  let ?e = "iofrom + uint iolen" and ?a = "iofrom div 4096 * 4096"
  have le: "?a \<le> iofrom" "?e \<le> ba_ioend_of disksize ?e" "ba_ioend_of disksize ?e \<le> disksize"
    using div_4096_bounds[of iofrom] div_4096_bounds[of "?e + 4095"] assms(4) by (auto simp: ba_ioend_of_def)
  then have "uint (word_of_int (ba_ioend_of disksize ?e - ?a) :: u64) = ba_ioend_of disksize ?e - ?a"
    using assms div_4096_bounds[of iofrom] by (intro uint_word_of_int_u64) auto
  moreover have "(0 \<le> x \<and> x < disksize \<and> nat (x div 4096) \<in> blocks_of iofrom ?e) \<longleftrightarrow>
      0 \<le> x \<and> x < disksize \<and> iofrom div 4096 \<le> x div 4096 \<and> x div 4096 \<le> (?e - 1) div 4096" for x
  proof -
    have "blocks_of iofrom ?e = {nat (iofrom div 4096)..nat ((?e - 1) div 4096)}"
      using assms by (simp add: blocks_of_range bindex_sta_nat bindex_end_nat)
    moreover have "0 \<le> (?e - 1) div 4096" "0 \<le> iofrom div 4096" using assms by simp_all
    ultimately show ?thesis by (auto simp: nat_le_iff)
  qed
  ultimately show ?thesis
    using ba_range_blocks[of iofrom ?e disksize] mmap_block_region_create_ok[OF assms] assms
    by (simp del: of_int_diff)
qed

theorem block_region_maps_blocks_witness:
  "\<exists>mbr. mmap_block_region_create (\<lambda>_ _ _. True) 10000 5000 3000 False = Inr mbr \<and> mbr_iobuf mbr = Some 5000 \<and>
     ba_iofrom mbr mod 4096 = 0"
  using block_region_maps_blocks[of "\<lambda>_ _ _. True" 10000 False 5000 3000] by (auto simp: mmap_works_def)

end
