(* ===== verification/Io.thy ===== *)
theory Io
  imports Net_IO
begin

text \<open>
  The rest of \<open>lib/io.c\<close>: \<open>read_all\<close> and \<open>write_all\<close>, lines over a control socket, waiting for a
  request or a notification, and the size of a disk. \<open>io_all\<close> loops as long as its system call
  reports progress or nothing, so it is a partial function: \<^const>\<open>None\<close> is a call that never returns.
\<close>

section \<open>Reading and writing everything\<close>

text \<open>
  \<open>next_len\<close> is a C \<open>int\<close>, converted to \<open>size_t\<close> for the system call; \<open>done\<close> is the variable \<open>total\<close>.
\<close>

partial_function (option) io_all ::
  "bool \<Rightarrow> nat \<Rightarrow> int \<Rightarrow> int \<Rightarrow> nat \<Rightarrow> mem \<Rightarrow> sock \<Rightarrow> (stop + mem \<times> sock) option" where
  "io_all read_ops len next_len next_buf done m fd =
     (let iov = [\<lparr>iov_base = next_buf, iov_len = unat (word_of_int next_len :: u64)\<rparr>] in
      case (if read_ops then sys_readv m fd iov else sys_writev m fd iov) of
        (Fail e, m', fd') \<Rightarrow> Some (Inl (Err ''read or write error''))
      | (Xfer ret, m', fd') \<Rightarrow>
          if done + ret = len then Some (Inr (m', fd'))
          else io_all read_ops len (int32 (next_len - int ret)) (next_buf + int ret) (done + ret) m' fd')"

definition read_all :: "sock \<Rightarrow> bytes \<Rightarrow> (stop + bytes \<times> sock) option" where
  "read_all fd buf = map_option (map_sum id (\<lambda>(m, fd'). (peek m 0 (length buf), fd')))
     (io_all True (length buf) (int32 (int (length buf))) 0 0 (mem_of buf) fd)"

definition write_all :: "sock \<Rightarrow> bytes \<Rightarrow> (stop + sock) option" where
  "write_all fd buf = map_option (map_sum id snd)
     (io_all False (length buf) (int32 (int (length buf))) 0 0 (mem_of buf) fd)"

section \<open>Lines\<close>

abbreviation (input) MAX_LINE :: nat where "MAX_LINE \<equiv> 100"

abbreviation (input) newline :: u8 where "newline \<equiv> 10"

text \<open>
  \<open>get_line\<close> reads byte by byte until a newline; \<^const>\<open>None\<close> is NULL. The argument counts the
  rounds the \<open>for\<close> loop has left, \<open>line\<close> is what it stored.
\<close>

fun get_line_loop :: "nat \<Rightarrow> bytes \<Rightarrow> sock \<Rightarrow> bytes option \<times> sock" where
  "get_line_loop 0 line fd = (None, fd)"
| "get_line_loop (Suc k) line fd =
     (case sys_readv (mem_of [48]) fd (iov1 [48]) of
        (Fail e, _, fd') \<Rightarrow> (None, fd')
      | (Xfer ret, m, fd') \<Rightarrow>
          if ret = 0 then (None, fd')
          else let ch = m 0 in
            if ch = newline then (Some line, fd') else get_line_loop k (line @ [ch]) fd')"

definition get_line :: "sock \<Rightarrow> bytes option \<times> sock" where
  "get_line fd = get_line_loop MAX_LINE [] fd"

text \<open>\<open>msg\<close> is the C string without its terminating NUL.\<close>

definition put_line :: "sock \<Rightarrow> bytes \<Rightarrow> int \<times> sock" where
  "put_line fd msg =
     (if min (length msg) (MAX_LINE - 2) = MAX_LINE - 2 then (-1, fd)
      else case net_send_all_or_error fd (msg @ [newline]) 0 of (ret, fd', _) \<Rightarrow>
        if ret < 0 then (-1, fd') else (0, fd'))"

section \<open>Waiting for a request\<close>

text \<open>What \<open>poll\<close> reports: an error, or which of the two descriptors has one of the awaited events.\<close>

datatype poll_result = PollFail nat | PollReady bool bool

definition wait_until_readable :: "poll_result \<Rightarrow> stop + int" where
  "wait_until_readable p =
     (case p of
        PollFail e \<Rightarrow> if e = EINTR then Inr (-1) else Inl (Err ''polling'')
      | PollReady fd_ev unblock_ev \<Rightarrow>
          if unblock_ev then Inr (-1)
          else if fd_ev then Inr 0
          else Inl (Err ''unknown ppoll events''))"

definition poll_request_arrival :: "poll_result \<Rightarrow> stop + int" where
  "poll_request_arrival p = wait_until_readable p"

section \<open>Disk sizes\<close>

datatype file_type = S_ISREG | S_ISBLK | S_ISCHR | S_OTHER

record stat_buf =
  st_mode :: file_type
  st_size :: int
  st_rdev_major :: nat

text \<open>
  \<open>fstat_err\<close> is the \<open>errno\<close> of a failed \<open>fstat\<close>; the code goes on with the then uninitialised
  structure unless it is EOVERFLOW. \<open>seek_end\<close> is what \<open>lseek (fd, 0, SEEK_END)\<close> returns.
\<close>

definition get_disksize :: "nat option \<Rightarrow> stat_buf \<Rightarrow> int \<Rightarrow> stop + int" where
  "get_disksize fstat_err st seek_end =
     (if fstat_err = Some EOVERFLOW then Inl (Err ''enable 64bit offset support'')
      else case st_mode st of
        S_ISREG \<Rightarrow> Inr (st_size st)
      | S_ISBLK \<Rightarrow> if seek_end < 0 then Inl (Err ''lseek failed'') else Inr seek_end
      | S_ISCHR \<Rightarrow> if st_rdev_major st = 259 then Inr seek_end else Inl (Err ''failed to detect disk size'')
      | S_OTHER \<Rightarrow> Inl (Err ''file type not supported''))"

definition get_disksize_of_path :: "bool \<Rightarrow> nat option \<Rightarrow> stat_buf \<Rightarrow> int \<Rightarrow> stop + int" where
  "get_disksize_of_path open_ok fstat_err st seek_end =
     (if open_ok then get_disksize fstat_err st seek_end else Inl (Err ''disk open''))"

section \<open>When \<open>io_all\<close> returns\<close>

lemma sys_readv_one:
  assumes "wf_sock fd" and "0 < n" and "pending fd \<noteq> []"
  obtains k fd' where "0 < k" and "k \<le> n" and "k \<le> length (pending fd)"
    and "sys_readv m fd [\<lparr>iov_base = a, iov_len = n\<rparr>] = (Xfer k, poke m a (take k (pending fd)), fd')"
    and "wf_sock fd'" and "pending fd' = drop k (pending fd)" and "tx_part fd' = tx_part fd" and "rx_end fd' = rx_end fd"
proof -
  obtain seg segs where rx: "rx fd = seg # segs" "seg \<noteq> []"
    using assms by (cases "rx fd") (auto simp: pending_def wf_sock_def)
  let ?k = "min n (length seg)" and ?fd = "fd\<lparr>rx := (if drop n seg = [] then segs else drop n seg # segs)\<rparr>"
  have "take ?k (pending fd) = take n seg" using rx by (simp add: pending_def min_def)
  with rx assms(1,2) show thesis
    by (intro that[of ?k ?fd]) (auto simp: sys_readv_def pending_def min_def wf_sock_def tx_part_def)
qed

lemma io_all_read_enough:
  "wf_sock fd \<Longrightarrow> 0 < n \<Longrightarrow> n < 2147483648 \<Longrightarrow> n \<le> length (pending fd) \<Longrightarrow>
   \<exists>fd'. io_all True (done + n) (int n) a done m fd = Some (Inr (poke m a (take n (pending fd)), fd')) \<and>
     wf_sock fd' \<and> pending fd' = drop n (pending fd) \<and> tx_part fd' = tx_part fd"
proof (induction n arbitrary: "done" a m fd rule: less_induct)
  case (less n)
  have ne: "pending fd \<noteq> []" using less.prems by auto
  have n: "unat (word_of_int (int n) :: u64) = n" using less.prems unat_word_of_int_u64[of "int n"] by (simp del: of_int_of_nat_eq)
  obtain k fd1 where k: "0 < k" "k \<le> n" "k \<le> length (pending fd)"
    and r: "sys_readv m fd [\<lparr>iov_base = a, iov_len = n\<rparr>] = (Xfer k, poke m a (take k (pending fd)), fd1)"
    and fd1: "wf_sock fd1" "pending fd1 = drop k (pending fd)" "tx_part fd1 = tx_part fd"
    using sys_readv_one[OF less.prems(1,2) ne, of m a] by metis
  show ?case
  proof (cases "k = n")
    case True
    then show ?thesis using r n fd1 by (subst io_all.simps) (simp add: Let_def)
  next
    case False
    have i: "int32 (int n - int k) = int (n - k)" using k less.prems by (simp add: int32_id of_nat_diff)
    have step: "io_all True (done + n) (int n) a done m fd =
        io_all True ((done + k) + (n - k)) (int (n - k)) (a + int k) (done + k) (poke m a (take k (pending fd))) fd1"
      using r n False k i by (subst io_all.simps) (simp add: Let_def)
    have "take n (pending fd) = take k (pending fd) @ take (n - k) (pending fd1)"
      using k fd1(2) by (metis le_add_diff_inverse take_add)
    then have "poke m a (take n (pending fd)) = poke (poke m a (take k (pending fd))) (a + int k) (take (n - k) (pending fd1))"
      using k(3) by (simp add: poke_append)
    with step less.IH[of "n - k" fd1 "done + k" "a + int k" "poke m a (take k (pending fd))"] fd1 k less.prems False
    show ?thesis by (auto simp: drop_drop)
  qed
qed

lemma io_all_eof_aux:
  assumes "io_all read_ops len next_len next_buf done m fd = Some y"
  shows "read_ops \<longrightarrow> rx fd = [] \<longrightarrow> rx_end fd = None \<longrightarrow> len \<le> done"
proof (rule io_all.raw_induct[where P = "\<lambda>read_ops len next_len next_buf done m fd y.
    read_ops \<longrightarrow> rx fd = [] \<longrightarrow> rx_end fd = None \<longrightarrow> len \<le> done", OF _ assms], goal_cases)
  case (1 f read_ops len next_len next_buf "done" m fd y)
  show ?case
  proof (intro impI)
    assume eof: "read_ops" "rx fd = []" "rx_end fd = None"
    then have "sys_readv m fd [\<lparr>iov_base = next_buf, iov_len = unat (word_of_int next_len :: u64)\<rparr>] = (Xfer 0, m, fd)"
      by (simp add: sys_readv_def)
    with eof 1(2) have "done = len \<or> f read_ops len (int32 (next_len - int 0)) (next_buf + int 0) (done + 0) m fd = Some y"
      by (simp split: if_splits)
    with 1(1) eof show "len \<le> done" by auto
  qed
qed

lemma io_all_read_short:
  "wf_sock fd \<Longrightarrow> rx_end fd = None \<Longrightarrow> n < 2147483648 \<Longrightarrow> length (pending fd) < n \<Longrightarrow>
   io_all True (done + n) (int n) a done m fd = None"
proof (induction n arbitrary: "done" a m fd rule: less_induct)
  case (less n)
  show ?case
  proof (cases "pending fd = []")
    case True
    then have "rx fd = []" using less.prems(1) by (cases "rx fd") (auto simp: pending_def wf_sock_def)
    with less.prems io_all_eof_aux[of True "done + n" "int n" a "done" m fd] show ?thesis by (cases "io_all True (done + n) (int n) a done m fd") auto
  next
    case ne: False
    have n: "unat (word_of_int (int n) :: u64) = n" using less.prems unat_word_of_int_u64[of "int n"] by (simp del: of_int_of_nat_eq)
    have n0: "0 < n" using less.prems(4) by simp
    obtain k fd1 where k: "0 < k" "k \<le> n" "k \<le> length (pending fd)"
      and r: "sys_readv m fd [\<lparr>iov_base = a, iov_len = n\<rparr>] = (Xfer k, poke m a (take k (pending fd)), fd1)"
      and fd1: "wf_sock fd1" "pending fd1 = drop k (pending fd)" "rx_end fd1 = rx_end fd"
      using sys_readv_one[OF less.prems(1) n0 ne, of m a] by metis
    have i: "int32 (int n - int k) = int (n - k)" using k less.prems by (simp add: int32_id of_nat_diff)
    have "io_all True (done + n) (int n) a done m fd =
        io_all True ((done + k) + (n - k)) (int (n - k)) (a + int k) (done + k) (poke m a (take k (pending fd))) fd1"
      using r n k i less.prems(4) by (subst io_all.simps) (auto simp: Let_def)
    also have "\<dots> = None" using less.prems fd1 k by (intro less.IH) auto
    finally show ?thesis .
  qed
qed

lemma sys_writev_one:
  assumes "writable fd" and "0 < n"
  obtains k fd' where "0 < k" and "k \<le> n" and "sys_writev m fd [\<lparr>iov_base = a, iov_len = n\<rparr>] = (Xfer k, m, fd')"
    and "writable fd'" and "tx fd' = tx fd @ peek m a k"
proof (cases "tx_plan fd")
  case Nil
  with assms show thesis by (intro that[of n "fd\<lparr>tx := tx fd @ peek m a n\<rparr>"]) (simp_all add: sys_writev_def gather_def writable_def)
next
  case (Cons x plan)
  with assms(1) obtain j where j: "x = Inr j" by (cases x) (auto simp: writable_def)
  with Cons assms show thesis
    by (intro that[of "min (Suc j) n" "fd\<lparr>tx := tx fd @ peek m a (min (Suc j) n), tx_plan := plan\<rparr>"])
      (simp_all add: sys_writev_def gather_def writable_def take_peek Let_def)
qed

lemma io_all_write_full:
  "writable fd \<Longrightarrow> 0 < n \<Longrightarrow> n < 2147483648 \<Longrightarrow>
   \<exists>fd'. io_all False (done + n) (int n) a done m fd = Some (Inr (m, fd')) \<and> writable fd' \<and> tx fd' = tx fd @ peek m a n"
proof (induction n arbitrary: "done" a fd rule: less_induct)
  case (less n)
  have n: "unat (word_of_int (int n) :: u64) = n" using less.prems unat_word_of_int_u64[of "int n"] by (simp del: of_int_of_nat_eq)
  obtain k fd1 where k: "0 < k" "k \<le> n" and r: "sys_writev m fd [\<lparr>iov_base = a, iov_len = n\<rparr>] = (Xfer k, m, fd1)"
    and fd1: "writable fd1" "tx fd1 = tx fd @ peek m a k"
    using sys_writev_one[OF less.prems(1,2), of m a] by metis
  show ?case
  proof (cases "k = n")
    case True
    then show ?thesis using r n fd1 by (subst io_all.simps) (simp add: Let_def)
  next
    case False
    have i: "int32 (int n - int k) = int (n - k)" using k less.prems by (simp add: int32_id of_nat_diff)
    have step: "io_all False (done + n) (int n) a done m fd =
        io_all False ((done + k) + (n - k)) (int (n - k)) (a + int k) (done + k) m fd1"
      using r n False k i by (subst io_all.simps) (simp add: Let_def)
    have "peek m a n = peek m a k @ peek m (a + int k) (n - k)" using peek_add[of m a k "n - k"] k by simp
    with step less.IH[of "n - k" fd1 "done + k" "a + int k"] fd1 k less.prems False show ?thesis by auto
  qed
qed

text \<open>Whatever the system calls do, a \<open>write_all\<close> that returns has written the whole buffer.\<close>

lemma io_all_write_sound:
  assumes "io_all read_ops len next_len a done m fd = Some y"
  shows "\<not> read_ops \<longrightarrow> (\<forall>n m' fd'. len = done + n \<and> next_len = int n \<and> 0 < n \<and> n < 2147483648 \<and> y = Inr (m', fd') \<longrightarrow>
    tx fd' = tx fd @ peek m a n)"
proof (rule io_all.raw_induct[where P = "\<lambda>read_ops len next_len a done m fd y. \<not> read_ops \<longrightarrow> (\<forall>n m' fd'.
    len = done + n \<and> next_len = int n \<and> 0 < n \<and> n < 2147483648 \<and> y = Inr (m', fd') \<longrightarrow> tx fd' = tx fd @ peek m a n)", OF _ assms], goal_cases)
  case (1 f read_ops len next_len a "done" m fd y)
  show ?case
  proof (intro impI allI)
    fix n m' fd'
    assume w: "\<not> read_ops" and as: "len = done + n \<and> next_len = int n \<and> 0 < n \<and> n < 2147483648 \<and> y = Inr (m', fd')"
    have n: "unat (word_of_int (int n) :: u64) = n" using as unat_word_of_int_u64[of "int n"] by (simp del: of_int_of_nat_eq)
    let ?iov = "[\<lparr>iov_base = a, iov_len = n\<rparr>]"
    obtain ret m1 fd1 where r: "sys_writev m fd ?iov = (ret, m1, fd1)" by (metis prod_cases3)
    have body: "(case ret of Xfer k \<Rightarrow> if done + k = len then Some (Inr (m1, fd1)) else
        f read_ops len (int32 (next_len - int k)) (a + int k) (done + k) m1 fd1 | Fail e \<Rightarrow> Some (Inl (Err ''read or write error''))) = Some y"
      using 1(2) w as n r by (cases ret) (simp_all add: Let_def)
    show "tx fd' = tx fd @ peek m a n"
    proof (cases ret)
      case (Xfer k)
      with r as have k: "0 < k" "k \<le> n" "m1 = m" "tx fd1 = tx fd @ peek m a k"
        by (auto simp: sys_writev_def gather_def take_peek Let_def split: list.splits sum.splits)
      show ?thesis
      proof (cases "k = n")
        case True
        with body Xfer as k show ?thesis by simp
      next
        case False
        have "int32 (int n - int k) = int (n - k)" using k as by (simp add: int32_id of_nat_diff)
        with body Xfer as k False have "f read_ops len (int (n - k)) (a + int k) (done + k) m fd1 = Some (Inr (m', fd'))" by simp
        from 1(1)[OF this] w as k False have "tx fd' = tx fd1 @ peek m (a + int k) (n - k)" by auto
        moreover have "peek m a n = peek m a k @ peek m (a + int k) (n - k)" using peek_add[of m a k "n - k"] k by simp
        ultimately show ?thesis using k by simp
      qed
    qed (use body as in simp)
  qed
qed

lemma write_all_sound:
  assumes "write_all fd buf = Some (Inr fd')" and "0 < length buf" and "length buf < 2147483648"
  shows "tx fd' = tx fd @ buf"
proof -
  obtain m' where "io_all False (length buf) (int (length buf)) 0 0 (mem_of buf) fd = Some (Inr (m', fd'))"
    using assms by (cases "io_all False (length buf) (int (length buf)) 0 0 (mem_of buf) fd")
      (auto simp: write_all_def int32_of_nat map_sum_def split: sum.splits)
  from io_all_write_sound[OF this] assms show ?thesis by auto
qed

lemma write_all_full:
  assumes "writable fd" and "0 < length buf" and "length buf < 2147483648"
  shows "\<exists>fd'. write_all fd buf = Some (Inr fd') \<and> writable fd' \<and> tx fd' = tx fd @ buf"
  using io_all_write_full[OF assms, of 0 0 "mem_of buf"] assms(3) by (auto simp: write_all_def int32_of_nat)

section \<open>Properties\<close>

text \<open>
  C16. \<open>read_all\<close> returns exactly when the peer sends enough: given at least as many bytes as asked
  for, it fills the buffer with the next ones and consumes exactly those, however they are cut; on a peer
  that closes too early it never returns, since it goes on after a \<open>read\<close> of 0 bytes.
\<close>

theorem read_all_returns_iff_enough:
  assumes "wf_sock fd" and "rx_end fd = None" and "0 < length buf" and "length buf < 2147483648"
  shows "(length buf \<le> length (pending fd) \<longrightarrow>
      (\<exists>fd'. read_all fd buf = Some (Inr (take (length buf) (pending fd), fd')) \<and> pending fd' = drop (length buf) (pending fd))) \<and>
    (length (pending fd) < length buf \<longrightarrow> read_all fd buf = None)"
  using io_all_read_enough[OF assms(1,3,4), of 0 0 "mem_of buf"] io_all_read_short[OF assms(1,2,4), of 0 0 "mem_of buf"]
    assms(4) by (auto simp: read_all_def int32_of_nat)

theorem read_all_returns_iff_enough_witness:
  "\<exists>fd'. read_all \<lparr>rx = [[1], [2, 3]], rx_end = None, tx = [], tx_plan = []\<rparr> [0, 0] = Some (Inr ([1, 2], fd')) \<and>
     read_all \<lparr>rx = [[1]], rx_end = None, tx = [], tx_plan = []\<rparr> [0, 0] = None"
  using read_all_returns_iff_enough[of "\<lparr>rx = [[1], [2, 3]], rx_end = None, tx = [], tx_plan = []\<rparr>" "[0, 0]"]
    read_all_returns_iff_enough[of "\<lparr>rx = [[1]], rx_end = None, tx = [], tx_plan = []\<rparr>" "[0, 0]"]
  by (auto simp: wf_sock_def pending_def)

lemma get_line_loop_reads:
  "wf_sock fd \<Longrightarrow> newline \<notin> set msg \<Longrightarrow> pending fd = msg @ newline # rest \<Longrightarrow> length msg < k \<Longrightarrow>
   \<exists>fd'. get_line_loop k line fd = (Some (line @ msg), fd') \<and> wf_sock fd' \<and> pending fd' = rest \<and> tx_part fd' = tx_part fd"
proof (induction msg arbitrary: k line fd)
  case Nil
  then obtain k' where k: "k = Suc k'" by (cases k) auto
  have ne: "pending fd \<noteq> []" using Nil by simp
  from sys_readv_one[OF Nil.prems(1) zero_less_one ne, of "mem_of [48]" 0] obtain fd' where
    "sys_readv (mem_of [48]) fd [\<lparr>iov_base = 0, iov_len = 1\<rparr>] = (Xfer 1, poke (mem_of [48]) 0 (take 1 (pending fd)), fd')"
    "wf_sock fd'" "pending fd' = drop 1 (pending fd)" "tx_part fd' = tx_part fd" by (metis One_nat_def Suc_leI le_antisym)
  then show ?case using Nil.prems k by (simp add: iov1_def poke_def)
next
  case (Cons c msg)
  then obtain k' where k: "k = Suc k'" by (cases k) auto
  have ne: "pending fd \<noteq> []" using Cons by simp
  from sys_readv_one[OF Cons.prems(1) zero_less_one ne, of "mem_of [48]" 0] obtain fd1 where
    r: "sys_readv (mem_of [48]) fd [\<lparr>iov_base = 0, iov_len = 1\<rparr>] = (Xfer 1, poke (mem_of [48]) 0 (take 1 (pending fd)), fd1)"
    and fd1: "wf_sock fd1" "pending fd1 = drop 1 (pending fd)" "tx_part fd1 = tx_part fd" by (metis One_nat_def Suc_leI le_antisym)
  have "get_line_loop k line fd = get_line_loop k' (line @ [c]) fd1"
    using r k Cons.prems by (auto simp: iov1_def poke_def)
  with Cons.IH[of fd1 k' "line @ [c]"] fd1 Cons.prems k show ?case by auto
qed

text \<open>
  A line written by \<open>put_line\<close> is read back by \<open>get_line\<close>, whatever follows it on the stream
  and however it is cut; a message of 98 bytes or more is refused and nothing is sent.
\<close>

lemma line_roundtrip:
  assumes "writable w" and "wf_sock r" and "newline \<notin> set msg"
  shows "(if length msg < 98 then
      \<exists>w'. put_line w msg = (0, w') \<and> tx w' = tx w @ msg @ [newline] \<and>
        (\<forall>rest. pending r = msg @ [newline] @ rest \<longrightarrow> (\<exists>r'. get_line r = (Some msg, r') \<and> pending r' = rest))
    else put_line w msg = (-1, w))"
proof (cases "length msg < 98")
  case True
  from net_out.send_full[OF assms(1), of "msg @ [newline]" 0] True
  obtain w' where "put_line w msg = (0, w')" "tx w' = tx w @ msg @ [newline]" by (auto simp: put_line_def)
  moreover have "\<exists>r'. get_line r = (Some msg, r') \<and> pending r' = rest" if "pending r = msg @ [newline] @ rest" for rest
    using get_line_loop_reads[OF assms(2,3), of rest 100 "[]"] that True by (auto simp: get_line_def)
  ultimately show ?thesis using True by auto
qed (simp add: put_line_def)

lemma line_roundtrip_witness:
  "\<exists>r'. get_line \<lparr>rx = [[104], [105, 10, 99]], rx_end = None, tx = [], tx_plan = []\<rparr> = (Some [104, 105], r') \<and> pending r' = [99]"
  using line_roundtrip[of "\<lparr>rx = [], rx_end = None, tx = [], tx_plan = []\<rparr>" "\<lparr>rx = [[104], [105, 10, 99]], rx_end = None, tx = [], tx_plan = []\<rparr>"
    "[104, 105]"] by (auto simp: wf_sock_def pending_def writable_def)

end
