(* ===== verification/Target.thy ===== *)
theory Target
  imports Disk_Spec Block_Region Io
begin

text \<open>
  \<open>xnbd_target.c\<close>: the server that exports a local disk image. The state of a session
  is the disk image, its size and mode, the client's socket and \<open>errno\<close>. What the kernel does in a round of the loop
  (the outcome of \<open>poll\<close>, \<open>mmap\<close>, \<open>munmap\<close>, \<open>malloc\<close>, \<open>fsync\<close> and \<open>fallocate\<close>, and where a read of the
  disk fails) is a \<open>tkern\<close>. A round returns its code or how the process stopped, always with the state reached.
\<close>

section \<open>Serving one request\<close>

record tkern =
  tk_poll :: poll_result
  tk_mmap :: mmap_fn
  tk_munmap :: bool
  tk_malloc :: bool
  tk_read :: "(nat \<times> nat) option"
  tk_fsync :: "nat option"
  tk_fallocate :: bool

record tstate =
  t_disk :: mem
  t_disksize :: int
  t_readonly :: bool
  t_sock :: sock
  t_errno :: nat

text \<open>
  The descriptor of a disk image positioned by \<open>lseek\<close>: it delivers the rest of the file, or fails with
  an error after some bytes.
\<close>

definition file_fd :: "mem \<Rightarrow> int \<Rightarrow> int \<Rightarrow> (nat \<times> nat) option \<Rightarrow> sock" where
  "file_fd disk disksize off fail =
     (let bs = peek disk off (nat (disksize - off)); got = (case fail of None \<Rightarrow> bs | Some (k, e) \<Rightarrow> take k bs)
      in \<lparr>rx = (if got = [] then [] else [got]), rx_end = map_option snd fail, tx = [], tx_plan = []\<rparr>)"

definition target_write :: "tkern \<Rightarrow> nbd_reply \<Rightarrow> int \<Rightarrow> u64 \<Rightarrow> tstate \<Rightarrow> (stop + int) \<times> tstate" where
  "target_write k reply iofrom iolen st =
     (case mmap_region_create (tk_mmap k) iofrom iolen (t_readonly st) of
        Inl x \<Rightarrow> (Inl x, st)
      | Inr mpinfo \<Rightarrow>
          let iobuf = (case mr_iobuf mpinfo of None \<Rightarrow> 0 | Some p \<Rightarrow> p) in
          case net_readv_all_or_error (t_disk st) (t_sock st) [\<lparr>iov_base = iobuf, iov_len = unat iolen\<rparr>] (t_errno st) of
            (ret, disk', s', e') \<Rightarrow>
              let st' = st\<lparr>t_disk := disk', t_sock := s', t_errno := e'\<rparr> in
              if ret < 0 \<and> e' \<noteq> EIO then (Inl (Err ''CMD_WRITE: fatal error''), st')
              else let reply' = (if ret < 0 then reply\<lparr>rp_error := htonl (of_nat EIO)\<rparr> else reply) in
                case net_send_all_or_abort s' (enc_reply reply') e' of
                  Inl x \<Rightarrow> (Inl x, st')
                | Inr (s'', e'') \<Rightarrow>
                    (case mmap_region_free (tk_munmap k) mpinfo of
                       Inl x \<Rightarrow> (Inl x, st')
                     | Inr _ \<Rightarrow> (Inr 0, st'\<lparr>t_sock := s'', t_errno := e''\<rparr>)))"

text \<open>
  The reply structure and the buffer lie at addresses 0 and 16 of a scratch memory; \<open>iov\<close> points
  to the first alone when the disk could not be read.
\<close>

definition target_read :: "tkern \<Rightarrow> nbd_reply \<Rightarrow> int \<Rightarrow> u64 \<Rightarrow> tstate \<Rightarrow> (stop + int) \<times> tstate" where
  "target_read k reply iofrom iolen st =
     (if iofrom < 0 then (Inl (Err ''CMD_READ: lseek''), st)
      else if \<not> tk_malloc k then (Inl (Err ''g_malloc''), st)
      else case net_recv_all_or_error (file_fd (t_disk st) (t_disksize st) iofrom (tk_read k)) (replicate (unat iolen) 0) (t_errno st) of
        (ret, buf, _, e') \<Rightarrow>
          let st' = st\<lparr>t_errno := e'\<rparr> in
          if ret < 0 \<and> e' \<noteq> EIO then (Inl (Err ''CMD_READ: fatal error''), st')
          else let reply' = (if ret < 0 then reply\<lparr>rp_error := htonl (of_nat EIO)\<rparr> else reply);
                   m = mem_of (enc_reply reply' @ buf);
                   iov0 = \<lparr>iov_base = 0, iov_len = 16\<rparr>;
                   iov = (if rp_error reply' = 0 then [iov0, \<lparr>iov_base = 16, iov_len = unat iolen\<rparr>] else [iov0])
               in case net_writev_all_or_abort m (t_sock st') iov e' of
                 Inl x \<Rightarrow> (Inl x, st')
               | Inr (s'', e'') \<Rightarrow> (Inr 0, st'\<lparr>t_sock := s'', t_errno := e''\<rparr>))"

definition target_flush :: "tkern \<Rightarrow> nbd_reply \<Rightarrow> tstate \<Rightarrow> (stop + int) \<times> tstate" where
  "target_flush k reply st =
     (let st' = (case tk_fsync k of None \<Rightarrow> st | Some e \<Rightarrow> st\<lparr>t_errno := e\<rparr>) in
      if tk_fsync k \<noteq> None \<and> tk_fsync k \<noteq> Some EIO then (Inl (Err ''CMD_FLUSH: fatal error''), st')
      else let reply' = (if tk_fsync k = Some EIO then reply\<lparr>rp_error := htonl (of_nat EIO)\<rparr> else reply)
           in case net_send_all_or_abort (t_sock st') (enc_reply reply') (t_errno st') of
             Inl x \<Rightarrow> (Inl x, st')
           | Inr (s'', e'') \<Rightarrow> (Inr 0, st'\<lparr>t_sock := s'', t_errno := e''\<rparr>))"

text \<open>One round. The case of \<open>NBD_CMD_TRIM\<close> has no \<open>break\<close> and runs into the default.\<close>

definition target_mode_main_mmap :: "tkern \<Rightarrow> tstate \<Rightarrow> (stop + int) \<times> tstate" where
  "target_mode_main_mmap k st =
     (case poll_request_arrival (tk_poll k) of
        Inl x \<Rightarrow> (Inl x, st)
      | Inr ret \<Rightarrow>
      if ret < 0 then (Inr (-1), st)
      else case nbd_server_recv_request (t_sock st) (t_disksize st) fresh_out of (ret, q, s') \<Rightarrow>
        let st' = st\<lparr>t_sock := s'\<rparr>; iotype = iotype_arg q; iofrom = iofrom_arg q; iolen = iolen_arg q; reply = reply_arg q in
        if ret = NBD_SERVER_RECV__BAD_REQUEST then
          (case net_send_all_or_abort s' (enc_reply reply) (t_errno st') of
             Inl x \<Rightarrow> (Inl x, st')
           | Inr (s'', e'') \<Rightarrow> (Inr 0, st'\<lparr>t_sock := s'', t_errno := e''\<rparr>))
        else if ret = NBD_SERVER_RECV__MAGIC_MISMATCH then (Inl (Err ''client bug: invalid header''), st')
        else if ret = NBD_SERVER_RECV__TERMINATE then (Inr ret, st')
        else if t_readonly st' \<and> (iotype = NBD_CMD_WRITE \<or> iotype = NBD_CMD_TRIM) then (Inl (Err ''write to a readonly disk''), st')
        else if iotype = NBD_CMD_WRITE then target_write k reply iofrom iolen st'
        else if iotype = NBD_CMD_READ then target_read k reply iofrom iolen st'
        else if iotype = NBD_CMD_FLUSH then target_flush k reply st'
        else if iotype = NBD_CMD_TRIM then
          (Inl (Err ''unknown command in the target mode''),
           st'\<lparr>t_disk := punch_hole (tk_fallocate k) (t_disk st') iofrom (uint iolen)\<rparr>)
        else (Inl (Err ''unknown command in the target mode''), st'))"

definition xnbd_target_session_server :: "tkern list \<Rightarrow> tstate \<Rightarrow> (stop + int) option \<times> tstate" where
  "xnbd_target_session_server ks st = session_loop target_mode_main_mmap ks st"

definition xnbd_target_open_disk :: "bool \<Rightarrow> nat option \<Rightarrow> stat_buf \<Rightarrow> int \<Rightarrow> mem \<Rightarrow> bool \<Rightarrow> sock \<Rightarrow> stop + tstate" where
  "xnbd_target_open_disk open_ok fstat_err sb seek_end disk readonly client =
     (if \<not> open_ok then Inl (Err ''open'')
      else bindE (get_disksize fstat_err sb seek_end) (\<lambda>disksize.
        Inr \<lparr>t_disk = disk, t_disksize = disksize, t_readonly = readonly, t_sock = client, t_errno = 0\<rparr>))"

section \<open>One round implements the abstract server\<close>

text \<open>A kernel that works: a request has arrived and no system call fails.\<close>

definition kernel_ok :: "int \<Rightarrow> tkern \<Rightarrow> bool" where
  "kernel_ok disksize k \<longleftrightarrow> tk_poll k = PollReady True False \<and> mmap_works (tk_mmap k) disksize False \<and> tk_munmap k \<and>
     tk_malloc k \<and> tk_read k = None \<and> tk_fsync k = None"

lemma mmap_region_create_ok:
  assumes "mmap_works kern disksize readonly" and "0 \<le> iofrom" and "0 < uint iolen" and "iofrom + uint iolen \<le> disksize"
    and "disksize < 9223372036854771712"
  shows "\<exists>mr. mmap_region_create kern iofrom iolen readonly = Inr mr \<and> mr_iobuf mr = Some iofrom"
proof -
  let ?pa = "iofrom div 4096 * 4096"
  have pa: "0 \<le> ?pa" "?pa \<le> iofrom" "iofrom - ?pa < 4096" using div_4096_bounds[of iofrom] assms(2) by auto
  have len: "iolen + word_of_int (iofrom - ?pa) = (word_of_int (uint iolen + (iofrom - ?pa)) :: u64)" by simp
  have u: "uint (iolen + word_of_int (iofrom - ?pa)) = uint iolen + (iofrom - ?pa)"
    unfolding len using pa assms by (intro uint_word_of_int_u64) linarith+
  then have "iolen + word_of_int (iofrom - ?pa) \<noteq> 0" using pa assms(3) by (auto simp: uint_0_iff[symmetric])
  moreover have "kern ?pa (iolen + word_of_int (iofrom - ?pa)) readonly"
    using assms(1) pa u assms(4) calculation by (auto simp: mmap_works_def)
  ultimately show ?thesis by (simp add: mmap_region_create_def and_m4096 Let_def)
qed

lemma net_readv_full:
  assumes "wf_sock s" and "n < 2147483648" and "n \<le> length (pending s)"
  shows "\<exists>s'. net_readv_all_or_error m s [\<lparr>iov_base = a, iov_len = n\<rparr>] e = (int n, poke m a (take n (pending s)), s', e) \<and>
    wf_sock s' \<and> pending s' = drop n (pending s) \<and> tx_part s' = tx_part s"
proof -
  obtain segs where "net_iov_all True [\<lparr>iov_base = a, iov_len = n\<rparr>] 0 m s e =
      (int n, scatter m [\<lparr>iov_base = a, iov_len = n\<rparr>] (pending s), s\<lparr>rx := segs\<rparr>, e)"
    and "concat segs = drop n (pending s)" and "[] \<notin> set segs"
    using net_iov_all_read_full[of "[\<lparr>iov_base = a, iov_len = n\<rparr>]" s 0 m e] assms by auto
  then show ?thesis using assms(2)
    by (intro exI[of _ "s\<lparr>rx := segs\<rparr>"]) (simp add: net_readv_all_or_error_def int32_of_nat wf_sock_def pending_def tx_part_def)
qed

lemma sock_part_simps:
  "tx_part s' = tx_part s \<Longrightarrow> tx s' = tx s \<and> writable s' = writable s"
  "rx_part s' = rx_part s \<Longrightarrow> pending s' = pending s \<and> wf_sock s' = wf_sock s"
  by (auto simp: tx_part_def rx_part_def writable_def pending_def wf_sock_def)

lemma target_write_ok:
  assumes "kernel_ok (t_disksize st) k" and "\<not> t_readonly st" and "wf_sock (t_sock st)" and "writable (t_sock st)"
    and "pending (t_sock st) = bs @ rest" and "0 \<le> iofrom" and "bs \<noteq> []" and "iofrom + int (length bs) \<le> t_disksize st"
    and "length bs < 2147483632" and "t_disksize st < 9223372036854771712"
  shows "\<exists>s'. target_write k reply iofrom (of_nat (length bs)) st = (Inr 0, st\<lparr>t_disk := poke (t_disk st) iofrom bs, t_sock := s'\<rparr>) \<and>
    wf_sock s' \<and> writable s' \<and> pending s' = rest \<and> tx s' = tx (t_sock st) @ enc_reply reply"
proof -
  note len = of_nat_len[OF assms(9)]
  obtain mr where mr: "mmap_region_create (tk_mmap k) iofrom (of_nat (length bs)) False = Inr mr" "mr_iobuf mr = Some iofrom"
    using mmap_region_create_ok[of "tk_mmap k" "t_disksize st" False iofrom "of_nat (length bs)"] assms len by (auto simp: kernel_ok_def)
  obtain s1 where s1: "net_readv_all_or_error (t_disk st) (t_sock st) [\<lparr>iov_base = iofrom, iov_len = length bs\<rparr>] (t_errno st) =
      (int (length bs), poke (t_disk st) iofrom bs, s1, t_errno st)" "wf_sock s1" "pending s1 = rest" "tx_part s1 = tx_part (t_sock st)"
    using net_readv_full[OF assms(3), of "length bs" "t_disk st" iofrom "t_errno st"] assms by auto
  then have w1: "writable s1" "tx s1 = tx (t_sock st)" using assms(4) sock_part_simps(1)[OF s1(4)] by simp_all
  obtain s2 where s2: "net_send_all_or_abort s1 (enc_reply reply) (t_errno st) = Inr (s2, t_errno st)" "writable s2"
      "tx s2 = tx s1 @ enc_reply reply" "rx_part s2 = rx_part s1"
    using net_send_all_or_abort_full[OF w1(1), of "enc_reply reply" "t_errno st"] by auto
  have "target_write k reply iofrom (of_nat (length bs)) st = (Inr 0, st\<lparr>t_disk := poke (t_disk st) iofrom bs, t_sock := s2\<rparr>)"
    using mr s1(1) s2(1) assms(1,2) len by (simp add: target_write_def mmap_region_free_def kernel_ok_def)
  with s1 s2 w1 sock_part_simps(2)[OF s2(4)] show ?thesis by (intro exI[of _ s2]) simp
qed

lemma file_fd_ok: "wf_sock (file_fd d sz off None)" "pending (file_fd d sz off None) = peek d off (nat (sz - off))"
  by (auto simp: file_fd_def wf_sock_def pending_def Let_def)

lemma gather_reply: "length buf = n \<Longrightarrow>
    gather (mem_of (enc_reply r @ buf)) [\<lparr>iov_base = 0, iov_len = 16\<rparr>, \<lparr>iov_base = 16, iov_len = n\<rparr>] = enc_reply r @ buf"
proof -
  assume n: "length buf = n"
  have "peek (mem_of (enc_reply r @ buf)) 0 (16 + n) = enc_reply r @ buf" using n by (simp add: peek_mem_of)
  then show ?thesis by (simp add: gather_def peek_add)
qed

lemma target_read_ok:
  assumes "kernel_ok (t_disksize st) k" and "wf_sock (t_sock st)" and "writable (t_sock st)" and "0 \<le> iofrom"
    and "0 < uint len" and "iofrom + uint len \<le> t_disksize st" and "uint len < 2147483632" and "rp_error reply = 0"
  shows "\<exists>s'. target_read k reply iofrom len st = (Inr 0, st\<lparr>t_sock := s'\<rparr>) \<and> wf_sock s' \<and> writable s' \<and>
    pending s' = pending (t_sock st) \<and> tx s' = tx (t_sock st) @ enc_reply reply @ peek (t_disk st) iofrom (unat len)"
proof -
  let ?fd = "file_fd (t_disk st) (t_disksize st) iofrom None" and ?buf = "peek (t_disk st) iofrom (unat len)"
  have n: "int (unat len) = uint len" by simp
  then have n': "unat len < 2147483632" using assms(7) by linarith
  have "unat len \<le> nat (t_disksize st - iofrom)" using assms(6) n by linarith
  then have take: "take (unat len) (pending ?fd) = ?buf" "unat len \<le> length (pending ?fd)"
    by (simp_all add: file_fd_ok take_peek min_absorb1)
  obtain fd' where r: "net_recv_all_or_error ?fd (replicate (unat len) 0) (t_errno st) = (int (unat len), ?buf, fd', t_errno st)"
    using net_recv_all_or_error_full[OF file_fd_ok(1), of "replicate (unat len) 0" "t_disk st" "t_disksize st" iofrom "t_errno st"] take n'
    by (simp del: file_fd_ok) blast
  let ?iov = "[\<lparr>iov_base = 0, iov_len = 16\<rparr>, \<lparr>iov_base = 16, iov_len = unat len\<rparr>]"
  obtain s' where s': "net_writev_all_or_abort (mem_of (enc_reply reply @ ?buf)) (t_sock st) ?iov (t_errno st) = Inr (s', t_errno st)"
      "writable s'" "tx s' = tx (t_sock st) @ enc_reply reply @ ?buf" "rx_part s' = rx_part (t_sock st)"
    using net_writev_all_or_abort_full[OF assms(3), of ?iov "mem_of (enc_reply reply @ ?buf)" "t_errno st"] n'
    by (auto simp: gather_reply)
  have "target_read k reply iofrom len st = (Inr 0, st\<lparr>t_sock := s'\<rparr>)"
    using r s'(1) assms by (simp add: target_read_def kernel_ok_def)
  with s' assms(2) sock_part_simps(2)[OF s'(4)] show ?thesis by (intro exI[of _ s']) simp
qed

lemma target_flush_ok:
  assumes "kernel_ok (t_disksize st) k" and "wf_sock (t_sock st)" and "writable (t_sock st)"
  shows "\<exists>s'. target_flush k reply st = (Inr 0, st\<lparr>t_sock := s'\<rparr>) \<and> wf_sock s' \<and> writable s' \<and>
    pending s' = pending (t_sock st) \<and> tx s' = tx (t_sock st) @ enc_reply reply"
proof -
  obtain s' where s': "net_send_all_or_abort (t_sock st) (enc_reply reply) (t_errno st) = Inr (s', t_errno st)" "writable s'"
      "tx s' = tx (t_sock st) @ enc_reply reply" "rx_part s' = rx_part (t_sock st)"
    using net_send_all_or_abort_full[OF assms(3), of "enc_reply reply" "t_errno st"] by auto
  with assms sock_part_simps(2)[OF s'(4)] show ?thesis
    by (intro exI[of _ s']) (simp add: target_flush_def kernel_ok_def)
qed

text \<open>The header of a request leads to its case of the \<open>switch\<close>.\<close>

lemma target_dispatch:
  assumes "tk_poll k = PollReady True False" and "nbd_server_recv_request (t_sock st) (t_disksize st) fresh_out =
      (0, \<lparr>iotype_arg = iotype, iofrom_arg = iofrom, iolen_arg = iolen, reply_arg = reply\<rparr>, s')"
    and "t_readonly st \<longrightarrow> iotype = NBD_CMD_READ \<or> iotype = NBD_CMD_FLUSH"
    and "iotype = NBD_CMD_READ \<or> iotype = NBD_CMD_WRITE \<or> iotype = NBD_CMD_FLUSH"
  shows "target_mode_main_mmap k st =
    (if iotype = NBD_CMD_WRITE then target_write k reply iofrom iolen (st\<lparr>t_sock := s'\<rparr>)
     else if iotype = NBD_CMD_READ then target_read k reply iofrom iolen (st\<lparr>t_sock := s'\<rparr>)
     else target_flush k reply (st\<lparr>t_sock := s'\<rparr>))"
  using assms by (auto simp: target_mode_main_mmap_def poll_request_arrival_def wait_until_readable_def Let_def)

lemma target_round:
  assumes "kernel_ok (t_disksize st) k" and "sane (t_disksize st) r" and "t_readonly st \<longrightarrow> \<not> writes r"
    and "0 \<le> t_disksize st" and "t_disksize st < 9223372036854771712" and "wf_sock (t_sock st)" and "writable (t_sock st)"
    and "pending (t_sock st) = enc_req r @ rest"
  shows "\<exists>s'. target_mode_main_mmap k st = (Inr 0, st\<lparr>t_disk := snd (serve_spec (t_disk st) r), t_sock := s'\<rparr>) \<and> wf_sock s' \<and>
    writable s' \<and> pending s' = rest \<and> tx s' = tx (t_sock st) @ fst (serve_spec (t_disk st) r)"
proof (cases r)
  case (ReadReq h iofrom len)
  then obtain s1 where s1: "nbd_server_recv_request (t_sock st) (t_disksize st) fresh_out =
      (0, \<lparr>iotype_arg = 0, iofrom_arg = iofrom, iolen_arg = len, reply_arg = ok_reply h\<rparr>, s1)"
      "wf_sock s1" "pending s1 = rest" "tx_part s1 = tx_part (t_sock st)"
    using recv_req_header[of "t_sock st" iofrom len "t_disksize st" 0 h rest] assms by auto
  from target_read_ok[of "st\<lparr>t_sock := s1\<rparr>" k iofrom len "ok_reply h"] s1 assms ReadReq sock_part_simps(1)[OF s1(4)]
    target_dispatch[OF _ s1(1)]
  show ?thesis by (auto simp: kernel_ok_def ok_reply_def)
next
  case (WriteReq h iofrom bs)
  have len: "uint (of_nat (length bs) :: u64) = int (length bs)" using assms(2) WriteReq of_nat_len by auto
  obtain s1 where s1: "nbd_server_recv_request (t_sock st) (t_disksize st) fresh_out =
      (0, \<lparr>iotype_arg = 1, iofrom_arg = iofrom, iolen_arg = of_nat (length bs), reply_arg = ok_reply h\<rparr>, s1)"
      "wf_sock s1" "pending s1 = bs @ rest" "tx_part s1 = tx_part (t_sock st)"
    using recv_req_header[of "t_sock st" iofrom "of_nat (length bs)" "t_disksize st" 1 h "bs @ rest"] assms WriteReq len by auto
  from target_write_ok[of "st\<lparr>t_sock := s1\<rparr>" k bs rest iofrom "ok_reply h"] s1 assms WriteReq sock_part_simps(1)[OF s1(4)]
    target_dispatch[OF _ s1(1)]
  show ?thesis by (auto simp: kernel_ok_def)
next
  case (FlushReq h)
  then obtain s1 where s1: "nbd_server_recv_request (t_sock st) (t_disksize st) fresh_out =
      (0, \<lparr>iotype_arg = 3, iofrom_arg = 0, iolen_arg = 0, reply_arg = ok_reply h\<rparr>, s1)"
      "wf_sock s1" "pending s1 = rest" "tx_part s1 = tx_part (t_sock st)"
    using recv_req_header[of "t_sock st" 0 0 "t_disksize st" 3 h rest] assms by auto
  from target_flush_ok[of "st\<lparr>t_sock := s1\<rparr>" k "ok_reply h"] s1 assms FlushReq sock_part_simps(1)[OF s1(4)]
    target_dispatch[OF _ s1(1)]
  show ?thesis by (auto simp: kernel_ok_def)
qed

interpretation tgt: sync_server target_mode_main_mmap t_sock t_disk
  "\<lambda>st. t_disksize st = D \<and> 0 \<le> D \<and> D < 9223372036854771712" "kernel_ok D"
  "\<lambda>st r. sane D r \<and> (t_readonly st \<longrightarrow> \<not> writes r)" for D
proof (unfold_locales, goal_cases)
  case (1 st k r rest)
  then show ?case using target_round[of st k r rest] by (auto simp: fun_eq_iff)
next
  case (2 st k h f l rest)
  then show ?case
    using recv_disc[of "t_sock st" h f l rest "t_disksize st" fresh_out]
    by (auto simp: target_mode_main_mmap_def poll_request_arrival_def wait_until_readable_def kernel_ok_def Let_def dest!: sock_part_simps(1))
qed

section \<open>Properties of a session\<close>

text \<open>
  C3. A session of the target server refines the abstract server: for any sequence of reads, writes
  (to a writable disk) and flushes inside the disk, followed by a disconnect, it serves every request
  in order, sends exactly the replies of the abstract server under the handles of the requests, leaves
  exactly the abstract disk, and ends.
\<close>

theorem target_session_refines:
  assumes "0 \<le> t_disksize st" and "t_disksize st < 9223372036854771712" and "wf_sock (t_sock st)" and "writable (t_sock st)"
    and "length ks = length rs" and "list_all (kernel_ok (t_disksize st)) ks" and "kernel_ok (t_disksize st) k0"
    and "list_all (\<lambda>r. sane (t_disksize st) r \<and> (t_readonly st \<longrightarrow> \<not> writes r)) rs"
    and "pending (t_sock st) = concat (map enc_req rs) @ enc_request \<lparr>rq_magic = htonl NBD_REQUEST_MAGIC, rq_type = htonl NBD_CMD_DISC,
      rq_handle = h, rq_from = f, rq_len = l\<rparr> @ rest"
  shows "\<exists>st'. xnbd_target_session_server (ks @ [k0]) st = (Some (Inr NBD_SERVER_RECV__TERMINATE), st') \<and>
    tx (t_sock st') = tx (t_sock st) @ fst (run_spec (t_disk st) rs) \<and> t_disk st' = snd (run_spec (t_disk st) rs)"
  unfolding xnbd_target_session_server_def using assms
  by (intro tgt.session_until_disconnect[where D = "t_disksize st" and h = h and f = f and l = l and rest = rest]) (auto simp: list_all_iff)

definition works_kern :: tkern where
  "works_kern = \<lparr>tk_poll = PollReady True False, tk_mmap = \<lambda>_ _ _. True, tk_munmap = True, tk_malloc = True, tk_read = None,
     tk_fsync = None, tk_fallocate = True\<rparr>"

lemma works_kern: "kernel_ok D works_kern"
  by (simp add: kernel_ok_def works_kern_def mmap_works_def)

definition disc_request :: bytes where
  "disc_request = enc_request \<lparr>rq_magic = htonl NBD_REQUEST_MAGIC, rq_type = htonl NBD_CMD_DISC, rq_handle = 0, rq_from = 0, rq_len = 0\<rparr>"

lemma disc_request_Cons: "disc_request \<noteq> []"
  using length_enc(1) by (metis disc_request_def list.size(3) zero_neq_numeral)

theorem target_session_refines_witness:
  "\<exists>st'. xnbd_target_session_server [works_kern, works_kern, works_kern] \<lparr>t_disk = \<lambda>_. 0, t_disksize = 8192, t_readonly = False,
      t_sock = \<lparr>rx = [enc_req (WriteReq 1 10 [7, 8]) @ enc_req (ReadReq 2 9 4) @ disc_request], rx_end = None, tx = [], tx_plan = [Inr 4]\<rparr>,
      t_errno = 0\<rparr> = (Some (Inr (-3)), st') \<and>
    tx (t_sock st') = enc_reply (ok_reply 1) @ enc_reply (ok_reply 2) @ [0, 7, 8, 0]"
proof -
  let ?st = "\<lparr>t_disk = \<lambda>_. 0, t_disksize = 8192, t_readonly = False,
      t_sock = \<lparr>rx = [enc_req (WriteReq 1 10 [7, 8]) @ enc_req (ReadReq 2 9 4) @ disc_request], rx_end = None, tx = [], tx_plan = [Inr 4]\<rparr>,
      t_errno = 0\<rparr> :: tstate"
  have "peek (poke (\<lambda>_. 0) 10 [7, 8]) 9 4 = [0, 7, 8, 0 :: u8]"
    by (simp add: peek_def poke_def upt_rec numeral_eq_Suc)
  then show ?thesis
    using target_session_refines[of ?st "[works_kern, works_kern]" "[WriteReq 1 10 [7, 8], ReadReq 2 9 4]" works_kern 0 0 0 "[]"]
      disc_request_Cons
    by (auto simp: works_kern wf_sock_def writable_def pending_def disc_request_def)
qed

lemma readonly_round: "t_readonly st \<Longrightarrow> t_disk (snd (target_mode_main_mmap k st)) = t_disk st \<and> t_readonly (snd (target_mode_main_mmap k st))"
  by (auto simp: target_mode_main_mmap_def target_read_def target_flush_def Let_def split: sum.splits prod.splits option.splits)

text \<open>
  C17. A read-only export is never modified: whatever the client sends and whatever the system
  calls answer, the disk image is the same when the session waits, ends or aborts.
\<close>

theorem readonly_disk_untouched:
  assumes "t_readonly st"
  shows "t_disk (snd (xnbd_target_session_server ks st)) = t_disk st"
proof -
  have "t_readonly st \<Longrightarrow> t_disk (snd (session_loop target_mode_main_mmap ks st)) = t_disk st" for st
  proof (induction ks arbitrary: st)
    case (Cons k ks)
    from readonly_round[OF Cons.prems, of k] Cons.IH[of "snd (target_mode_main_mmap k st)"]
    show ?case by (auto split: prod.splits sum.splits)
  qed simp
  with assms show ?thesis by (simp add: xnbd_target_session_server_def)
qed

theorem readonly_disk_untouched_witness:
  "t_disk (snd (xnbd_target_session_server [works_kern] \<lparr>t_disk = \<lambda>_. 5, t_disksize = 8192, t_readonly = True,
      t_sock = \<lparr>rx = [enc_req (WriteReq 1 10 [7, 8])], rx_end = None, tx = [], tx_plan = []\<rparr>, t_errno = 0\<rparr>)) 10 = 5"
  using readonly_disk_untouched[of "\<lparr>t_disk = \<lambda>_. 5, t_disksize = 8192, t_readonly = True,
      t_sock = \<lparr>rx = [enc_req (WriteReq 1 10 [7, 8])], rx_end = None, tx = [], tx_plan = []\<rparr>, t_errno = 0\<rparr>" "[works_kern]"] by simp

text \<open>
  A trim request inside a writable disk is carried out and then stops the worker, unanswered: its
  case of the \<open>switch\<close> has no \<open>break\<close>.
\<close>

lemma trim_stops_target:
  assumes "wf_sock (t_sock st)" and "\<not> t_readonly st" and "tk_poll k = PollReady True False" and "0 \<le> iofrom"
    and "iofrom + uint len \<le> t_disksize st" and "t_disksize st \<le> 0x7FFFFFFFFFFFFFFF" and "uint len < 2147483632"
    and "pending (t_sock st) = req_header NBD_CMD_TRIM h iofrom len @ rest"
  shows "\<exists>e st'. target_mode_main_mmap k st = (Inl (Err e), st') \<and> tx (t_sock st') = tx (t_sock st) \<and>
    t_disk st' = punch_hole (tk_fallocate k) (t_disk st) iofrom (uint len)"
proof -
  obtain s1 where s1: "nbd_server_recv_request (t_sock st) (t_disksize st) fresh_out =
      (0, \<lparr>iotype_arg = 4, iofrom_arg = iofrom, iolen_arg = len, reply_arg = ok_reply h\<rparr>, s1)" "tx_part s1 = tx_part (t_sock st)"
    using recv_req_header[OF assms(1,4,5,6,7) _ _ assms(8)] by auto
  then show ?thesis using assms(2,3) sock_part_simps(1)[OF s1(2)]
    by (auto simp: target_mode_main_mmap_def poll_request_arrival_def wait_until_readable_def Let_def)
qed

lemma trim_stops_target_witness:
  "\<exists>e st'. target_mode_main_mmap works_kern \<lparr>t_disk = \<lambda>_. 5, t_disksize = 8192, t_readonly = False,
      t_sock = \<lparr>rx = [req_header NBD_CMD_TRIM 0 0 4096], rx_end = None, tx = [], tx_plan = []\<rparr>, t_errno = 0\<rparr> = (Inl (Err e), st')"
proof -
  have "req_header NBD_CMD_TRIM 0 0 4096 \<noteq> []" using length_enc(1) by (metis req_header_def list.size(3) zero_neq_numeral)
  then show ?thesis
    using trim_stops_target[of "\<lparr>t_disk = \<lambda>_. 5, t_disksize = 8192, t_readonly = False,
        t_sock = \<lparr>rx = [req_header NBD_CMD_TRIM 0 0 4096], rx_end = None, tx = [], tx_plan = []\<rparr>, t_errno = 0\<rparr>" works_kern 0 4096 0 "[]"]
    by (auto simp: wf_sock_def pending_def works_kern_def)
qed

end
