(* ===== verification/Bitmap.thy ===== *)
theory Bitmap
  imports Byte_Order
begin

text \<open>
  \<open>lib/bitmap.c\<close>: one bit per 4096-byte block, in an array of \<open>unsigned long\<close> that is usually an
  mmap-ed file. An access outside the array is the fault \<open>Segv\<close>. \<open>marked\<close> is the abstract set
  of bits; the locale \<open>bit_table\<close> is the contract the proxy and the copy-on-write target use, and
  the array implements it.
\<close>

section \<open>Operations\<close>

type_synonym bitmap = "u64 list"

definition BITS_TO_LONGS :: "u64 \<Rightarrow> u64" where
  "BITS_TO_LONGS nr = (nr + 64 - 1) div 64"

definition bitmap_size :: "u64 \<Rightarrow> u64" where
  "bitmap_size nbits = 8 * BITS_TO_LONGS nbits"

definition bitmap_alloc :: "u64 \<Rightarrow> bitmap" where
  "bitmap_alloc nbits = replicate (unat (BITS_TO_LONGS nbits)) 0"

definition bitmap_test :: "bitmap \<Rightarrow> u64 \<Rightarrow> stop + bool" where
  "bitmap_test bitmap_array block_index =
     (let bitmap_index = unat (block_index div 64) in
      if bitmap_index < length bitmap_array then
        let val = and (bitmap_array ! bitmap_index) (push_bit (unat (block_index mod 64)) 1)
        in Inr (if val > 0 then True else False)
      else Inl Segv)"

definition bitmap_on :: "bitmap \<Rightarrow> u64 \<Rightarrow> stop + bitmap" where
  "bitmap_on bitmap_array block_index =
     (let bitmap_index = unat (block_index div 64) in
      if bitmap_index < length bitmap_array then
        Inr (bitmap_array[bitmap_index :=
          or (bitmap_array ! bitmap_index) (push_bit (unat (block_index mod 64)) 1)])
      else Inl Segv)"

fun popcount_loop :: "bitmap \<Rightarrow> u64 list \<Rightarrow> u64 \<Rightarrow> stop + u64" where
  "popcount_loop bm [] cached = Inr cached"
| "popcount_loop bm (index # rest) cached =
     bindE (bitmap_test bm index) (\<lambda>t. popcount_loop bm rest (if t then cached + 1 else cached))"

definition bitmap_popcount :: "bitmap \<Rightarrow> u64 \<Rightarrow> stop + u64" where
  "bitmap_popcount bm nbits = popcount_loop bm (map of_nat [0..<unat nbits]) 0"

section \<open>Bitmap files\<close>

text \<open>
  The file behind a bitmap and what the system calls on it answer: its contents if it exists,
  the \<open>errno\<close> of \<open>stat\<close>, and whether \<open>open\<close>, \<open>ftruncate\<close>, \<open>mmap\<close> and \<open>msync\<close> succeed.
\<close>

record bm_file =
  contents :: "bytes option"
  stat_errno :: nat
  open_ok :: bool
  ftruncate_ok :: bool
  mmap_ok :: bool
  msync_ok :: bool

text \<open>\<open>ftruncate\<close> cuts the file or pads it with zero bytes.\<close>

definition truncate_to :: "nat \<Rightarrow> bytes \<Rightarrow> bytes" where
  "truncate_to n bs = take n bs @ replicate (n - length bs) 0"

text \<open>
  \<open>bitmap_open_file\<close>: \<open>None\<close> is the NULL returned for zero bits, which leaves \<open>*bitmaplen\<close> as it
  was; otherwise the mapped array with its length in bytes, and the contents of the file
  afterwards (the mapping is shared).
\<close>

definition bitmap_open_file ::
  "bm_file \<Rightarrow> u64 \<Rightarrow> bool \<Rightarrow> bool \<Rightarrow> stop + (bitmap \<times> u64) option \<times> bytes option" where
  "bitmap_open_file f nbits readonly zeroclear =
     (let narrays = BITS_TO_LONGS nbits; buflen = 8 * narrays in
      if nbits = 0 then Inr (None, contents f)
      else if contents f = None \<and> stat_errno f \<noteq> ENOENT then Inl (Err ''stat'')
      else if \<not> open_ok f \<or> (readonly \<and> contents f = None) then Inl (Err ''bitmap open'')
      else
        let data = (case contents f of None \<Rightarrow> [] | Some bs \<Rightarrow> bs);
            size = length data;
            differs = (size \<noteq> unat buflen);
            zeroclear' = (zeroclear \<or> (differs \<and> size = 0))
        in
        if differs \<and> readonly then Inl (Err ''cannot resize readonly bitmap file'')
        else if differs \<and> \<not> zeroclear' then Inl (Err ''deny using bitmap file without clearing it'')
        else if differs \<and> \<not> ftruncate_ok f then Inl (Err ''ftruncate'')
        else
          let data' = (if differs then truncate_to (unat buflen) data else data) in
          if \<not> mmap_ok f then Inl (Err ''bitmap mapping failed'')
          else if zeroclear' then
            if readonly then Inl (Assert ''!readonly'')
            else if \<not> msync_ok f then Inl (Err ''bitmap msync failed'')
            else Inr (Some (replicate (unat narrays) 0, buflen), Some (replicate (unat buflen) 0))
          else Inr (Some (words_of data', buflen), Some data'))"

definition bitmap_sync_file :: "bool \<Rightarrow> bitmap option \<Rightarrow> stop + unit" where
  "bitmap_sync_file msync_succeeds bm = (if msync_succeeds then Inr () else Inl (Err ''msync bitmap failed''))"

text \<open>\<open>bitmap_close_file\<close>: the result says whether a mapping was released.\<close>

definition bitmap_close_file :: "bool \<Rightarrow> bool \<Rightarrow> bitmap option \<Rightarrow> u64 \<Rightarrow> stop + bool" where
  "bitmap_close_file msync_succeeds munmap_succeeds bm bitmaplen =
     (case bm of
        None \<Rightarrow> bindE (assertE ''bitmaplen == 0'' (bitmaplen = 0)) (\<lambda>_. Inr False)
      | Some b \<Rightarrow>
          bindE (bitmap_sync_file msync_succeeds bm)
            (\<lambda>_. if munmap_succeeds then Inr True else Inl (Err ''munmap'')))"

section \<open>The set of marked blocks\<close>

definition marked :: "bitmap \<Rightarrow> nat set" where
  "marked bm = {i. i < 64 * length bm \<and> bit (bm ! (i div 64)) (i mod 64)}"

lemma unat_div_64 [simp]: "unat (i div 64 :: u64) = unat i div 64"
  by (simp add: unat_div)

lemma unat_mod_64 [simp]: "unat (i mod 64 :: u64) = unat i mod 64"
  by (simp add: unat_mod)

lemma in_range_iff: "unat (i :: u64) div 64 < length bm \<longleftrightarrow> unat i < 64 * length bm"
  by auto

lemma bitmap_test_in: "unat i < 64 * length bm \<Longrightarrow> bitmap_test bm i = Inr (unat i \<in> marked bm)"
  by (auto simp: bitmap_test_def marked_def Let_def bit_iff_and_push_bit_not_eq_0 word_gt_0)

lemma bitmap_test_out: "64 * length bm \<le> unat i \<Longrightarrow> bitmap_test bm i = Inl Segv"
  by (simp add: bitmap_test_def Let_def in_range_iff)

lemma bitmap_on_in:
  "unat i < 64 * length bm \<Longrightarrow>
   \<exists>bm'. bitmap_on bm i = Inr bm' \<and> length bm' = length bm \<and> marked bm' = insert (unat i) (marked bm)"
proof -
  assume i: "unat i < 64 * length bm"
  let ?k = "unat i div 64" and ?j = "unat i mod 64"
  let ?bm' = "bm[?k := or (bm ! ?k) (push_bit ?j 1)]"
  have k: "?k < length bm" using i by auto
  have bits: "bit (?bm' ! (n div 64)) (n mod 64) \<longleftrightarrow> n = unat i \<or> bit (bm ! (n div 64)) (n mod 64)"
    if n: "n < 64 * length bm" for n
  proof (cases "n div 64 = ?k")
    case True
    have "n mod 64 = ?j \<longleftrightarrow> n = unat i"
      using True by (metis div_mult_mod_eq)
    with True k show ?thesis by (auto simp: bit_or_iff bit_exp_iff)
  next
    case False
    with k show ?thesis by (auto simp: nth_list_update)
  qed
  have "marked ?bm' = insert (unat i) (marked bm)"
    using i bits by (auto simp: marked_def)
  with k show ?thesis by (auto simp: bitmap_on_def Let_def)
qed

lemma bitmap_on_out: "64 * length bm \<le> unat i \<Longrightarrow> bitmap_on bm i = Inl Segv"
  by (simp add: bitmap_on_def Let_def in_range_iff)

section \<open>The contract of a bit table\<close>

locale bit_table =
  fixes test :: "'b \<Rightarrow> u64 \<Rightarrow> stop + bool" and on :: "'b \<Rightarrow> u64 \<Rightarrow> stop + 'b"
    and set_of :: "'b \<Rightarrow> nat set" and cap :: "'b \<Rightarrow> nat"
  assumes test_in: "unat i < cap b \<Longrightarrow> test b i = Inr (unat i \<in> set_of b)"
    and on_in: "unat i < cap b \<Longrightarrow> \<exists>b'. on b i = Inr b' \<and> cap b' = cap b \<and> set_of b' = insert (unat i) (set_of b)"
    and on_out: "cap b \<le> unat i \<Longrightarrow> on b i = Inl Segv"
begin

lemma test_after_on:
  assumes "unat i < cap b" and "unat j < cap b" and "on b i = Inr b'"
  shows "test b' j = Inr (j = i \<or> unat j \<in> set_of b)"
proof -
  from on_in[OF assms(1)] assms(3) have "cap b' = cap b" "set_of b' = insert (unat i) (set_of b)" by auto
  with test_in[of j b'] assms(2) show ?thesis by (auto simp: word_unat_eq_iff)
qed

text \<open>Marking every value of a loop variable.\<close>

lemma on_all:
  "(\<And>i. i \<in> set is \<Longrightarrow> unat i < cap b) \<Longrightarrow>
   \<exists>b'. foldE (\<lambda>i b. on b i) is b = Inr b' \<and> cap b' = cap b \<and> set_of b' = set_of b \<union> unat ` set is"
proof (induction "is" arbitrary: b)
  case (Cons i "is")
  then obtain b1 where "on b i = Inr b1" "cap b1 = cap b" "set_of b1 = insert (unat i) (set_of b)"
    using on_in[of i b] by auto
  with Cons.IH[of b1] Cons.prems show ?case by auto
qed simp

lemma on_range:
  assumes "unat e < cap b"
  shows "\<exists>b'. foldE (\<lambda>i b. on b i) (ul_range s e) b = Inr b' \<and> cap b' = cap b \<and>
    set_of b' = set_of b \<union> {unat s..unat e}"
proof -
  have "unat ` set (ul_range s e) = {unat s..unat e}"
    using map_unat_ul_range[of s e] by (metis image_set set_upt atLeastLessThanSuc_atLeastAtMost)
  with on_all[of "ul_range s e" b] assms show ?thesis
    by (auto simp: set_ul_range word_le_nat_alt)
qed

text \<open>A range that leaves the table stops the loop.\<close>

lemma on_range_out:
  assumes "cap b \<le> unat e" and "unat s \<le> unat e"
  shows "foldE (\<lambda>i b. on b i) (ul_range s e) b = Inl Segv"
proof -
  let ?c = "max (unat s) (cap b)"
  have "[unat s..<Suc (unat e)] = [unat s..<?c] @ ?c # [Suc ?c..<Suc (unat e)]"
    using assms upt_add_eq_append[of "unat s" ?c "Suc (unat e) - ?c"]
    by (simp add: upt_conv_Cons[of ?c] del: upt_Suc)
  then have split: "ul_range s e = map of_nat [unat s..<?c] @ of_nat ?c # map of_nat [Suc ?c..<Suc (unat e)]"
    by (simp add: ul_range_def del: upt_Suc)
  have c: "unat (of_nat ?c :: u64) = ?c" using assms by (intro unat_of_nat_u64[of _ e]) simp
  have "\<exists>b'. foldE (\<lambda>i b. on b i) (map of_nat [unat s..<?c]) b = Inr b' \<and> cap b' = cap b"
  proof -
    have "unat i < cap b" if "i \<in> set (map of_nat [unat s..<?c])" for i :: u64
      using that assms by (auto simp: unat_of_nat_u64[of _ e])
    from on_all[OF this] show ?thesis by blast
  qed
  then obtain b' where "foldE (\<lambda>i b. on b i) (map of_nat [unat s..<?c]) b = Inr b'" "cap b' = cap b" by blast
  with split c show ?thesis by (simp add: foldE_append on_out)
qed

end

interpretation bm: bit_table bitmap_test bitmap_on marked "\<lambda>bm. 64 * length bm"
  by unfold_locales (auto simp: bitmap_test_in bitmap_on_out dest: bitmap_on_in)

section \<open>Counting and files\<close>

lemma popcount_loop_card:
  "(\<And>i. i \<in> set is \<Longrightarrow> unat i < 64 * length bm) \<Longrightarrow> distinct is \<Longrightarrow>
   popcount_loop bm is c = Inr (c + of_nat (card (marked bm \<inter> unat ` set is)))"
proof (induction "is" arbitrary: c)
  case (Cons i "is")
  have fresh: "unat i \<notin> unat ` set is"
    using Cons.prems(2) by (auto dest!: word_unat_eq_iff[THEN iffD2])
  have "marked bm \<inter> unat ` set (i # is) =
      (if unat i \<in> marked bm then insert (unat i) (marked bm \<inter> unat ` set is) else marked bm \<inter> unat ` set is)"
    by auto
  with fresh Cons show ?case by (simp add: bitmap_test_in)
qed simp

lemma BITS_TO_LONGS_cap:
  assumes "unat nbits \<le> 18446744073709551552"
  shows "unat nbits \<le> 64 * unat (BITS_TO_LONGS nbits)" and "unat (8 * BITS_TO_LONGS nbits) = 8 * unat (BITS_TO_LONGS nbits)"
proof -
  have eq: "nbits + 64 - 1 = nbits + 63" by simp
  have "unat (nbits + 63) = unat nbits + 63" using assms by (simp add: unat_word_ariths)
  then have n: "unat (BITS_TO_LONGS nbits) = (unat nbits + 63) div 64"
    unfolding BITS_TO_LONGS_def eq by (simp add: unat_div)
  then show "unat nbits \<le> 64 * unat (BITS_TO_LONGS nbits)" by linarith
  have "(unat nbits + 63) div 64 \<le> 288230376151711743" using assms by linarith
  then show "unat (8 * BITS_TO_LONGS nbits) = 8 * unat (BITS_TO_LONGS nbits)"
    using n by (simp add: unat_word_ariths)
qed

lemma marked_replicate [simp]: "marked (replicate n 0) = {}"
  by (auto simp: marked_def)

lemma bitmap_popcount_eq:
  assumes "unat nbits \<le> 64 * length bm"
  shows "bitmap_popcount bm nbits = Inr (of_nat (card (marked bm \<inter> {..<unat nbits})))"
proof -
  let ?is = "map of_nat [0..<unat nbits] :: u64 list"
  have val: "unat (of_nat k :: u64) = k" if "k < unat nbits" for k
    using that unat_of_nat_u64[of k nbits] by simp
  have "inj_on (of_nat :: nat \<Rightarrow> u64) {..<unat nbits}"
    by (rule inj_onI) (metis lessThan_iff val)
  then have "distinct ?is" by (simp add: distinct_map lessThan_atLeast0)
  moreover have "unat ` set ?is = {..<unat nbits}"
    using val by (force simp: image_image)
  moreover have "unat i < 64 * length bm" if "i \<in> set ?is" for i
    using that assms val by auto
  ultimately show ?thesis using popcount_loop_card[of ?is bm 0] by (simp add: bitmap_popcount_def)
qed

lemma card_marked_le: "card (marked bm \<inter> {..<n}) \<le> n"
  using card_mono[of "{..<n}" "marked bm \<inter> {..<n}"] by simp

lemma card_marked_full: "card (marked bm \<inter> {..<n}) = n \<Longrightarrow> {..<n} \<subseteq> marked bm"
  using card_subset_eq[of "{..<n}" "marked bm \<inter> {..<n}"] by auto

text \<open>
  C10. \<open>bitmap_popcount\<close> returns the number of marked blocks below \<open>nbits\<close>, without leaving the
  array, when the array has a bit for each of them.
\<close>

theorem bitmap_popcount_card:
  assumes "unat nbits \<le> 64 * length bm"
  shows "\<exists>n. bitmap_popcount bm nbits = Inr n \<and> unat n = card (marked bm \<inter> {..<unat nbits})"
  using bitmap_popcount_eq[OF assms] card_marked_le[of bm "unat nbits"] by (simp add: unat_of_nat_u64)

theorem bitmap_popcount_card_witness:
  "\<exists>n. bitmap_popcount [5, 0] 70 = Inr n \<and> unat n = card (marked [5, 0] \<inter> {..<unat (70 :: u64)})"
  by (rule bitmap_popcount_card) simp

text \<open>
  A bitmap file opens to an array with a bit for every block. A file that does not exist or is
  empty, and a file opened to be cleared, gives the array with no block marked; any other file
  gives the array stored in it, and then its size is exactly the array's.
\<close>

lemma bitmap_open_file_ok:
  assumes "unat nbits \<le> 18446744073709551552" and "nbits \<noteq> 0"
    and "bitmap_open_file f nbits readonly zeroclear = Inr (res, after)"
  shows "\<exists>bm len bs. res = Some (bm, len) \<and> after = Some bs \<and> length bm = unat (BITS_TO_LONGS nbits) \<and>
    unat nbits \<le> 64 * length bm \<and> unat len = 8 * length bm \<and> words_of bs = bm \<and>
    (if zeroclear \<or> contents f \<in> {None, Some []} then marked bm = {} \<and> \<not> readonly
     else contents f = Some bs)"
proof -
  note cap = BITS_TO_LONGS_cap[OF assms(1)]
  have pos: "unat (BITS_TO_LONGS nbits) \<noteq> 0" using cap(1) assms(2) by (auto simp: word_unat_eq_iff)
  show ?thesis using assms(2,3) cap pos
    by (cases "contents f") (auto simp: bitmap_open_file_def Let_def words_of_zeros split: if_splits)
qed

lemma bitmap_open_file_ok_witness:
  "\<exists>bm len bs. bitmap_open_file \<lparr>contents = None, stat_errno = ENOENT, open_ok = True, ftruncate_ok = True,
      mmap_ok = True, msync_ok = True\<rparr> 3 False False = Inr (Some (bm, len), Some bs) \<and> marked bm = {}"
proof -
  let ?f = "\<lparr>contents = None, stat_errno = ENOENT, open_ok = True, ftruncate_ok = True,
      mmap_ok = True, msync_ok = True\<rparr> :: bm_file"
  have r: "bitmap_open_file ?f 3 False False = Inr (Some ([0], 8), Some (replicate 8 0))"
    by (simp add: bitmap_open_file_def BITS_TO_LONGS_def)
  show ?thesis using bitmap_open_file_ok[OF _ _ r] r by auto
qed



end
