(* ===== verification/Cow.thy ===== *)
theory Cow
  imports Target Bitmap
begin

text \<open>
  \<open>xnbd_target_cow_lzo.c\<close>: the copy-on-write target. A disk stack is a base image with layers on it,
  each with a bitmap of the blocks it holds; a block is read from the highest layer that has it, and written to the top
  layer, after the parts of the block that are not written have been copied up. Compressed reads
  send each block as one value, through the LZO library, or plain.
\<close>

section \<open>Disk stacks\<close>

record disk_image =
  di_path :: string
  di_data :: mem
  di_bmpath :: string
  di_bm :: bitmap
  persistent :: bool

text \<open>\<open>image[0]\<close>, the base image, is the first of the list; \<open>nlayers\<close> is its length.\<close>

record disk_stack =
  ds_disksize :: int
  image :: "disk_image list"

abbreviation nlayers :: "disk_stack \<Rightarrow> nat" where "nlayers ds \<equiv> length (image ds)"
abbreviation (input) MAX_DISKIMAGESTACK :: nat where "MAX_DISKIMAGESTACK \<equiv> 10"

text \<open>The bitmap of the base image is filled with \<open>0xff\<close>.\<close>

definition get_filled_readonly_buffer :: "bool \<Rightarrow> bool \<Rightarrow> u64 \<Rightarrow> stop + bitmap" where
  "get_filled_readonly_buffer mkstemp_ok trunc_ok buflen =
     bindE (assertE ''buflen'' (buflen \<noteq> 0)) (\<lambda>_.
       if \<not> mkstemp_ok then Inl (Err ''mkstemp'')
       else if \<not> trunc_ok then Inl (Err ''ftruncate'')
       else Inr (replicate (unat buflen div 8) (- 1)))"

text \<open>What the system calls answer when an image is opened.\<close>

record image_file =
  if_open_errno :: "nat option"
  if_fstat_err :: "nat option"
  if_stat :: stat_buf
  if_seek_end :: int
  if_ftruncate :: bool
  if_data :: mem
  if_bm :: bm_file

definition create_disk_stack :: "string \<Rightarrow> image_file \<Rightarrow> bool \<Rightarrow> bool \<Rightarrow> stop + disk_stack" where
  "create_disk_stack diskpath f mkstemp_ok trunc_ok =
     (if if_open_errno f \<noteq> None then Inl (Err ''open'')
      else bindE (get_disksize (if_fstat_err f) (if_stat f) (if_seek_end f)) (\<lambda>dsize.
        if dsize = 0 then Inl (Err ''the size is zero'')
        else bindE (get_filled_readonly_buffer mkstemp_ok trunc_ok (bitmap_size (get_disk_nblocks dsize))) (\<lambda>bm.
          Inr \<lparr>ds_disksize = dsize,
               image = [\<lparr>di_path = diskpath, di_data = if_data f, di_bmpath = ''/dev/shm/xnbd.XXXXXX'', di_bm = bm, persistent = True\<rparr>]\<rparr>)))"

definition disk_stack_add_layer :: "disk_stack \<Rightarrow> string \<Rightarrow> int \<Rightarrow> mem \<Rightarrow> string \<Rightarrow> bitmap \<Rightarrow> bool \<Rightarrow> stop + disk_stack" where
  "disk_stack_add_layer ds diskpath dsize data bmpath bm pers =
     (if nlayers ds = MAX_DISKIMAGESTACK then Inl (Err ''no space'')
      else bindE (assertE ''ds->disksize == disksize'' (ds_disksize ds = dsize)) (\<lambda>_.
        Inr (ds\<lparr>image := image ds @ [\<lparr>di_path = diskpath, di_data = data, di_bmpath = bmpath, di_bm = bm, persistent = pers\<rparr>]\<rparr>)))"

definition cow_path :: "string \<Rightarrow> nat \<Rightarrow> nat \<Rightarrow> string" where
  "cow_path diskpath cowid layer = diskpath @ ''.cow'' @ decimal cowid @ ''.layer'' @ decimal layer"

text \<open>
  \<open>xnbd_cow_target_create_disk_stack\<close>: the first unused number gives the new layer its name; \<open>taken\<close> are the
  names that exist. The loop is bounded by the number of those names. A NULL bitmap is the empty array.
\<close>

function free_cowid :: "string \<Rightarrow> string list \<Rightarrow> nat \<Rightarrow> nat" where
  "free_cowid diskpath taken cowid =
     (if cow_path diskpath cowid 1 \<in> set taken then free_cowid diskpath (remove1 (cow_path diskpath cowid 1) taken) (Suc cowid) else cowid)"
  by pat_completeness auto
termination by (relation "measure (\<lambda>(_, taken, _). length taken)") (auto simp: length_remove1 dest: length_pos_if_in_set)

declare free_cowid.simps [simp del]

definition xnbd_cow_target_create_disk_stack :: "string \<Rightarrow> image_file \<Rightarrow> bool \<Rightarrow> bool \<Rightarrow> string list \<Rightarrow> image_file \<Rightarrow> stop + disk_stack" where
  "xnbd_cow_target_create_disk_stack diskpath f mkstemp_ok trunc_ok taken layer =
     bindE (create_disk_stack diskpath f mkstemp_ok trunc_ok) (\<lambda>ds.
       let cowid = free_cowid diskpath taken 0; cowpath = cow_path diskpath cowid 1; bmpath = cowpath @ ''.bm'' in
       if if_open_errno layer \<noteq> None then Inl (Err ''open'')
       else if \<not> if_ftruncate layer then Inl (Err ''ftruncate'')
       else bindE (bitmap_open_file (if_bm layer) (get_disk_nblocks (ds_disksize ds)) False True) (\<lambda>(opened, _).
         disk_stack_add_layer ds cowpath (ds_disksize ds) (\<lambda>_. 0) bmpath (case opened of None \<Rightarrow> [] | Some (bm, _) \<Rightarrow> bm) False))"

text \<open>
  \<open>xnbd_cow_target_open_disk_stack_readonly\<close>: \<open>files\<close> are the layers in order; the first that does not exist
  ends the loop.
\<close>

fun open_layers :: "string \<Rightarrow> nat \<Rightarrow> nat \<Rightarrow> image_file list \<Rightarrow> disk_stack \<Rightarrow> stop + disk_stack" where
  "open_layers diskpath cowid layer [] ds = Inr ds"
| "open_layers diskpath cowid layer (f # files) ds =
     (case if_open_errno f of
        Some e \<Rightarrow> if e = ENOENT then Inr ds else Inl (Err ''open'')
      | None \<Rightarrow>
          bindE (get_disksize (if_fstat_err f) (if_stat f) (if_seek_end f)) (\<lambda>dsize.
            if dsize \<noteq> ds_disksize ds then Inl (Err ''mismatches the disk stack'')
            else bindE (bitmap_open_file (if_bm f) (get_disk_nblocks (ds_disksize ds)) True False) (\<lambda>(opened, _).
              bindE (disk_stack_add_layer ds (cow_path diskpath cowid layer) dsize (if_data f) (cow_path diskpath cowid layer @ ''.bm'')
                  (case opened of None \<Rightarrow> [] | Some (bm, _) \<Rightarrow> bm) True)
                (open_layers diskpath cowid (Suc layer) files))))"

definition xnbd_cow_target_open_disk_stack_readonly :: "string \<Rightarrow> nat \<Rightarrow> image_file \<Rightarrow> bool \<Rightarrow> bool \<Rightarrow> image_file list \<Rightarrow> stop + disk_stack" where
  "xnbd_cow_target_open_disk_stack_readonly diskpath cowid f mkstemp_ok trunc_ok files =
     bindE (create_disk_stack diskpath f mkstemp_ok trunc_ok) (\<lambda>ds.
     bindE (open_layers diskpath cowid 1 files ds) (\<lambda>ds'.
       if nlayers ds' = 1 then Inl (Err ''no layers found'') else Inr ds'))"

text \<open>\<open>destroy_disk_stack\<close>: the files that are removed; the base image is never among them.\<close>

fun destroy_layers :: "bool \<Rightarrow> bool \<Rightarrow> bool \<Rightarrow> nat \<Rightarrow> disk_image list \<Rightarrow> stop + string list" where
  "destroy_layers sync_ok munmap_ok unlink_ok i [] = Inr []"
| "destroy_layers sync_ok munmap_ok unlink_ok i (di # dis) =
     (if \<not> sync_ok then Inl (Err ''msync'')
      else if \<not> munmap_ok then Inl (Err ''munmap'')
      else bindE (if persistent di then Inr []
                  else bindE (assertE ''i != 0'' (i \<noteq> 0)) (\<lambda>_.
                    if unlink_ok then Inr [di_path di, di_bmpath di] else Inl (Err ''unlink''))) (\<lambda>gone.
             bindE (destroy_layers sync_ok munmap_ok unlink_ok (Suc i) dis) (\<lambda>rest. Inr (gone @ rest))))"

definition destroy_disk_stack :: "bool \<Rightarrow> bool \<Rightarrow> bool \<Rightarrow> disk_stack \<Rightarrow> stop + string list" where
  "destroy_disk_stack sync_ok munmap_ok unlink_ok ds = destroy_layers sync_ok munmap_ok unlink_ok 0 (image ds)"

definition xnbd_cow_target_close_disk_stack :: "bool \<Rightarrow> bool \<Rightarrow> bool \<Rightarrow> disk_stack \<Rightarrow> stop + string list" where
  "xnbd_cow_target_close_disk_stack sync_ok munmap_ok unlink_ok ds = destroy_disk_stack sync_ok munmap_ok unlink_ok ds"

section \<open>Access to a range\<close>

text \<open>The loops from the top layer down.\<close>

fun find_layer :: "disk_image list \<Rightarrow> u64 \<Rightarrow> nat \<Rightarrow> stop + nat option" where
  "find_layer dis index 0 = Inr None"
| "find_layer dis index (Suc i) =
     bindE (bitmap_test (di_bm (dis ! i)) index) (\<lambda>b. if b then Inr (Some i) else find_layer dis index i)"

text \<open>
  The mappings of all layers are in one address space, the layer \<open>i\<close> from \<open>i * 2 ^ 64\<close> on.
\<close>

definition stack_mem :: "disk_image list \<Rightarrow> mem" where
  "stack_mem dis a = di_data (dis ! nat (a div 18446744073709551616)) (a mod 18446744073709551616)"

definition in_layer :: "nat \<Rightarrow> int \<Rightarrow> int" where
  "in_layer i a = int i * 18446744073709551616 + a"

definition addr :: "int option \<Rightarrow> int" where
  "addr p = (case p of None \<Rightarrow> 0 | Some a \<Rightarrow> a)"

fun mmap_layers :: "mmap_fn \<Rightarrow> int \<Rightarrow> int \<Rightarrow> u64 \<Rightarrow> disk_image list \<Rightarrow> stop + mmap_block_region list" where
  "mmap_layers kern dsize from len [] = Inr []"
| "mmap_layers kern dsize from len (di # dis) =
     bindE (mmap_block_region_create kern dsize from len (persistent di)) (\<lambda>mbr.
     bindE (mmap_layers kern dsize from len dis) (\<lambda>mbrs. Inr (mbr # mbrs)))"

text \<open>
  The chunk of a block for reading. \<open>found\<close> starts out true, so a block no layer has leaves its
  zeroed element of the array.
\<close>

definition read_chunk :: "disk_image list \<Rightarrow> mmap_block_region list \<Rightarrow> int \<Rightarrow> int \<Rightarrow> u64 \<Rightarrow> u64 \<Rightarrow> stop + iovec" where
  "read_chunk dis mbrs from ioend index_sta index =
     bindE (find_layer dis index (length dis)) (\<lambda>r.
       case r of
         None \<Rightarrow> Inr \<lparr>iov_base = 0, iov_len = 0\<rparr>
       | Some i \<Rightarrow>
           let chunk_iofrom = max from (sint index * CBLOCKSIZE);
               chunk_ioend = min ioend (sint (index + 1) * CBLOCKSIZE);
               chunk_iolen = word_of_int chunk_ioend - word_of_int chunk_iofrom :: u64;
               chunk_iobuf = max (addr (mbr_iobuf (mbrs ! i))) (addr (ba_iobuf (mbrs ! i)) + uint ((index - index_sta) * 4096))
           in bindE (assertE ''chunk_iolen <= CBLOCKSIZE'' (chunk_iolen \<le> 4096)) (\<lambda>_.
                Inr \<lparr>iov_base = in_layer i chunk_iobuf, iov_len = unat chunk_iolen\<rparr>))"

fun mapE :: "('a \<Rightarrow> 'e + 'b) \<Rightarrow> 'a list \<Rightarrow> 'e + 'b list" where
  "mapE f [] = Inr []"
| "mapE f (x # xs) = bindE (f x) (\<lambda>y. bindE (mapE f xs) (\<lambda>ys. Inr (y # ys)))"

definition stack_read_iov :: "disk_stack \<Rightarrow> mmap_block_region list \<Rightarrow> int \<Rightarrow> u64 \<Rightarrow> stop + iovec list" where
  "stack_read_iov ds mbrs from len =
     (let ioend = sint (word_of_int from + len);
          index_sta = get_bindex_sta 4096 from; index_end = get_bindex_end 4096 ioend
      in bindE (assertE ''(index_end - index_sta + 1) <= UINT32_MAX'' (index_end - index_sta + 1 \<le> 0xFFFFFFFF)) (\<lambda>_.
           mapE (read_chunk (image ds) mbrs from ioend index_sta) (ul_range index_sta index_end)))"

text \<open>A store into a layer that is mapped read-only faults.\<close>

definition set_top :: "(disk_image \<Rightarrow> disk_image) \<Rightarrow> disk_image list \<Rightarrow> stop + disk_image list" where
  "set_top f dis = (if dis = [] \<or> persistent (last dis) then Inl Segv else Inr (butlast dis @ [f (last dis)]))"

definition copy_block_to_top_layer :: "int \<Rightarrow> mmap_block_region list \<Rightarrow> u64 \<Rightarrow> u64 \<Rightarrow> disk_image list \<Rightarrow> stop + disk_image list" where
  "copy_block_to_top_layer dsize mbrs index start_index dis =
     (let len = confine_iolen_within_disk dsize (sint index * CBLOCKSIZE) 4096 in
      bindE (find_layer dis index (length dis)) (\<lambda>r.
        case r of
          None \<Rightarrow> Inl (Err ''bug'')
        | Some i \<Rightarrow>
            let dst = addr (ba_iobuf (mbrs ! (length dis - 1))) + uint ((index - start_index) * 4096);
                src = addr (ba_iobuf (mbrs ! i)) + uint ((index - start_index) * 4096)
            in set_top (\<lambda>di. di\<lparr>di_data := poke (di_data di) dst (peek (di_data (dis ! i)) src (unat len))\<rparr>) dis))"

definition mark_top :: "u64 \<Rightarrow> disk_image list \<Rightarrow> stop + disk_image list" where
  "mark_top index dis = bindE (bitmap_on (di_bm (last dis)) index) (\<lambda>bm. set_top (\<lambda>di. di\<lparr>di_bm := bm\<rparr>) dis)"

definition stack_prepare_write :: "int \<Rightarrow> mmap_block_region list \<Rightarrow> int \<Rightarrow> u64 \<Rightarrow> disk_image list \<Rightarrow> stop + disk_image list" where
  "stack_prepare_write dsize mbrs from len dis =
     (let ioend = sint (word_of_int from + len);
          index_sta = get_bindex_sta 4096 from; index_end = get_bindex_end 4096 ioend in
      bindE (if from smod CBLOCKSIZE \<noteq> 0 then bindE (bitmap_test (di_bm (last dis)) index_sta) (\<lambda>b. Inr (\<not> b)) else Inr False) (\<lambda>get_sta_block.
      bindE (if ioend smod CBLOCKSIZE \<noteq> 0 \<and> (index_end > index_sta \<or> index_end = index_sta \<and> \<not> get_sta_block)
             then bindE (bitmap_test (di_bm (last dis)) index_end) (\<lambda>b. Inr (\<not> b)) else Inr False) (\<lambda>get_end_block.
      bindE (if get_sta_block then copy_block_to_top_layer dsize mbrs index_sta index_sta dis else Inr dis) (\<lambda>dis.
      bindE (if get_end_block then copy_block_to_top_layer dsize mbrs index_end index_sta dis else Inr dis) (\<lambda>dis.
        foldE mark_top (ul_range index_sta index_end) dis)))))"

text \<open>\<open>disk_stack_mmap\<close>: the mappings, the array for the transfer, and the stack afterwards.\<close>

definition disk_stack_mmap :: "mmap_fn \<Rightarrow> disk_stack \<Rightarrow> int \<Rightarrow> u64 \<Rightarrow> bool \<Rightarrow> stop + mmap_block_region list \<times> iovec list \<times> disk_stack" where
  "disk_stack_mmap kern ds from len reading =
     bindE (mmap_layers kern (ds_disksize ds) from len (image ds)) (\<lambda>mbrs.
       if reading then bindE (stack_read_iov ds mbrs from len) (\<lambda>iov. Inr (mbrs, iov, ds))
       else bindE (stack_prepare_write (ds_disksize ds) mbrs from len (image ds)) (\<lambda>dis.
         Inr (mbrs, [\<lparr>iov_base = addr (mbr_iobuf (last mbrs)), iov_len = unat len\<rparr>], ds\<lparr>image := dis\<rparr>)))"

fun disk_stack_munmap :: "bool \<Rightarrow> mmap_block_region list \<Rightarrow> stop + unit" where
  "disk_stack_munmap munmap_ok [] = Inr ()"
| "disk_stack_munmap munmap_ok (mbr # mbrs) = bindE (mmap_block_region_free munmap_ok mbr) (\<lambda>_. disk_stack_munmap munmap_ok mbrs)"

definition disk_stack_fsync :: "bool \<Rightarrow> stop + unit" where
  "disk_stack_fsync fsync_ok = (if fsync_ok then Inr () else Inl (Err ''fsync''))"

definition disk_stack_punch_hole :: "bool \<Rightarrow> disk_stack \<Rightarrow> int \<Rightarrow> u64 \<Rightarrow> disk_stack" where
  "disk_stack_punch_hole fallocate_ok ds from len =
     ds\<lparr>image := butlast (image ds) @ [(last (image ds))\<lparr>di_data := punch_hole (fallocate_ok \<and> \<not> persistent (last (image ds))) (di_data (last (image ds))) from (uint len)\<rparr>]\<rparr>"

section \<open>Compressed reads\<close>

text \<open>\<open>XNBD_LZO\<close>: \<open>lzo\<close> is \<open>lzo1x_1_compress\<close> of the LZO library; \<^const>\<open>None\<close> stands for its failure.\<close>

definition is_unicolor :: "bytes \<Rightarrow> bool" where
  "is_unicolor buf =
     (length buf mod 8 = 0 \<and> (\<forall>i \<in> set [1..<length buf div 8]. words_of buf ! 0 = words_of buf ! i))"

definition encode_chunk :: "(bytes \<Rightarrow> bytes option) \<Rightarrow> bool \<Rightarrow> bytes \<Rightarrow> stop + bytes" where
  "encode_chunk lzo lzo_enabled rawbuf =
     (let rawlen_n = le 4 (htonl (of_nat (length rawbuf)) :: u32) in
      if is_unicolor rawbuf then
        Inr (le 4 (htonl 0 :: u32) @ rawlen_n @ le 4 (htonl (un_le (take 4 rawbuf)) :: u32))
      else if lzo_enabled then
        (case lzo rawbuf of
           None \<Rightarrow> Inl (Err ''compression failed'')
         | Some cmpbuf \<Rightarrow>
             bindE (assertE ''cmplen <= UINT32_MAX'' (length cmpbuf \<le> 4294967295)) (\<lambda>_.
               Inr (le 4 (htonl (of_nat (length cmpbuf)) :: u32) @ rawlen_n @ cmpbuf)))
      else Inr (le 4 (htonl 0xFFFFFFFF :: u32) @ rawlen_n @ rawbuf))"

text \<open>The sends of the array, one after the other, as one stream; without XNBD\_LZO the server aborts.\<close>

fun compress_iovec_and_send_advanced :: "(bytes \<Rightarrow> bytes option) option \<Rightarrow> bool \<Rightarrow> mem \<Rightarrow> sock \<Rightarrow> iovec list \<Rightarrow> nat \<Rightarrow> stop + sock \<times> nat" where
  "compress_iovec_and_send_advanced None lzo_enabled m csock iov e = Inl (Err ''compression support was not compiled'')"
| "compress_iovec_and_send_advanced (Some lzo) lzo_enabled m csock [] e = Inr (csock, e)"
| "compress_iovec_and_send_advanced (Some lzo) lzo_enabled m csock (v # iov) e =
     bindE (encode_chunk lzo lzo_enabled (peek m (iov_base v) (iov_len v))) (\<lambda>bs.
     bindE (net_send_all_or_abort csock bs e) (\<lambda>(csock', e').
       compress_iovec_and_send_advanced (Some lzo) lzo_enabled m csock' iov e'))"

section \<open>Serving one request\<close>

record ckern =
  ck_poll :: poll_result
  ck_mmap :: mmap_fn
  ck_munmap :: bool
  ck_fsync :: bool
  ck_fallocate :: bool
  ck_lzo :: "(bytes \<Rightarrow> bytes option) option"

record cstate =
  c_ds :: disk_stack
  c_disksize :: int
  c_readonly :: bool
  c_sock :: sock
  c_errno :: nat

definition cow_write :: "nbd_reply \<Rightarrow> iovec list \<Rightarrow> cstate \<Rightarrow> (stop + unit) \<times> cstate" where
  "cow_write reply iov st =
     (case net_readv_all_or_abort (di_data (last (image (c_ds st)))) (c_sock st) iov (c_errno st) of
        Inl x \<Rightarrow> (Inl x, st)
      | Inr (data, s, e) \<Rightarrow>
          let ds = c_ds st; st' = st\<lparr>c_ds := ds\<lparr>image := butlast (image ds) @ [(last (image ds))\<lparr>di_data := data\<rparr>]\<rparr>, c_sock := s, c_errno := e\<rparr> in
          case net_send_all_or_abort s (enc_reply reply) e of
            Inl x \<Rightarrow> (Inl x, st')
          | Inr (s', e') \<Rightarrow> (Inr (), st'\<lparr>c_sock := s', c_errno := e'\<rparr>))"

definition cow_read :: "ckern \<Rightarrow> bool \<Rightarrow> bool \<Rightarrow> nbd_reply \<Rightarrow> iovec list \<Rightarrow> cstate \<Rightarrow> (stop + unit) \<times> cstate" where
  "cow_read k compressed lzo reply iov st =
     (case net_send_all_or_abort (c_sock st) (enc_reply reply) (c_errno st) of
        Inl x \<Rightarrow> (Inl x, st)
      | Inr (s, e) \<Rightarrow>
          let st' = st\<lparr>c_sock := s, c_errno := e\<rparr>; m = stack_mem (image (c_ds st)) in
          case (if compressed then compress_iovec_and_send_advanced (ck_lzo k) lzo m s iov e
                else net_writev_all_or_abort m s iov e) of
            Inl x \<Rightarrow> (Inl x, st')
          | Inr (s', e') \<Rightarrow> (Inr (), st'\<lparr>c_sock := s', c_errno := e'\<rparr>))"

definition cow_transfer :: "ckern \<Rightarrow> u32 \<Rightarrow> bool \<Rightarrow> bool \<Rightarrow> nbd_reply \<Rightarrow> int \<Rightarrow> u64 \<Rightarrow> iovec list \<Rightarrow> cstate \<Rightarrow> (stop + unit) \<times> cstate" where
  "cow_transfer k iotype compressed lzo reply from len iov st =
     (if iotype = NBD_CMD_WRITE then cow_write reply iov st
      else if iotype = NBD_CMD_READ then cow_read k compressed lzo reply iov st
      else if iotype = NBD_CMD_FLUSH then (disk_stack_fsync (ck_fsync k), st)
      else if iotype = NBD_CMD_TRIM then (Inr (), st\<lparr>c_ds := disk_stack_punch_hole (ck_fallocate k) (c_ds st) from len\<rparr>)
      else (Inl (Err ''unknown command in the cow-target mode''), st))"

definition target_mode_main_cow :: "ckern \<Rightarrow> cstate \<Rightarrow> (stop + int) \<times> cstate" where
  "target_mode_main_cow k st =
     (case poll_request_arrival (ck_poll k) of
        Inl x \<Rightarrow> (Inl x, st)
      | Inr ret \<Rightarrow>
      if ret < 0 then (Inr (-1), st)
      else case nbd_server_recv_request (c_sock st) (c_disksize st) fresh_out of (ret, q, s) \<Rightarrow>
        let st = st\<lparr>c_sock := s\<rparr>; reply = reply_arg q; from = iofrom_arg q; len = iolen_arg q;
            compressed = (iotype_arg q = NBD_CMD_READ_COMPRESS \<or> iotype_arg q = NBD_CMD_READ_COMPRESS_LZO);
            lzo = (iotype_arg q = NBD_CMD_READ_COMPRESS_LZO);
            iotype = (if compressed then NBD_CMD_READ else iotype_arg q)
        in
        if ret = NBD_SERVER_RECV__BAD_REQUEST then
          (case net_send_all_or_abort s (enc_reply reply) (c_errno st) of
             Inl x \<Rightarrow> (Inl x, st)
           | Inr (s', e') \<Rightarrow> (Inr 0, st\<lparr>c_sock := s', c_errno := e'\<rparr>))
        else if ret = NBD_SERVER_RECV__MAGIC_MISMATCH then (Inl (Err ''client bug: invalid header''), st)
        else if ret = NBD_SERVER_RECV__TERMINATE then (Inr ret, st)
        else if c_readonly st \<and> (iotype = NBD_CMD_WRITE \<or> iotype = NBD_CMD_TRIM) then (Inl (Err ''write to a readonly disk''), st)
        else case disk_stack_mmap (ck_mmap k) (c_ds st) from len (iotype = NBD_CMD_READ) of
          Inl x \<Rightarrow> (Inl x, st)
        | Inr (mbrs, iov, ds) \<Rightarrow>
            let st = st\<lparr>c_ds := ds\<rparr> in
            case cow_transfer k iotype compressed lzo reply from len iov st of
              (Inl x, st) \<Rightarrow> (Inl x, st)
            | (Inr _, st) \<Rightarrow>
                (case disk_stack_munmap (ck_munmap k) mbrs of Inl x \<Rightarrow> (Inl x, st) | Inr _ \<Rightarrow> (Inr 0, st)))"

definition xnbd_cow_target_session_server :: "ckern list \<Rightarrow> cstate \<Rightarrow> (stop + int) option \<times> cstate" where
  "xnbd_cow_target_session_server ks st = session_loop target_mode_main_cow ks st"

end
