(* ===== verification/Cow_Refinement.thy ===== *)
theory Cow_Refinement
  imports Cow
begin

text \<open>
  A copy-on-write session is a session of the abstract server on the disk the stack of layers shows:
  every block comes from the highest layer that has it. Lower layers are never changed.
\<close>

section \<open>The disk a stack shows\<close>

text \<open>The data of a block, the layers from the top down.\<close>

fun block_data :: "disk_image list \<Rightarrow> nat \<Rightarrow> mem" where
  "block_data [] b = (\<lambda>_. 0)"
| "block_data (di # dis) b = (if b \<in> marked (di_bm di) then di_data di else block_data dis b)"

definition lview :: "int \<Rightarrow> disk_image list \<Rightarrow> mem" where
  "lview D dis = (\<lambda>x. if 0 \<le> x \<and> x < D then block_data (rev dis) (nat (x div 4096)) x else 0)"

lemma lview_snoc: "lview D (dis @ [t]) x =
    (if 0 \<le> x \<and> x < D then if nat (x div 4096) \<in> marked (di_bm t) then di_data t x else lview D dis x else 0)"
  by (simp add: lview_def)

text \<open>Every bitmap has a bit for every block, and the base image has every block.\<close>

definition layers_ok :: "int \<Rightarrow> disk_image list \<Rightarrow> bool" where
  "layers_ok D dis \<longleftrightarrow> dis \<noteq> [] \<and> (\<forall>di \<in> set dis. unat (get_disk_nblocks D) \<le> 64 * length (di_bm di)) \<and>
     {..<unat (get_disk_nblocks D)} \<subseteq> marked (di_bm (hd dis))"

lemma find_layer_prefix:
  assumes "n \<le> length dis" and "0 < n" and "layers_ok D dis" and "unat idx < unat (get_disk_nblocks D)"
  shows "\<exists>i < n. find_layer dis idx n = Inr (Some i) \<and> block_data (rev (take n dis)) (unat idx) = di_data (dis ! i)"
  using assms(1,2)
proof (induction n)
  case (Suc n)
  have "dis ! n \<in> set dis" using Suc.prems(1) by simp
  then have t: "bitmap_test (di_bm (dis ! n)) idx = Inr (unat idx \<in> marked (di_bm (dis ! n)))"
    using assms(3,4) by (intro bitmap_test_in) (force simp: layers_ok_def)
  have tk: "rev (take (Suc n) dis) = dis ! n # rev (take n dis)" using Suc.prems(1) by (simp add: take_Suc_conv_app_nth)
  show ?case
  proof (cases "unat idx \<in> marked (di_bm (dis ! n))")
    case True
    with t tk show ?thesis by (intro exI[of _ n]) simp
  next
    case False
    have "n \<noteq> 0"
    proof
      assume "n = 0"
      then have "dis ! n = hd dis" using assms(3) by (simp add: layers_ok_def hd_conv_nth)
      with False assms(3,4) show False by (auto simp: layers_ok_def)
    qed
    with Suc False t tk show ?thesis using less_SucI by (auto simp: less_Suc_eq)
  qed
qed simp

lemma find_layer_ok:
  assumes "layers_ok D dis" and "unat idx < unat (get_disk_nblocks D)"
  obtains i where "i < length dis" and "find_layer dis idx (length dis) = Inr (Some i)" and "block_data (rev dis) (unat idx) = di_data (dis ! i)"
  using find_layer_prefix[OF _ _ assms, of "length dis"] assms(1) that by (auto simp: layers_ok_def)

section \<open>Reading\<close>

text \<open>The mapped regions of a range, one per layer.\<close>

definition region :: "int \<Rightarrow> mmap_block_region \<Rightarrow> bool" where
  "region from mbr \<longleftrightarrow> mbr_iobuf mbr = Some from \<and> ba_iobuf mbr = Some (from div 4096 * 4096)"

definition maps_work :: "mmap_fn \<Rightarrow> int \<Rightarrow> bool" where
  "maps_work kern D \<longleftrightarrow> mmap_works kern D False \<and> mmap_works kern D True"

lemma mmap_layers_ok:
  assumes "maps_work kern D" and "0 \<le> from" and "0 < uint len" and "from + uint len \<le> D" and "D < 9223372036854771712"
  shows "\<exists>mbrs. mmap_layers kern D from len dis = Inr mbrs \<and> length mbrs = length dis \<and> list_all (region from) mbrs"
proof (induction dis)
  case (Cons di dis)
  have "mmap_works kern D (persistent di)" using assms(1) by (cases "persistent di") (auto simp: maps_work_def)
  from mmap_block_region_create_ok[OF this assms(2-5)] Cons show ?case by (auto simp: region_def)
qed simp

lemma munmap_ok: "disk_stack_munmap True mbrs = Inr ()"
  by (induction mbrs) (auto simp: mmap_block_region_free_def mmap_region_free_def)

lemma stack_mem_layer:
  assumes "0 \<le> a" and "a + int n \<le> 18446744073709551616"
  shows "peek (stack_mem dis) (in_layer i a) n = peek (di_data (dis ! i)) a n"
proof (rule nth_equalityI)
  fix k
  assume "k < length (peek (stack_mem dis) (in_layer i a) n)"
  then have k: "k < n" by simp
  then have c: "0 \<le> a + int k" "a + int k < 18446744073709551616" using assms by linarith+
  have e: "in_layer i a + int k = (a + int k) + int i * 18446744073709551616" by (simp add: in_layer_def)
  have "(in_layer i a + int k) div 18446744073709551616 = int i" "(in_layer i a + int k) mod 18446744073709551616 = a + int k"
    unfolding e div_mult_self1[OF zero_neq_numeral[symmetric]] mod_mult_self1 using c by (simp_all add: div_pos_pos_trivial mod_pos_pos_trivial)
  with k show "peek (stack_mem dis) (in_layer i a) n ! k = peek (di_data (dis ! i)) a n ! k" by (simp add: stack_mem_def)
qed simp

text \<open>The bytes of block \<open>j\<close> of a range.\<close>

abbreviation chunk_sta :: "int \<Rightarrow> nat \<Rightarrow> int" where "chunk_sta from j \<equiv> max from (int j * 4096)"
abbreviation chunk_end :: "int \<Rightarrow> nat \<Rightarrow> int" where "chunk_end ioend j \<equiv> min ioend (int j * 4096 + 4096)"

lemma read_chunk_ok:
  assumes "layers_ok D dis" and "0 \<le> from" and "from < ioend" and "ioend \<le> D" and "D < 9223372036854771712"
    and "length mbrs = length dis" and "list_all (region from) mbrs" and "from div 4096 \<le> int j" and "int j \<le> (ioend - 1) div 4096"
  shows "\<exists>v. read_chunk dis mbrs from ioend (get_bindex_sta 4096 from) (of_nat j) = Inr v \<and>
    peek (stack_mem dis) (iov_base v) (iov_len v) = peek (lview D dis) (chunk_sta from j) (nat (chunk_end ioend j - chunk_sta from j)) \<and>
    int (iov_len v) = chunk_end ioend j - chunk_sta from j"
proof -
  let ?A = "chunk_sta from j" and ?B = "chunk_end ioend j"
  have lo: "from < int j * 4096 + 4096" using div_4096_bounds[of "from"] assms(8) by linarith
  have hi: "int j * 4096 < ioend" using div_4096_bounds[of "ioend - 1"] assms(9) by linarith
  have AB: "?A < ?B" "0 \<le> ?A" "?B \<le> D" "?B - ?A \<le> 4096" "int j * 4096 \<le> ?A" "?B \<le> int j * 4096 + 4096" using lo hi assms(2-4) by auto
  have j: "unat (of_nat j :: u64) = j" "sint (of_nat j :: u64) = int j" "sint (of_nat j + 1 :: u64) = int j + 1"
  proof -
    have "int j < 2251799813685248" using hi assms(4,5) by linarith
    then show "unat (of_nat j :: u64) = j" "sint (of_nat j :: u64) = int j" "sint (of_nat j + 1 :: u64) = int j + 1"
      using sint_of_small[of "int j"] sint_of_small[of "int j + 1"] by (simp_all add: unat_of_nat_small)
  qed
  have nb: "j < unat (get_disk_nblocks D)"
  proof -
    have "int j < (D + 4095) div 4096" using hi assms(4) div_4096_bounds[of "D + 4095"] by linarith
    then show ?thesis using assms by (simp add: nblocks_nat)
  qed
  obtain i where i: "i < length dis" "find_layer dis (of_nat j) (length dis) = Inr (Some i)" "block_data (rev dis) j = di_data (dis ! i)"
    using find_layer_ok[OF assms(1), of "of_nat j"] nb j(1) by auto
  have reg: "mbr_iobuf (mbrs ! i) = Some from" "ba_iobuf (mbrs ! i) = Some (from div 4096 * 4096)"
    using assms(6,7) i(1) by (auto simp: list_all_length region_def)
  have off: "from div 4096 * 4096 + uint ((of_nat j - get_bindex_sta 4096 from) * 4096 :: u64) = int j * 4096"
  proof -
    have "(of_nat j - get_bindex_sta 4096 from) * 4096 = (word_of_int ((int j - from div 4096) * 4096) :: u64)"
      using assms(2) by (simp add: get_bindex_sta_def sdiv_nonneg)
    moreover have "(int j - from div 4096) * 4096 = int j * 4096 - 4096 * (from div 4096)" by simp
    moreover have "0 \<le> int j * 4096 - 4096 * (from div 4096)" "int j * 4096 - 4096 * (from div 4096) < 18446744073709551616"
      using assms(2,8) hi assms(4,5) by linarith+
    ultimately show ?thesis using uint_word_of_int_u64[of "int j * 4096 - 4096 * (from div 4096)"] by (simp only: mult.commute)
  qed
  have len: "uint (word_of_int ?B - word_of_int ?A :: u64) = ?B - ?A"
    using AB uint_word_of_int_u64[of "?B - ?A"] by simp
  then have ulen: "int (unat (word_of_int ?B - word_of_int ?A :: u64)) = ?B - ?A" by simp
  let ?v = "\<lparr>iov_base = in_layer i ?A, iov_len = unat (word_of_int ?B - word_of_int ?A :: u64)\<rparr>"
  have "(word_of_int ?B - word_of_int ?A :: u64) \<le> 4096" using len AB(4) by (simp add: word_le_def)
  then have r: "read_chunk dis mbrs from ioend (get_bindex_sta 4096 from) (of_nat j) = Inr ?v"
    using i(2) reg off by (simp add: read_chunk_def Let_def j addr_def distrib_right)
  have n: "iov_len ?v = nat (?B - ?A)" using ulen by (simp only: iovec.simps)
  have "peek (stack_mem dis) (in_layer i ?A) (nat (?B - ?A)) = peek (di_data (dis ! i)) ?A (nat (?B - ?A))"
    using AB assms(5) by (intro stack_mem_layer) auto
  also have "\<dots> = peek (lview D dis) ?A (nat (?B - ?A))"
  proof (rule peek_cong)
    fix x
    assume "?A \<le> x" "x < ?A + int (nat (?B - ?A))"
    then have "int j * 4096 \<le> x" "x < int j * 4096 + 4096" "0 \<le> x" "x < D" using AB by auto
    moreover from this have "x div 4096 = int j" by linarith
    ultimately show "di_data (dis ! i) x = lview D dis x" using i(3) by (simp add: lview_def)
  qed
  finally show ?thesis using r n ulen by (intro exI[of _ ?v]) simp
qed

lemma mapE_append: "mapE f (xs @ ys) = bindE (mapE f xs) (\<lambda>a. bindE (mapE f ys) (\<lambda>b. Inr (a @ b)))"
  by (induction xs) (auto simp: bindE_def split: sum.splits)

lemma read_chunks_ok:
  assumes "layers_ok D dis" and "0 \<le> from" and "from < ioend" and "ioend \<le> D" and "D < 9223372036854771712"
    and "length mbrs = length dis" and "list_all (region from) mbrs"
  defines "s \<equiv> nat (from div 4096)"
  shows "n \<le> nat ((ioend - 1) div 4096) + 1 - s \<Longrightarrow>
    \<exists>vs. mapE (read_chunk dis mbrs from ioend (get_bindex_sta 4096 from)) (map of_nat [s..<s + n]) = Inr vs \<and>
      gather (stack_mem dis) vs = peek (lview D dis) from (nat (min ioend (int (s + n) * 4096) - from)) \<and>
      (0 < n \<longrightarrow> int (iov_total vs) = min ioend (int (s + n) * 4096) - from) \<and> (n = 0 \<longrightarrow> vs = [])"
proof (induction n)
  case 0
  have "int s * 4096 \<le> from" using assms(2) div_4096_bounds[of "from"] by (simp add: s_def)
  then show ?case by (simp add: gather_def)
next
  case (Suc n)
  then obtain vs where vs: "mapE (read_chunk dis mbrs from ioend (get_bindex_sta 4096 from)) (map of_nat [s..<s + n]) = Inr vs"
    "gather (stack_mem dis) vs = peek (lview D dis) from (nat (min ioend (int (s + n) * 4096) - from))"
    "0 < n \<longrightarrow> int (iov_total vs) = min ioend (int (s + n) * 4096) - from" "n = 0 \<longrightarrow> vs = []" by auto
  let ?j = "s + n"
  have s: "int s = from div 4096" using assms(2) by (simp add: s_def)
  have e0: "0 \<le> (ioend - 1) div 4096" using assms(2,3) by simp
  have jl: "from div 4096 \<le> int ?j" using s by simp
  have jh: "int ?j \<le> (ioend - 1) div 4096" using Suc.prems e0 by linarith
  obtain v where v: "read_chunk dis mbrs from ioend (get_bindex_sta 4096 from) (of_nat ?j) = Inr v"
    "peek (stack_mem dis) (iov_base v) (iov_len v) = peek (lview D dis) (chunk_sta from ?j) (nat (chunk_end ioend ?j - chunk_sta from ?j))"
    "int (iov_len v) = chunk_end ioend ?j - chunk_sta from ?j"
    using read_chunk_ok[OF assms(1-7) jl jh] by blast
  have m: "mapE (read_chunk dis mbrs from ioend (get_bindex_sta 4096 from)) (map of_nat [s..<s + Suc n]) = Inr (vs @ [v])"
    using vs(1) v(1) by (simp add: mapE_append)
  have "int ?j * 4096 \<le> (ioend - 1) div 4096 * 4096" using jh by (intro mult_right_mono) auto
  then have lt: "int ?j * 4096 < ioend" using div_4096_bounds[of "ioend - 1"] by linarith
  have fs: "from < int s * 4096 + 4096" "int s * 4096 \<le> from" using div_4096_bounds[of "from"] s by linarith+
  let ?P = "min ioend (int ?j * 4096) - from" and ?Q = "chunk_end ioend ?j - chunk_sta from ?j"
  have split: "nat (min ioend (int (s + Suc n) * 4096) - from) = nat ?P + nat ?Q" "chunk_sta from ?j = from + int (nat ?P)"
    using lt fs by (auto simp: min_def max_def distrib_right nat_add_distrib[symmetric])
  have "gather (stack_mem dis) (vs @ [v]) = peek (lview D dis) from (nat ?P + nat ?Q)"
    using vs(2) v(2) split(2) by (simp add: gather_def peek_add)
  moreover have "int (iov_total (vs @ [v])) = min ioend (int (s + Suc n) * 4096) - from"
  proof (cases "n = 0")
    case True
    then show ?thesis using vs(4) v(3) fs by (auto simp: min_def max_def iov_total_def)
  next
    case False
    then show ?thesis using vs(3) v(3) lt fs by (auto simp: min_def max_def iov_total_def distrib_right)
  qed
  ultimately show ?case using m unfolding split(1) by (intro exI[of _ "vs @ [v]"] conjI impI) (simp_all only: Suc_neq_Zero)
qed

lemma stack_read_iov_ok:
  assumes "layers_ok D (image ds)" and "ds_disksize ds = D" and "0 \<le> from" and "0 < uint len" and "from + uint len \<le> D"
    and "D < 9223372036854771712" and "uint len < 2147483632" and "length mbrs = nlayers ds" and "list_all (region from) mbrs"
  shows "\<exists>vs. stack_read_iov ds mbrs from len = Inr vs \<and> gather (stack_mem (image ds)) vs = peek (lview D (image ds)) from (unat len) \<and>
    iov_total vs = unat len"
proof -
  let ?e = "from + uint len"
  have e: "sint (word_of_int from + len :: u64) = ?e" using assms(3-6) sint_of_small[of ?e] by (simp add: wi_hom_add[symmetric])
  have b: "unat (get_bindex_sta 4096 from) = nat (from div 4096)" "unat (get_bindex_end 4096 ?e) = nat ((?e - 1) div 4096)"
    using assms(3-6) by (auto simp: bindex_sta_nat bindex_end_nat)
  have q: "0 \<le> from div 4096" "from div 4096 \<le> (?e - 1) div 4096" using assms(3,4) by (auto intro: zdiv_mono1)
  let ?n = "nat ((?e - 1) div 4096) + 1 - nat (from div 4096)"
  have lt: "from < ?e" using assms(4) by simp
  have n0: "0 < ?n" "nat (from div 4096) + ?n = Suc (nat ((?e - 1) div 4096))" using q by auto
  have range: "ul_range (get_bindex_sta 4096 from) (get_bindex_end 4096 ?e) = map of_nat [nat (from div 4096)..<nat (from div 4096) + ?n]"
    by (simp only: ul_range_def b n0(2))
  have top: "int (nat (from div 4096) + ?n) * 4096 \<ge> ?e" using n0(2) q div_4096_bounds[of "?e - 1"] by simp
  have small: "get_bindex_end 4096 ?e - get_bindex_sta 4096 from + 1 \<le> (0xFFFFFFFF :: u64)"
  proof -
    have "(?e - 1) div 4096 \<le> from div 4096 + uint len" using assms(3,4) div_4096_bounds[of "?e - 1"] div_4096_bounds[of "from"] by linarith
    then have "unat (get_bindex_end 4096 ?e) - unat (get_bindex_sta 4096 from) < 2147483632" using b q assms(7) by linarith
    moreover have "unat (get_bindex_end 4096 ?e - get_bindex_sta 4096 from) = unat (get_bindex_end 4096 ?e) - unat (get_bindex_sta 4096 from)"
      using b q by (intro unat_sub) (simp add: word_le_nat_alt nat_mono)
    ultimately show ?thesis by (simp add: word_le_nat_alt unat_word_ariths)
  qed
  obtain vs where vs: "mapE (read_chunk (image ds) mbrs from ?e (get_bindex_sta 4096 from)) (map of_nat [nat (from div 4096)..<nat (from div 4096) + ?n]) = Inr vs"
    "gather (stack_mem (image ds)) vs = peek (lview D (image ds)) from (nat (min ?e (int (nat (from div 4096) + ?n) * 4096) - from))"
    "int (iov_total vs) = min ?e (int (nat (from div 4096) + ?n) * 4096) - from"
    using read_chunks_ok[OF assms(1,3) lt assms(5,6,8,9) order_refl] n0(1) by blast
  have m: "min ?e (int (nat (from div 4096) + ?n) * 4096) - from = uint len" using min.absorb1[OF top] by simp
  have "gather (stack_mem (image ds)) vs = peek (lview D (image ds)) from (unat len)" using vs(2) unfolding m by (simp only: unat_eq_nat_uint)
  moreover have "iov_total vs = unat len" using vs(3) unfolding m unat_eq_nat_uint by linarith
  ultimately show ?thesis using vs(1) small by (simp only: stack_read_iov_def Let_def e range assertE_simps(1) bindE_simps simp_thms Inr_inject ex_simps) blast
qed

section \<open>Writing\<close>

text \<open>What copying a block up changes: the top layer gets the visible bytes of the block.\<close>

definition copy_up :: "int \<Rightarrow> mem \<Rightarrow> nat \<Rightarrow> disk_image \<Rightarrow> disk_image" where
  "copy_up D V j t = t\<lparr>di_data := \<lambda>x. if int j * 4096 \<le> x \<and> x < int j * 4096 + 4096 \<and> x < D then V x else di_data t x\<rparr>"

lemma copy_up_simps [simp]: "di_bm (copy_up D V j t) = di_bm t" "persistent (copy_up D V j t) = persistent t"
  by (simp_all add: copy_up_def)

lemma copy_up_in: "int j * 4096 \<le> x \<Longrightarrow> x < int j * 4096 + 4096 \<Longrightarrow> x < D \<Longrightarrow> di_data (copy_up D V j t) x = V x"
  by (simp add: copy_up_def)

lemma lview_same:
  assumes "di_bm t' = di_bm t" and "\<And>x. 0 \<le> x \<Longrightarrow> x < D \<Longrightarrow> nat (x div 4096) \<in> marked (di_bm t) \<Longrightarrow> di_data t' x = di_data t x"
  shows "lview D (lower @ [t']) = lview D (lower @ [t])"
proof
  fix x
  show "lview D (lower @ [t']) x = lview D (lower @ [t]) x" using assms by (simp add: lview_snoc)
qed

lemma copy_block_ok:
  assumes "layers_ok D (lower @ [t])" and "\<not> persistent t" and "length mbrs = Suc (length lower)" and "list_all (region from) mbrs"
    and "0 \<le> from" and "from div 4096 \<le> int j" and "int j * 4096 < D" and "D < 9223372036854771712"
  shows "copy_block_to_top_layer D mbrs (of_nat j) (get_bindex_sta 4096 from) (lower @ [t]) = Inr (lower @ [copy_up D (lview D (lower @ [t])) j t])"
proof -
  have j: "unat (of_nat j :: u64) = j" "sint (of_nat j :: u64) = int j"
  proof -
    have "int j < 2251799813685248" using assms(7,8) by linarith
    then show "unat (of_nat j :: u64) = j" "sint (of_nat j :: u64) = int j"
      using sint_of_small[of "int j"] by (simp_all add: unat_of_nat_small)
  qed
  have nb: "j < unat (get_disk_nblocks D)"
  proof -
    have "int j < (D + 4095) div 4096" using assms(7) div_4096_bounds[of "D + 4095"] by linarith
    moreover have "0 \<le> D" using assms(7) by linarith
    ultimately show ?thesis using assms(8) by (simp add: nblocks_nat)
  qed
  obtain i where i: "i < length (lower @ [t])" "find_layer (lower @ [t]) (of_nat j) (length (lower @ [t])) = Inr (Some i)"
    "block_data (rev (lower @ [t])) j = di_data ((lower @ [t]) ! i)"
    using find_layer_ok[OF assms(1), of "of_nat j"] nb j(1) by auto
  have reg: "ba_iobuf (mbrs ! k) = Some (from div 4096 * 4096)" if "k < Suc (length lower)" for k
    using assms(3,4) that by (auto simp: list_all_length region_def)
  have off: "from div 4096 * 4096 + uint ((of_nat j - get_bindex_sta 4096 from) * 4096 :: u64) = int j * 4096"
  proof -
    have "(of_nat j - get_bindex_sta 4096 from) * 4096 = (word_of_int ((int j - from div 4096) * 4096) :: u64)"
      using assms(5) by (simp add: get_bindex_sta_def sdiv_nonneg)
    moreover have "(int j - from div 4096) * 4096 = int j * 4096 - 4096 * (from div 4096)" by simp
    moreover have "0 \<le> int j * 4096 - 4096 * (from div 4096)" "int j * 4096 - 4096 * (from div 4096) < 18446744073709551616"
      using assms(5-8) by linarith+
    ultimately show ?thesis using uint_word_of_int_u64[of "int j * 4096 - 4096 * (from div 4096)"] by (simp only: mult.commute)
  qed
  let ?len = "confine_iolen_within_disk D (int j * 4096) 4096"
  have len: "int (unat ?len) = min (D - int j * 4096) 4096"
    using assms(7,8) uint_word_of_int_u64[of "D - int j * 4096"]
    by (auto simp: confine_iolen_within_disk_def Let_def word_less_def min_def)
  have "poke (di_data t) (int j * 4096) (peek (di_data ((lower @ [t]) ! i)) (int j * 4096) (unat ?len)) x =
    di_data (copy_up D (lview D (lower @ [t])) j t) x" for x
  proof (cases "int j * 4096 \<le> x \<and> x < int j * 4096 + 4096 \<and> x < D")
    case True
    then have "x div 4096 = int j" "0 \<le> x" by linarith+
    moreover have lt: "x - int j * 4096 < int (unat ?len)" unfolding len using True by simp
    then have "nat (x - int j * 4096) < unat ?len" "x < int j * 4096 + int (unat ?len)" using True by linarith+
    ultimately show ?thesis using True i(3) by (simp add: poke_def copy_up_def lview_def)
  next
    case False
    then have "x < int j * 4096 \<or> int j * 4096 + int (unat ?len) \<le> x" unfolding len by auto
    with False show ?thesis by (auto simp: poke_def copy_up_def)
  qed
  then have "t\<lparr>di_data := poke (di_data t) (int j * 4096) (peek (di_data ((lower @ [t]) ! i)) (int j * 4096) (unat ?len))\<rparr> =
      copy_up D (lview D (lower @ [t])) j t" by (simp add: copy_up_def fun_eq_iff)
  then show ?thesis using i(1,2) assms(2) reg off
    by (simp add: copy_block_to_top_layer_def Let_def j set_top_def addr_def)
qed

lemma foldE_mark_top: "\<not> persistent t \<Longrightarrow> foldE mark_top is (lower @ [t]) =
    bindE (foldE (\<lambda>i b. bitmap_on b i) is (di_bm t)) (\<lambda>b. Inr (lower @ [t\<lparr>di_bm := b\<rparr>]))"
proof (induction "is" arbitrary: t)
  case (Cons i "is")
  show ?case
  proof (cases "bitmap_on (di_bm t) i")
    case (Inr b)
    then have "mark_top i (lower @ [t]) = Inr (lower @ [t\<lparr>di_bm := b\<rparr>])" using Cons.prems by (simp add: mark_top_def set_top_def)
    with Inr Cons.IH[of "t\<lparr>di_bm := b\<rparr>"] Cons.prems show ?thesis by simp
  qed (simp add: mark_top_def)
qed simp

text \<open>The block of a byte outside the written range, when it is one of the range's blocks.\<close>

lemma edge_block:
  assumes "0 \<le> x" and "nat (from div 4096) \<le> nat (x div 4096)" and "nat (x div 4096) \<le> nat ((e - 1) div 4096)" and "0 \<le> from" and "from < e"
  shows "x < from \<Longrightarrow> nat (x div 4096) = nat (from div 4096) \<and> from mod 4096 \<noteq> 0"
    and "e \<le> x \<Longrightarrow> nat (x div 4096) = nat ((e - 1) div 4096) \<and> e mod 4096 \<noteq> 0"
proof -
  have "0 \<le> x div 4096" "0 \<le> (e - 1) div 4096" using assms(1,4,5) by simp_all
  then have q: "from div 4096 \<le> x div 4096" "x div 4096 \<le> (e - 1) div 4096" using assms(2,3) by linarith+
  show "nat (x div 4096) = nat (from div 4096) \<and> from mod 4096 \<noteq> 0" if "x < from"
  proof -
    have "x div 4096 = from div 4096" using q(1) that zdiv_mono1[of x "from" 4096] by linarith
    moreover have "from mod 4096 \<noteq> 0" using calculation that div_4096_bounds[of x] mult_div_mod_eq[of 4096 "from"] by linarith
    ultimately show ?thesis by simp
  qed
  show "nat (x div 4096) = nat ((e - 1) div 4096) \<and> e mod 4096 \<noteq> 0" if "e \<le> x"
  proof -
    have "x div 4096 = (e - 1) div 4096" using q(2) that zdiv_mono1[of "e - 1" x 4096] by linarith
    moreover have "e mod 4096 \<noteq> 0" using calculation that div_4096_bounds[of x] div_4096_bounds[of "e - 1"] mult_div_mod_eq[of 4096 e] div_4096_pred[of e] by (auto split: if_splits)
    ultimately show ?thesis by simp
  qed
qed

lemma prepare_write_ok:
  assumes "layers_ok D (lower @ [t])" and "\<not> persistent t" and "length mbrs = Suc (length lower)" and "list_all (region from) mbrs"
    and "0 \<le> from" and "0 < uint len" and "from + uint len \<le> D" and "D < 9223372036854771712"
  shows "\<exists>t'. stack_prepare_write D mbrs from len (lower @ [t]) = Inr (lower @ [t']) \<and> \<not> persistent t' \<and> length (di_bm t') = length (di_bm t) \<and>
    marked (di_bm t') = marked (di_bm t) \<union> {nat (from div 4096)..nat ((from + uint len - 1) div 4096)} \<and>
    (\<forall>x. 0 \<le> x \<and> x < D \<and> \<not> (from \<le> x \<and> x < from + uint len) \<and> nat (x div 4096) \<in> marked (di_bm t') \<longrightarrow> di_data t' x = lview D (lower @ [t]) x)"
proof -
  let ?e = "from + uint len" and ?V = "lview D (lower @ [t])" and ?M = "marked (di_bm t)"
  let ?s = "nat (from div 4096)" and ?l = "nat ((from + uint len - 1) div 4096)"
  let ?is = "get_bindex_sta 4096 from" and ?ie = "get_bindex_end 4096 ?e"
  have e: "sint (word_of_int from + len :: u64) = ?e" using assms(5-8) sint_of_small[of ?e] by (simp add: wi_hom_add[symmetric])
  have b: "unat ?is = ?s" "unat ?ie = ?l" using assms(5-8) by (auto simp: bindex_sta_nat bindex_end_nat)
  have w: "?is = of_nat ?s" "?ie = of_nat ?l" by (simp_all add: b[symmetric])
  have q: "0 \<le> from div 4096" "from div 4096 \<le> (?e - 1) div 4096" using assms(5,6) by (auto intro: zdiv_mono1)
  then have sl: "?s \<le> ?l" by (simp add: nat_mono)
  have lD: "int ?l * 4096 < D" "int ?s * 4096 < D" using q assms(7) div_4096_bounds[of "?e - 1"] div_4096_bounds[of "from"] assms(6) by simp_all
  have cap: "?l < 64 * length (di_bm t)" "?s < 64 * length (di_bm t)"
    using bindex_end_bound[of ?e D] b sl assms(1,5-8) by (auto simp: layers_ok_def)
  define g1 where "g1 = (from mod 4096 \<noteq> 0 \<and> ?s \<notin> ?M)"
  define g2 where "g2 = (?e mod 4096 \<noteq> 0 \<and> (?s < ?l \<or> ?s = ?l \<and> \<not> g1) \<and> ?l \<notin> ?M)"
  define t1 where "t1 = (if g1 then copy_up D ?V ?s t else t)"
  define t2 where "t2 = (if g2 then copy_up D ?V ?l t1 else t1)"
  have V1: "lview D (lower @ [t1]) = ?V"
    by (rule lview_same) (auto simp: t1_def copy_up_def lview_snoc)
  have keep: "di_bm t1 = di_bm t" "\<not> persistent t1" "di_bm t2 = di_bm t" "\<not> persistent t2" using assms(2) by (simp_all add: t1_def t2_def)
  have L1: "layers_ok D (lower @ [t1])" using assms(1) keep by (cases lower) (auto simp: layers_ok_def)
  have cb1: "copy_block_to_top_layer D mbrs ?is ?is (lower @ [t]) = Inr (lower @ [copy_up D ?V ?s t])"
    using copy_block_ok[OF assms(1-5), of ?s] q lD assms(8) by (simp only: w(1)[symmetric]) simp
  have cb2: "copy_block_to_top_layer D mbrs ?ie ?is (lower @ [t1]) = Inr (lower @ [copy_up D ?V ?l t1])"
    using copy_block_ok[OF L1 keep(2) assms(3-5), of ?l] q lD assms(8) by (simp only: w(2)[symmetric] V1) simp
  have c1: "(if g1 then copy_block_to_top_layer D mbrs ?is ?is (lower @ [t]) else Inr (lower @ [t])) = Inr (lower @ [t1])"
    by (simp add: t1_def cb1)
  have c2: "(if g2 then copy_block_to_top_layer D mbrs ?ie ?is (lower @ [t1]) else Inr (lower @ [t1])) = Inr (lower @ [t2])"
    by (simp add: t2_def cb2)
  obtain b' where b': "foldE (\<lambda>i b. bitmap_on b i) (ul_range ?is ?ie) (di_bm t) = Inr b'" "64 * length b' = 64 * length (di_bm t)"
    "marked b' = ?M \<union> {?s..?l}" using bm.on_range[of ?ie "di_bm t" ?is] cap(1) b by auto
  have m1: "from smod 4096 = from mod 4096" "?e smod 4096 = ?e mod 4096" using assms(5,6) by (simp_all add: smod_nonneg)
  have ord: "?ie > ?is \<longleftrightarrow> ?s < ?l" "?ie = ?is \<longleftrightarrow> ?s = ?l" using b by (auto simp: word_less_nat_alt word_unat_eq_iff)
  have t1': "(if from smod 4096 \<noteq> 0 then bindE (bitmap_test (di_bm t) ?is) (\<lambda>b. Inr (\<not> b)) else Inr False) = Inr g1"
    using bitmap_test_in[of ?is "di_bm t"] cap b m1 by (simp add: g1_def)
  have t2': "(if ?e smod 4096 \<noteq> 0 \<and> (?ie > ?is \<or> ?ie = ?is \<and> \<not> g1) then bindE (bitmap_test (di_bm t) ?ie) (\<lambda>b. Inr (\<not> b)) else Inr False) = Inr g2"
    using bitmap_test_in[of ?ie "di_bm t"] cap b m1 ord by (auto simp: g2_def)
  have r: "stack_prepare_write D mbrs from len (lower @ [t]) = Inr (lower @ [t2\<lparr>di_bm := b'\<rparr>])"
    unfolding stack_prepare_write_def Let_def e last_snoc t1' bindE_simps t2' c1 c2 foldE_mark_top[OF keep(4)] keep(3) b'(1) ..
  have "di_data t2 x = ?V x" if x: "0 \<le> x" "x < D" "\<not> (from \<le> x \<and> x < ?e)" "nat (x div 4096) \<in> ?M \<union> {?s..?l}" for x
  proof (cases "nat (x div 4096) \<in> ?M")
    case True
    have "x div 4096 = int j" if "int j * 4096 \<le> x" "x < int j * 4096 + 4096" for j using that by linarith
    moreover have V: "?V x = di_data t x" using True x by (simp add: lview_snoc)
    ultimately have "di_data t2 x = di_data t x" by (auto simp: t2_def t1_def copy_up_def)
    moreover note V
    ultimately show ?thesis by simp
  next
    case False
    then have blk: "?s \<le> nat (x div 4096)" "nat (x div 4096) \<le> ?l" using x(4) by auto
    note eb = edge_block[OF x(1) blk assms(5)]
    have inb: "int (nat (x div 4096)) * 4096 \<le> x" "x < int (nat (x div 4096)) * 4096 + 4096" using x(1) div_4096_bounds[of x] by simp_all
    have "x < from \<or> ?e \<le> x" using x(3) by auto
    then show ?thesis
    proof
      assume "x < from"
      with eb(1) assms(6) have "nat (x div 4096) = ?s" g1 using False by (auto simp: g1_def)
      with inb x(2) show ?thesis by (simp add: t2_def t1_def copy_up_def)
    next
      assume "?e \<le> x"
      with eb(2) assms(6) have l: "nat (x div 4096) = ?l" "?e mod 4096 \<noteq> 0" by auto
      show ?thesis
      proof (cases g2)
        case True
        with inb x(2) l(1) show ?thesis by (simp add: t2_def copy_up_def)
      next
        case g2: False
        then have n: "\<not> ?s < ?l" "?s = ?l \<longrightarrow> g1" unfolding g2_def using l(2) False[unfolded l(1)] by blast+
        note eq = le_antisym[OF sl leI[OF n(1)]]
        then have g1: g1 using n(2) by blast
        have "t2 = copy_up D ?V ?s t" unfolding t2_def t1_def by (simp only: g1 g2 if_True if_False)
        then show ?thesis using copy_up_in[OF inb[unfolded trans[OF l(1) eq[symmetric]]] x(2)] by metis
      qed
    qed
  qed
  with r keep b' show ?thesis by (intro exI[of _ "t2\<lparr>di_bm := b'\<rparr>"]) auto
qed

lemma lview_poke:
  assumes "marked (di_bm t') = marked (di_bm t) \<union> {nat (from div 4096)..nat ((from + int (length bs) - 1) div 4096)}" and "0 \<le> from" and "bs \<noteq> []"
    and "from + int (length bs) \<le> D"
    and "\<forall>x. 0 \<le> x \<and> x < D \<and> \<not> (from \<le> x \<and> x < from + int (length bs)) \<and> nat (x div 4096) \<in> marked (di_bm t') \<longrightarrow>
      di_data t' x = lview D (lower @ [t]) x"
  shows "lview D (lower @ [t'\<lparr>di_data := poke (di_data t') from bs\<rparr>]) = poke (lview D (lower @ [t])) from bs"
proof
  fix x
  show "lview D (lower @ [t'\<lparr>di_data := poke (di_data t') from bs\<rparr>]) x = poke (lview D (lower @ [t])) from bs x"
  proof (cases "from \<le> x \<and> x < from + int (length bs)")
    case True
    then have "from div 4096 \<le> x div 4096" "x div 4096 \<le> (from + int (length bs) - 1) div 4096" by (auto intro: zdiv_mono1)
    then have "nat (x div 4096) \<in> marked (di_bm t')" using assms(1) by (simp add: nat_mono)
    with True assms(2,4) show ?thesis by (simp add: lview_snoc poke_def)
  next
    case False
    then have p: "poke m from bs x = m x" for m by (auto simp: poke_def)
    show ?thesis using False assms(1,5) by (auto simp: lview_snoc p)
  qed
qed

section \<open>A round implements the abstract server\<close>

definition cow_kernel_ok :: "int \<Rightarrow> ckern \<Rightarrow> bool" where
  "cow_kernel_ok D k \<longleftrightarrow> ck_poll k = PollReady True False \<and> maps_work (ck_mmap k) D \<and> ck_munmap k"

definition cow_inv :: "int \<Rightarrow> cstate \<Rightarrow> bool" where
  "cow_inv D st \<longleftrightarrow> c_disksize st = D \<and> ds_disksize (c_ds st) = D \<and> 0 \<le> D \<and> D < 9223372036854771712 \<and> layers_ok D (image (c_ds st))"

text \<open>A copy-on-write target serves reads, and writes unless it is read-only.\<close>

fun is_flush :: "req \<Rightarrow> bool" where
  "is_flush (FlushReq h) = True"
| "is_flush _ = False"

definition cow_accepts :: "int \<Rightarrow> cstate \<Rightarrow> req \<Rightarrow> bool" where
  "cow_accepts D st r \<longleftrightarrow> sane D r \<and> \<not> is_flush r \<and> (c_readonly st \<or> persistent (last (image (c_ds st))) \<longrightarrow> \<not> writes r)"

lemma net_readv_all_or_abort_full:
  assumes "wf_sock s" and "n < 2147483648" and "n \<le> length (pending s)"
    and "0 < n"
  shows "\<exists>s'. net_readv_all_or_abort m s [\<lparr>iov_base = a, iov_len = n\<rparr>] e = Inr (poke m a (take n (pending s)), s', e) \<and>
    wf_sock s' \<and> pending s' = drop n (pending s) \<and> tx_part s' = tx_part s"
proof -
  obtain segs where "net_iov_all True [\<lparr>iov_base = a, iov_len = n\<rparr>] 0 m s e =
      (int n, scatter m [\<lparr>iov_base = a, iov_len = n\<rparr>] (pending s), s\<lparr>rx := segs\<rparr>, e)"
    and "concat segs = drop n (pending s)" and "[] \<notin> set segs"
    using net_iov_all_read_full[of "[\<lparr>iov_base = a, iov_len = n\<rparr>]" s 0 m e] assms by auto
  then show ?thesis using assms(2,4)
    by (intro exI[of _ "s\<lparr>rx := segs\<rparr>"]) (simp add: net_readv_all_or_abort_def check_fin_def int32_of_nat wf_sock_def pending_def tx_part_def)
qed

lemma cow_dispatch:
  assumes "ck_poll k = PollReady True False" and "nbd_server_recv_request (c_sock st) (c_disksize st) fresh_out =
      (0, \<lparr>iotype_arg = iotype, iofrom_arg = from, iolen_arg = len, reply_arg = reply\<rparr>, s)"
    and "iotype = NBD_CMD_READ \<or> iotype = NBD_CMD_WRITE \<and> \<not> c_readonly st"
    and "disk_stack_mmap (ck_mmap k) (c_ds st) from len (iotype = NBD_CMD_READ) = Inr (mbrs, iov, ds)" and "ck_munmap k"
    and "(if iotype = NBD_CMD_WRITE then cow_write reply iov (st\<lparr>c_sock := s, c_ds := ds\<rparr>) else cow_read k False False reply iov (st\<lparr>c_sock := s, c_ds := ds\<rparr>)) = (Inr (), st')"
  shows "target_mode_main_cow k st = (Inr 0, st')"
  using assms munmap_ok by (auto simp: target_mode_main_cow_def cow_transfer_def poll_request_arrival_def wait_until_readable_def Let_def)

lemma cow_read_round:
  assumes "cow_inv D st" and "cow_kernel_ok D k" and "sane D (ReadReq h from len)" and "wf_sock (c_sock st)" and "writable (c_sock st)"
    and "pending (c_sock st) = enc_req (ReadReq h from len) @ rest"
  shows "\<exists>s'. target_mode_main_cow k st = (Inr 0, st\<lparr>c_sock := s'\<rparr>) \<and> wf_sock s' \<and> writable s' \<and> pending s' = rest \<and>
    tx s' = tx (c_sock st) @ fst (serve_spec (lview D (image (c_ds st))) (ReadReq h from len))"
proof -
  have p: "0 \<le> from" "0 < uint len" "from + uint len \<le> D" "uint len < 2147483632" using assms(3) by simp_all
  have D: "c_disksize st = D" "ds_disksize (c_ds st) = D" "D < 9223372036854771712" "layers_ok D (image (c_ds st))" using assms(1) by (auto simp: cow_inv_def)
  obtain s1 where s1: "nbd_server_recv_request (c_sock st) (c_disksize st) fresh_out =
      (0, \<lparr>iotype_arg = 0, iofrom_arg = from, iolen_arg = len, reply_arg = ok_reply h\<rparr>, s1)"
      "wf_sock s1" "pending s1 = rest" "tx_part s1 = tx_part (c_sock st)"
    using recv_req_header[of "c_sock st" "from" len D 0 h rest] assms(4,6) p D by auto
  have w1: "writable s1" "tx s1 = tx (c_sock st)" using assms(5) sock_part_simps(1)[OF s1(4)] by simp_all
  obtain mbrs where m: "mmap_layers (ck_mmap k) D from len (image (c_ds st)) = Inr mbrs" "length mbrs = nlayers (c_ds st)" "list_all (region from) mbrs"
    using mmap_layers_ok[of "ck_mmap k" D "from" len "image (c_ds st)"] assms(2) p D by (auto simp: cow_kernel_ok_def)
  obtain vs where vs: "stack_read_iov (c_ds st) mbrs from len = Inr vs" "gather (stack_mem (image (c_ds st))) vs = peek (lview D (image (c_ds st))) from (unat len)"
    "iov_total vs = unat len" using stack_read_iov_ok[OF D(4,2) p(1-3) D(3) p(4) m(2,3)] by blast
  have n: "unat len < 2147483648"
  proof -
    have "int (unat len) = uint len" by simp
    then show ?thesis using p(4) by linarith
  qed
  obtain s2 where s2: "net_send_all_or_abort s1 (enc_reply (ok_reply h)) (c_errno st) = Inr (s2, c_errno st)" "writable s2"
      "tx s2 = tx s1 @ enc_reply (ok_reply h)" "rx_part s2 = rx_part s1"
    using net_send_all_or_abort_full[OF w1(1), of "enc_reply (ok_reply h)" "c_errno st"] by auto
  obtain s3 where s3: "net_writev_all_or_abort (stack_mem (image (c_ds st))) s2 vs (c_errno st) = Inr (s3, c_errno st)" "writable s3"
      "tx s3 = tx s2 @ gather (stack_mem (image (c_ds st))) vs" "rx_part s3 = rx_part s2"
    using net_writev_all_or_abort_full[OF s2(2), of vs "stack_mem (image (c_ds st))" "c_errno st"] vs(3) n by auto
  have "cow_read k False False (ok_reply h) vs (st\<lparr>c_sock := s1, c_ds := c_ds st\<rparr>) = (Inr (), st\<lparr>c_sock := s3\<rparr>)"
    using s2(1) s3(1) by (simp add: cow_read_def)
  then have "target_mode_main_cow k st = (Inr 0, st\<lparr>c_sock := s3\<rparr>)"
    using assms(2) m(1) vs(1) D(2) by (intro cow_dispatch[OF _ s1(1)]) (auto simp: cow_kernel_ok_def disk_stack_mmap_def)
  moreover have "wf_sock s3" "pending s3 = rest" using sock_part_simps(2)[OF s3(4)] sock_part_simps(2)[OF s2(4)] s1(2,3) by auto
  ultimately show ?thesis using s3(2,3) s2(3) w1(2) vs(2) by (intro exI[of _ s3]) simp
qed

lemma image_snoc: "dis \<noteq> [] \<Longrightarrow> dis = butlast dis @ [last dis]"
  by simp

lemma cow_write_round:
  assumes "cow_inv D st" and "cow_kernel_ok D k" and "cow_accepts D st (WriteReq h from bs)" and "wf_sock (c_sock st)" and "writable (c_sock st)"
    and "pending (c_sock st) = enc_req (WriteReq h from bs) @ rest"
  shows "\<exists>st'. target_mode_main_cow k st = (Inr 0, st') \<and> cow_inv D st' \<and> c_readonly st' = c_readonly st \<and>
    persistent (last (image (c_ds st'))) = persistent (last (image (c_ds st))) \<and> wf_sock (c_sock st') \<and> writable (c_sock st') \<and>
    pending (c_sock st') = rest \<and> tx (c_sock st') = tx (c_sock st) @ enc_reply (ok_reply h) \<and>
    lview D (image (c_ds st')) = poke (lview D (image (c_ds st))) from bs"
proof -
  define lower t where "lower = butlast (image (c_ds st))" and "t = last (image (c_ds st))"
  have p: "0 \<le> from" "bs \<noteq> []" "from + int (length bs) \<le> D" "length bs < 2147483632" "\<not> persistent t" "\<not> c_readonly st"
    using assms(3) by (auto simp: cow_accepts_def t_def)
  have D: "c_disksize st = D" "ds_disksize (c_ds st) = D" "D < 9223372036854771712" "layers_ok D (image (c_ds st))" "0 \<le> D"
    using assms(1) by (auto simp: cow_inv_def)
  have im: "image (c_ds st) = lower @ [t]" using D(4) by (simp add: lower_def t_def layers_ok_def)
  let ?len = "of_nat (length bs) :: u64"
  have len: "uint ?len = int (length bs)" "unat ?len = length bs" using of_nat_len[OF p(4)] by simp_all
  have pos: "0 < uint ?len" "from + uint ?len \<le> D" using p len by simp_all
  obtain s1 where s1: "nbd_server_recv_request (c_sock st) (c_disksize st) fresh_out =
      (0, \<lparr>iotype_arg = 1, iofrom_arg = from, iolen_arg = ?len, reply_arg = ok_reply h\<rparr>, s1)"
      "wf_sock s1" "pending s1 = bs @ rest" "tx_part s1 = tx_part (c_sock st)"
    using recv_req_header[of "c_sock st" "from" ?len D 1 h "bs @ rest"] assms(4,6) p D len by auto
  have w1: "writable s1" "tx s1 = tx (c_sock st)" using assms(5) sock_part_simps(1)[OF s1(4)] by simp_all
  obtain mbrs where m: "mmap_layers (ck_mmap k) D from ?len (lower @ [t]) = Inr mbrs" "length mbrs = Suc (length lower)" "list_all (region from) mbrs"
    using mmap_layers_ok[of "ck_mmap k" D "from" ?len "lower @ [t]"] assms(2) p(1) pos D(3) by (auto simp: cow_kernel_ok_def)
  have "mbrs \<noteq> []" using m(2) by auto
  then have lm: "addr (mbr_iobuf (last mbrs)) = from" using m(3) by (auto simp: list_all_iff region_def addr_def)
  obtain t' where t': "stack_prepare_write D mbrs from ?len (lower @ [t]) = Inr (lower @ [t'])" "\<not> persistent t'" "length (di_bm t') = length (di_bm t)"
    "marked (di_bm t') = marked (di_bm t) \<union> {nat (from div 4096)..nat ((from + int (length bs) - 1) div 4096)}"
    "\<forall>x. 0 \<le> x \<and> x < D \<and> \<not> (from \<le> x \<and> x < from + int (length bs)) \<and> nat (x div 4096) \<in> marked (di_bm t') \<longrightarrow> di_data t' x = lview D (lower @ [t]) x"
    using prepare_write_ok[OF D(4)[unfolded im] p(5) m(2,3) p(1) pos D(3)] unfolding len by blast
  define ds where "ds = (c_ds st)\<lparr>image := lower @ [t']\<rparr>"
  have mm: "disk_stack_mmap (ck_mmap k) (c_ds st) from ?len False = Inr (mbrs, [\<lparr>iov_base = from, iov_len = length bs\<rparr>], ds)"
    by (simp add: disk_stack_mmap_def D(2) im m(1) t'(1) lm len ds_def)
  obtain s2 where s2: "net_readv_all_or_abort (di_data t') s1 [\<lparr>iov_base = from, iov_len = length bs\<rparr>] (c_errno st) = Inr (poke (di_data t') from bs, s2, c_errno st)"
      "wf_sock s2" "pending s2 = rest" "tx_part s2 = tx_part s1"
    using net_readv_all_or_abort_full[OF s1(2), of "length bs" "di_data t'" "from" "c_errno st"] s1(3) p by auto
  have w2: "writable s2" "tx s2 = tx (c_sock st)" using w1 sock_part_simps(1)[OF s2(4)] by simp_all
  obtain s3 where s3: "net_send_all_or_abort s2 (enc_reply (ok_reply h)) (c_errno st) = Inr (s3, c_errno st)" "writable s3"
      "tx s3 = tx s2 @ enc_reply (ok_reply h)" "rx_part s3 = rx_part s2"
    using net_send_all_or_abort_full[OF w2(1), of "enc_reply (ok_reply h)" "c_errno st"] by auto
  define st' where "st' = st\<lparr>c_sock := s3, c_ds := ds\<lparr>image := lower @ [t'\<lparr>di_data := poke (di_data t') from bs\<rparr>]\<rparr>\<rparr>"
  have "cow_write (ok_reply h) [\<lparr>iov_base = from, iov_len = length bs\<rparr>] (st\<lparr>c_sock := s1, c_ds := ds\<rparr>) = (Inr (), st')"
    using s2(1) s3(1) by (simp add: cow_write_def ds_def st'_def Let_def)
  then have "target_mode_main_cow k st = (Inr 0, st')"
    using assms(2) mm p(6) by (intro cow_dispatch[OF _ s1(1)]) (auto simp: cow_kernel_ok_def)
  moreover have "cow_inv D st'"
    using D t'(3,4) by (cases lower) (auto simp: cow_inv_def st'_def ds_def im layers_ok_def)
  moreover have "wf_sock s3" "pending s3 = rest" using sock_part_simps(2)[OF s3(4)] s2(2,3) by auto
  moreover have "lview D (image (c_ds st')) = poke (lview D (image (c_ds st))) from bs"
    using lview_poke[OF t'(4) p(1-3) t'(5)] by (simp add: st'_def ds_def im)
  ultimately show ?thesis using s3(2,3) w2(2) t'(2) p(5) by (intro exI[of _ st']) (simp add: st'_def ds_def im)
qed

interpretation cow: sync_server target_mode_main_cow c_sock "\<lambda>st. lview D (image (c_ds st))" "cow_inv D" "cow_kernel_ok D" "cow_accepts D" for D
proof (unfold_locales, goal_cases)
  case (1 st k r rest)
  then show ?case
  proof (cases r)
    case (ReadReq h f len)
    have "sane D (ReadReq h f len)" using 1(3) ReadReq by (simp add: cow_accepts_def)
    from cow_read_round[OF 1(1,2) this 1(4,5) 1(6)[unfolded ReadReq]] 1(1) ReadReq show ?thesis
      by (auto simp: cow_inv_def cow_accepts_def fun_eq_iff)
  next
    case (WriteReq h f bs)
    from cow_write_round[OF 1(1,2) 1(3)[unfolded WriteReq] 1(4,5) 1(6)[unfolded WriteReq]] WriteReq show ?thesis
      by (auto simp: cow_accepts_def fun_eq_iff)
  qed (simp add: cow_accepts_def)
next
  case (2 st k h f l rest)
  then show ?case
    using recv_disc[of "c_sock st" h f l rest "c_disksize st" fresh_out]
    by (auto simp: target_mode_main_cow_def poll_request_arrival_def wait_until_readable_def cow_kernel_ok_def cow_inv_def Let_def dest!: sock_part_simps(1))
qed

end
