(* ===== verification/Cow_Session.thy ===== *)
theory Cow_Session
  imports Cow_Refinement
begin

text \<open>
  The copy-on-write target as a whole: a new stack shows its base image under a fresh name, a session on it
  refines the abstract server, the layers below the top are never changed, and what flushes and
  compressed reads do.
\<close>

section \<open>New stacks\<close>

lemma cow_path_inject [simp]: "cow_path p i l = cow_path p j l \<longleftrightarrow> i = j"
  by (auto simp: cow_path_def)

lemma free_cowid_ge: "i \<le> free_cowid p taken i"
  by (induction p taken i rule: free_cowid.induct) (subst free_cowid.simps, auto)

lemma free_cowid_free: "cow_path p (free_cowid p taken i) 1 \<notin> set taken"
proof (induction p taken i rule: free_cowid.induct)
  case (1 p taken i)
  show ?case
  proof (cases "cow_path p i 1 \<in> set taken")
    case True
    let ?t = "remove1 (cow_path p i 1) taken"
    have "cow_path p (free_cowid p ?t (Suc i)) 1 \<noteq> cow_path p i 1" using free_cowid_ge[of "Suc i" p ?t] by auto
    with 1[OF True] True show ?thesis by (subst free_cowid.simps) (metis in_set_remove1)
  qed (subst free_cowid.simps, simp)
qed

lemma marked_ones: "marked (replicate n (- 1)) = {..<64 * n}"
  by (auto simp: marked_def less_mult_imp_div_less mult.commute)

lemma filled_bitmap:
  assumes "get_filled_readonly_buffer a b (bitmap_size nbits) = Inr bm" and "unat nbits \<le> 18446744073709551552"
  shows "{..<unat nbits} \<subseteq> marked bm" and "unat nbits \<le> 64 * length bm"
  using assms BITS_TO_LONGS_cap[OF assms(2)]
  by (auto simp: get_filled_readonly_buffer_def bitmap_size_def marked_ones assertE_def split: if_splits)

lemma new_bitmap:
  assumes "bitmap_open_file f nbits False True = Inr (opened, after)" and "nbits \<noteq> 0" and "unat nbits \<le> 18446744073709551552"
  obtains bm len where "opened = Some (bm, len)" and "marked bm = {}" and "unat nbits \<le> 64 * length bm"
proof -
  have "unat nbits \<noteq> 0" using assms(2) by (simp add: word_unat_eq_iff)
  then show thesis
    using assms that BITS_TO_LONGS_cap[OF assms(3)] by (auto simp: bitmap_open_file_def Let_def words_of_zeros split: if_splits option.splits)
qed

text \<open>
  C26. A new copy-on-write stack consists of the base image and one writable layer that holds no block,
  under a name no file had. It shows the base image, and satisfies the invariant of the session.
\<close>

theorem cow_created_shows_base:
  assumes "xnbd_cow_target_create_disk_stack diskpath f a b taken layer = Inr ds" and "0 \<le> ds_disksize ds" and "ds_disksize ds < 9223372036854771712"
  shows "layers_ok (ds_disksize ds) (image ds) \<and> nlayers ds = 2 \<and> \<not> persistent (last (image ds)) \<and> di_path (last (image ds)) \<notin> set taken \<and>
    lview (ds_disksize ds) (image ds) = (\<lambda>x. if 0 \<le> x \<and> x < ds_disksize ds then if_data f x else 0)"
proof -
  obtain D bm opened after where r: "get_filled_readonly_buffer a b (bitmap_size (get_disk_nblocks D)) = Inr bm"
      "bitmap_open_file (if_bm layer) (get_disk_nblocks D) False True = Inr (opened, after)" "D \<noteq> 0"
      and ds: "ds = \<lparr>ds_disksize = D, image = [\<lparr>di_path = diskpath, di_data = if_data f, di_bmpath = ''/dev/shm/xnbd.XXXXXX'', di_bm = bm, persistent = True\<rparr>,
        \<lparr>di_path = cow_path diskpath (free_cowid diskpath taken 0) 1, di_data = \<lambda>_. 0,
          di_bmpath = cow_path diskpath (free_cowid diskpath taken 0) 1 @ ''.bm'', di_bm = (case opened of None \<Rightarrow> [] | Some (bm, _) \<Rightarrow> bm), persistent = False\<rparr>]\<rparr>"
    using assms(1) by (auto simp: xnbd_cow_target_create_disk_stack_def create_disk_stack_def disk_stack_add_layer_def assertE_def Let_def bindE_eq_Inr split: if_splits)
  have D: "0 \<le> D" "D < 9223372036854771712" using assms(2,3) by (simp_all add: ds)
  let ?n = "get_disk_nblocks D"
  have n: "unat ?n = nat ((D + 4095) div 4096)" using D by (simp add: nblocks_nat)
  have u: "unat ?n \<le> 18446744073709551552" "unat ?n \<noteq> 0" using D r(3) unfolding n by linarith+
  then have "?n \<noteq> 0" by force
  then obtain bm' len where b': "opened = Some (bm', len)" "marked bm' = {}" "unat ?n \<le> 64 * length bm'" using new_bitmap[OF r(2) _ u(1)] by blast
  note fb = filled_bitmap[OF r(1) u(1)]
  have "nat (x div 4096) \<in> marked bm" if "0 \<le> x" "x < D" for x
  proof -
    have "nat (x div 4096) < unat ?n" using that unfolding n by linarith
    with fb(1) show ?thesis by auto
  qed
  then have "lview D (image ds) = (\<lambda>x. if 0 \<le> x \<and> x < D then if_data f x else 0)"
    by (auto simp: ds lview_def b')
  moreover have "layers_ok D (image ds)" using fb b' by (auto simp: ds layers_ok_def)
  ultimately show ?thesis using free_cowid_free[of diskpath taken 0] by (simp add: ds)
qed

definition small_file :: image_file where
  "small_file = \<lparr>if_open_errno = None, if_fstat_err = None, if_stat = \<lparr>st_mode = S_ISREG, st_size = 8192, st_rdev_major = 0\<rparr>, if_seek_end = 0,
     if_ftruncate = True, if_data = \<lambda>_. 5, if_bm = \<lparr>contents = None, stat_errno = ENOENT, open_ok = True, ftruncate_ok = True, mmap_ok = True, msync_ok = True\<rparr>\<rparr>"

definition small_stack :: disk_stack where
  "small_stack = \<lparr>ds_disksize = 8192, image = [
     \<lparr>di_path = ''d'', di_data = \<lambda>_. 5, di_bmpath = ''/dev/shm/xnbd.XXXXXX'', di_bm = [- 1], persistent = True\<rparr>,
     \<lparr>di_path = ''d.cow1.layer1'', di_data = \<lambda>_. 0, di_bmpath = ''d.cow1.layer1.bm'', di_bm = [0], persistent = False\<rparr>]\<rparr>"

lemma small_stack: "xnbd_cow_target_create_disk_stack ''d'' small_file True True [''d.cow0.layer1''] small_file = Inr small_stack"
proof -
  have one: "replicate 1 (- 1 :: u64) = [- 1]" by simp
  have n: "get_disk_nblocks 8192 = 2" "bitmap_size 2 = 8" "unat (8 :: u64) = 8" by code_simp+
  have c: "free_cowid ''d'' [''d.cow0.layer1''] 0 = 1" "cow_path ''d'' 1 1 = ''d.cow1.layer1''" by code_simp+
  have o: "bitmap_open_file (if_bm small_file) 2 False True = Inr (Some ([0], 8), Some (replicate 8 0))"
    by (simp add: bitmap_open_file_def BITS_TO_LONGS_def small_file_def)
  have f: "if_open_errno small_file = None" "get_disksize (if_fstat_err small_file) (if_stat small_file) (if_seek_end small_file) = Inr 8192"
    "if_ftruncate small_file" "if_data small_file = (\<lambda>_. 5)"
    by (simp_all add: small_file_def get_disksize_def)
  show ?thesis
    by (simp add: xnbd_cow_target_create_disk_stack_def create_disk_stack_def disk_stack_add_layer_def get_filled_readonly_buffer_def
      n c o f one small_stack_def del: One_nat_def)
qed

theorem cow_created_shows_base_witness:
  "layers_ok 8192 (image small_stack) \<and> nlayers small_stack = 2 \<and> lview 8192 (image small_stack) 8191 = 5"
  using cow_created_shows_base[OF small_stack] by (simp add: small_stack_def small_file_def)

section \<open>Properties of a copy-on-write session\<close>


definition cow_works :: ckern where
  "cow_works = \<lparr>ck_poll = PollReady True False, ck_mmap = \<lambda>_ _ _. True, ck_munmap = True, ck_fsync = True, ck_fallocate = True, ck_lzo = None\<rparr>"

definition cow_started :: "bytes list \<Rightarrow> cstate" where
  "cow_started segs = \<lparr>c_ds = small_stack, c_disksize = 8192, c_readonly = False,
     c_sock = \<lparr>rx = segs, rx_end = None, tx = [], tx_plan = [Inr 4]\<rparr>, c_errno = 0\<rparr>"

lemma cow_works: "cow_kernel_ok D cow_works"
  by (simp add: cow_kernel_ok_def cow_works_def maps_work_def mmap_works_def)


section \<open>The layers below the top\<close>

lemma set_top_below: "set_top f dis = Inr dis' \<Longrightarrow> butlast dis' = butlast dis"
  by (auto simp: set_top_def split: if_splits)

lemma copy_block_below: "copy_block_to_top_layer D mbrs i j dis = Inr dis' \<Longrightarrow> butlast dis' = butlast dis"
  by (auto simp: copy_block_to_top_layer_def Let_def bindE_eq_Inr set_top_below split: option.splits)

lemma mark_range_below: "foldE mark_top is dis = Inr dis' \<Longrightarrow> butlast dis' = butlast dis"
  by (induction "is" arbitrary: dis) (auto simp: bindE_eq_Inr mark_top_def set_top_below)

lemma prepare_write_below: "stack_prepare_write D mbrs f len dis = Inr dis' \<Longrightarrow> butlast dis' = butlast dis"
  by (auto simp: stack_prepare_write_def Let_def bindE_eq_Inr split: if_splits dest!: copy_block_below mark_range_below)

lemma stack_mmap_below: "disk_stack_mmap kern ds f len reading = Inr (mbrs, iov, ds') \<Longrightarrow> butlast (image ds') = butlast (image ds)"
  by (auto simp: disk_stack_mmap_def bindE_eq_Inr prepare_write_below split: if_splits)

lemma cow_transfer_below:
  "butlast (image (c_ds (snd (cow_write reply iov st)))) = butlast (image (c_ds st))"
  "butlast (image (c_ds (snd (cow_read k compressed lzo reply iov st)))) = butlast (image (c_ds st))"
  by (auto simp: cow_write_def cow_read_def Let_def split: sum.splits prod.splits)

abbreviation below :: "cstate \<Rightarrow> disk_image list" where "below st \<equiv> butlast (image (c_ds st))"

lemma cow_transfer_all_below: "below (snd (cow_transfer k iotype compressed lzo reply f len iov st)) = below st"
  by (simp add: cow_transfer_def cow_transfer_below disk_stack_punch_hole_def)

lemma cow_served_below:
  "below (snd (case cow_transfer k iotype compressed lzo reply f len iov st of
      (Inl x, st) \<Rightarrow> (Inl x, st)
    | (Inr _, st) \<Rightarrow> (case disk_stack_munmap ok mbrs of Inl x \<Rightarrow> (Inl x, st) | Inr _ \<Rightarrow> (Inr 0, st)))) = below st"
  using cow_transfer_all_below[of k iotype compressed lzo reply f len iov st] by (auto split: sum.splits prod.splits)

lemma cow_round_below: "below (snd (target_mode_main_cow k st)) = below st"
  by (auto simp: target_mode_main_cow_def Let_def cow_served_below dest: stack_mmap_below split: sum.splits prod.splits)


section \<open>Flushes and compressed reads\<close>

lemma mmap_layers_empty: "\<exists>mbrs. 0 \<le> D \<longrightarrow> mmap_layers kern D 0 0 dis = Inr mbrs"
  by (induction dis) (auto simp: mmap_block_region_create_def mmap_region_create_def Let_def)

lemma mark_all_faults: "dis \<noteq> [] \<Longrightarrow> length (di_bm (last dis)) < 288230376151711743 \<Longrightarrow> foldE mark_top (ul_range 0 (- 1)) dis = Inl Segv"
proof (cases "persistent (last dis)")
  case True
  assume "dis \<noteq> []"
  have "ul_range 0 (- 1) = 0 # map of_nat [1..<Suc (unat (- 1 :: u64))]" by (simp add: ul_range_def upt_conv_Cons del: upt_Suc)
  with True show ?thesis
    using bitmap_on_in[of 0 "di_bm (last dis)"] bitmap_on_out[of "di_bm (last dis)" 0]
    by (cases "di_bm (last dis)") (auto simp: mark_top_def set_top_def)
next
  case False
  assume *: "dis \<noteq> []" "length (di_bm (last dis)) < 288230376151711743"
  have "foldE (\<lambda>i b. bitmap_on b i) (ul_range 0 (- 1)) (di_bm (last dis)) = Inl Segv"
    using *(2) by (intro bm.on_range_out) (simp_all add: unsigned_minus_1_eq_mask mask_eq_exp_minus_1)
  with foldE_mark_top[of "last dis" "ul_range 0 (- 1)" "butlast dis"] False *(1) show ?thesis by simp
qed

text \<open>
  A flush request, which has offset and length zero, faults in a copy-on-write session, unanswered: every
  command but a read is prepared as a write, and the end of an empty range at offset 0 wraps round to
  the largest block number, so the marking loop leaves the bitmap of the top layer. (A bitmap of
  \<open>2 ^ 64\<close> bits does not exist.)
\<close>

lemma cow_flush_faults:
  assumes "wf_sock (c_sock st)" and "ck_poll k = PollReady True False" and "0 \<le> c_disksize st" and "c_disksize st \<le> 0x7FFFFFFFFFFFFFFF"
    and "ds_disksize (c_ds st) = c_disksize st"
    and "image (c_ds st) \<noteq> []" and "length (di_bm (last (image (c_ds st)))) < 288230376151711743"
    and "pending (c_sock st) = enc_req (FlushReq h) @ rest"
  shows "\<exists>st'. target_mode_main_cow k st = (Inl Segv, st') \<and> tx (c_sock st') = tx (c_sock st)"
proof -
  obtain s1 where s1: "nbd_server_recv_request (c_sock st) (c_disksize st) fresh_out =
      (0, \<lparr>iotype_arg = 3, iofrom_arg = 0, iolen_arg = 0, reply_arg = ok_reply h\<rparr>, s1)" "tx_part s1 = tx_part (c_sock st)"
    using recv_req_header[of "c_sock st" 0 0 "c_disksize st" 3 h rest] assms by auto
  obtain mbrs where "mmap_layers (ck_mmap k) (c_disksize st) 0 0 (image (c_ds st)) = Inr mbrs"
    using mmap_layers_empty assms(3) by blast
  moreover have "get_bindex_sta 4096 0 = 0" by code_simp
  ultimately have "disk_stack_mmap (ck_mmap k) (c_ds st) 0 0 False = Inl Segv"
    using mark_all_faults[OF assms(6,7)] assms(5)
    by (simp add: disk_stack_mmap_def stack_prepare_write_def bindex_end_0 signed_modulo_int_def)
  then show ?thesis using s1(1) assms(2) sock_part_simps(1)[OF s1(2)]
    by (simp add: target_mode_main_cow_def poll_request_arrival_def wait_until_readable_def Let_def)
qed

lemma cow_flush_faults_witness:
  "\<exists>st'. target_mode_main_cow cow_works (cow_started [enc_req (FlushReq 7)]) = (Inl Segv, st') \<and> tx (c_sock st') = []"
proof -
  have "enc_req (FlushReq 7) \<noteq> []" using length_enc(1) by (metis enc_req.simps(3) req_header_def list.size(3) zero_neq_numeral)
  then show ?thesis using cow_flush_faults[of "cow_started [enc_req (FlushReq 7)]" cow_works 7 "[]"]
    by (simp add: cow_started_def cow_works_def small_stack_def wf_sock_def pending_def)
qed

text \<open>
  \<open>is_unicolor\<close> compares words of eight bytes, but only four bytes are sent for them: two chunks that
  differ are sent alike, whatever the compression.
\<close>

lemma unicolor_ambiguous:
  "encode_chunk lzo lzo_enabled [1, 2, 3, 4, 5, 6, 7, 8] = encode_chunk lzo lzo_enabled [1, 2, 3, 4, 1, 2, 3, 4]"
  by (simp add: encode_chunk_def is_unicolor_def)

end
