(* ===== verification/Wrapper_Dict.thy ===== *)
theory Wrapper_Dict
  imports Prelude "HOL-Library.Multiset"
begin

text \<open>
  The exports of \<open>xnbd-wrapper\<close> (\<open>xnbd_wrapper.c\<close>): the table of disk images, adding, looking up and
  deleting them, and the listing, which prints them in the order in which they were added without sorting them. Every operation
  runs with the mutex held.
\<close>

section \<open>Disk images\<close>

record proxy_settings =
  target_host :: "string option"
  target_port :: "string option"
  bitmap_image :: "string option"
  control_socket_path :: "string option"
  target_exportname :: "string option"

record t_disk_data =
  local_exportname :: string
  disk_file_name :: string
  dd_index :: u32
  proxy :: proxy_settings

definition NOT_PROXIED :: proxy_settings where
  "NOT_PROXIED = \<lparr>target_host = None, target_port = None, bitmap_image = None, control_socket_path = None, target_exportname = None\<rparr>"

text \<open>
  \<open>copy_disk_data\<close>: \<open>g_strdup\<close> does not fail; when \<open>g_try_new\<close> does, the members of the NULL result are freed.
\<close>

definition copy_disk_data :: "bool \<Rightarrow> t_disk_data \<Rightarrow> stop + t_disk_data option" where
  "copy_disk_data try_new_ok src =
     (if \<not> try_new_ok then Inl Segv
      else Inr (Some \<lparr>local_exportname = local_exportname src, disk_file_name = disk_file_name src, dd_index = dd_index src, proxy = proxy src\<rparr>))"

definition create_disk_data :: "bool \<Rightarrow> string \<Rightarrow> string \<Rightarrow> proxy_settings \<Rightarrow> stop + t_disk_data option" where
  "create_disk_data try_new_ok name cache_image ps =
     copy_disk_data try_new_ok \<lparr>local_exportname = name, disk_file_name = cache_image, dd_index = 0, proxy = ps\<rparr>"

section \<open>The table\<close>

text \<open>\<open>p_disk_dict\<close>, keyed by the export name, in the order of \<open>g_hash_table_foreach\<close>; and \<open>images_added_ever\<close>.\<close>

record disk_dict =
  disks :: "(string \<times> t_disk_data) list"
  images_added_ever :: u32

definition lookup_disk :: "disk_dict \<Rightarrow> string \<Rightarrow> t_disk_data option" where
  "lookup_disk d k = map_of (disks d) k"

datatype add_result = XNBD_IMAGE_ADDED | XNBD_IMAGE_ACCESS_ERROR | XNBD_NOT_ADDING_TWICE

definition add_diskimg :: "(string \<Rightarrow> bool) \<Rightarrow> t_disk_data \<Rightarrow> disk_dict \<Rightarrow> add_result \<times> disk_dict" where
  "add_diskimg can_open dd d =
     (if \<not> can_open (disk_file_name dd) then (XNBD_IMAGE_ACCESS_ERROR, d)
      else if lookup_disk d (local_exportname dd) \<noteq> None then (XNBD_NOT_ADDING_TWICE, d)
      else (XNBD_IMAGE_ADDED, d\<lparr>disks := disks d @ [(local_exportname dd, dd\<lparr>dd_index := images_added_ever d\<rparr>)],
                                 images_added_ever := images_added_ever d + 1\<rparr>))"

text \<open>\<open>g_hash_table_foreach_remove\<close>, and whether it removed anything.\<close>

definition foreach_remove :: "(t_disk_data \<Rightarrow> bool) \<Rightarrow> disk_dict \<Rightarrow> bool \<times> disk_dict" where
  "foreach_remove P d = (list_ex (\<lambda>(k, v). P v) (disks d), d\<lparr>disks := filter (\<lambda>(k, v). \<not> P v) (disks d)\<rparr>)"

definition del_diskimg_by_index :: "int \<Rightarrow> disk_dict \<Rightarrow> bool \<times> disk_dict" where
  "del_diskimg_by_index num d =
     (if num - 1 \<ge> 0 then foreach_remove (\<lambda>dd. dd_index dd = word_of_int (num - 1)) d else (False, d))"

definition del_diskimg_by_file :: "string \<Rightarrow> disk_dict \<Rightarrow> bool \<times> disk_dict" where
  "del_diskimg_by_file filename d = foreach_remove (\<lambda>dd. disk_file_name dd = filename) d"

definition del_diskimg_by_exportname :: "string \<Rightarrow> disk_dict \<Rightarrow> bool \<times> disk_dict" where
  "del_diskimg_by_exportname name d = foreach_remove (\<lambda>dd. local_exportname dd = name) d"

definition get_disk_data_for :: "bool \<Rightarrow> disk_dict \<Rightarrow> string \<Rightarrow> stop + t_disk_data option" where
  "get_disk_data_for try_new_ok d name = (case lookup_disk d name of None \<Rightarrow> Inr None | Some src \<Rightarrow> copy_disk_data try_new_ok src)"

definition modify_disk :: "string \<Rightarrow> (t_disk_data \<Rightarrow> t_disk_data) \<Rightarrow> disk_dict \<Rightarrow> disk_dict" where
  "modify_disk name f d = d\<lparr>disks := map (\<lambda>(k, v). (k, if k = name then f v else v)) (disks d)\<rparr>"

definition mark_proxy_mode_ended :: "string \<Rightarrow> disk_dict \<Rightarrow> disk_dict" where
  "mark_proxy_mode_ended name d = modify_disk name (\<lambda>dd. dd\<lparr>proxy := NOT_PROXIED\<rparr>) d"

definition update_proxy_settings :: "string \<Rightarrow> string \<Rightarrow> string \<Rightarrow> string option \<Rightarrow> disk_dict \<Rightarrow> disk_dict" where
  "update_proxy_settings name host port texport d =
     modify_disk name (\<lambda>dd. dd\<lparr>proxy := (proxy dd)\<lparr>target_host := Some host, target_port := Some port, target_exportname := texport\<rparr>\<rparr>) d"

section \<open>Listing\<close>

definition find_smallest_index :: "t_disk_data list \<Rightarrow> u32 \<Rightarrow> u32" where
  "find_smallest_index items m = foldl (\<lambda>m dd. if dd_index dd < m then dd_index dd else m) m items"

text \<open>A NULL printed with \<open>%s\<close> is \<open>(null)\<close>.\<close>

definition str :: "string option \<Rightarrow> string" where
  "str s = (case s of None \<Rightarrow> ''(null)'' | Some s \<Rightarrow> s)"

text \<open>The index is printed with \<open>%d\<close>.\<close>

definition print_d :: "u32 \<Rightarrow> string" where
  "print_d i = (if sint i < 0 then CHR ''-'' # decimal (nat (- sint i)) else decimal (unat i))"

definition image_line :: "t_disk_data \<Rightarrow> string" where
  "image_line dd =
     (let p = proxy dd; start = print_d (dd_index dd + 1) @ '' : '' @ local_exportname dd @ ''  ('' in
      if target_host p \<noteq> None then
        start @ str (target_host p) @ '':'' @ str (target_port p) @
        (case target_exportname p of None \<Rightarrow> [] | Some t \<Rightarrow> '':'' @ t) @ '', '' @ disk_file_name dd @ '', '' @
        str (bitmap_image p) @ '', '' @ str (control_socket_path p) @ '')'' @ [CHR 0x0A]
      else start @ disk_file_name dd @ '')'' @ [CHR 0x0A])"

text \<open>\<open>list_images_iterator\<close> for all images: what is printed, and \<open>index_up_next\<close>.\<close>

definition list_images :: "t_disk_data list \<Rightarrow> u32 \<Rightarrow> string \<times> u32" where
  "list_images items cur =
     foldl (\<lambda>(out, up) dd. if dd_index dd = cur then (out @ image_line dd, up)
                            else if dd_index dd > cur \<and> dd_index dd < up then (out, dd_index dd) else (out, up)) ([], - 1) items"

lemma list_images_eq: "list_images items cur =
    (concat (map image_line (filter (\<lambda>dd. dd_index dd = cur) items)), Min (insert (- 1) {i \<in> dd_index ` set items. cur < i}))"
proof (induction items rule: rev_induct)
  case Nil
  then show ?case by (simp add: list_images_def)
next
  case (snoc dd items)
  define A where "A = insert (- 1) {i \<in> dd_index ` set items. cur < i}"
  have "finite A" "A \<noteq> {}" by (auto simp: A_def)
  then have *: "Min (insert (dd_index dd) A) = min (dd_index dd) (Min A)" by (rule Min_insert)
  have **: "insert (- 1) {i \<in> dd_index ` set (items @ [dd]). cur < i} = (if cur < dd_index dd then insert (dd_index dd) A else A)" by (auto simp: A_def)
  have "list_images (items @ [dd]) cur = (case list_images items cur of (out, up) \<Rightarrow>
      if dd_index dd = cur then (out @ image_line dd, up)
      else if dd_index dd > cur \<and> dd_index dd < up then (out, dd_index dd) else (out, up))"
    by (simp add: list_images_def split: prod.splits)
  then show ?case unfolding snoc ** A_def[symmetric] by (cases "cur < dd_index dd") (auto simp: * min_def)
qed

lemma list_images_up: "cur < - 1 \<Longrightarrow> cur < snd (list_images items cur)"
  by (simp add: list_images_eq)

text \<open>The \<open>while\<close> loop; \<open>(guint) -1\<close> ends it.\<close>

function list_loop :: "t_disk_data list \<Rightarrow> u32 \<Rightarrow> string" where
  "list_loop items cur = (if cur < - 1 then fst (list_images items cur) @ list_loop items (snd (list_images items cur)) else [])"
  by pat_completeness auto
termination
proof (relation "measure (\<lambda>(items, cur). unat (- 1 :: u32) - unat cur)")
  fix items :: "t_disk_data list" and cur :: u32
  assume "cur < - 1"
  with list_images_up[OF this, of items] show "((items, snd (list_images items cur)), items, cur) \<in> measure (\<lambda>(items, cur). unat (- 1 :: u32) - unat cur)"
    by (auto simp: word_less_nat_alt intro: diff_less_mono2)
qed simp

declare list_loop.simps [simp del]

definition list_diskimg :: "t_disk_data list \<Rightarrow> string" where
  "list_diskimg items =
     (if length items > 0 then list_loop items (find_smallest_index items (- 1)) else ''no item'' @ [CHR 0x0A])"

section \<open>The invariant of the table\<close>

text \<open>
  Names and indices are unique, and the indices are below \<open>images_added_ever\<close>, which has not wrapped round.
\<close>

definition dict_inv :: "disk_dict \<Rightarrow> bool" where
  "dict_inv d \<longleftrightarrow> distinct (map fst (disks d)) \<and> (\<forall>(k, v) \<in> set (disks d). k = local_exportname v \<and> dd_index v < images_added_ever d) \<and>
     distinct (map (\<lambda>(k, v). dd_index v) (disks d))"

locale named_store =
  fixes find :: "'s \<Rightarrow> 'k \<Rightarrow> 'v option" and ins :: "'k \<Rightarrow> 'v \<Rightarrow> 's \<Rightarrow> 's" and del_if :: "('v \<Rightarrow> bool) \<Rightarrow> 's \<Rightarrow> 's"
    and upd :: "'k \<Rightarrow> ('v \<Rightarrow> 'v) \<Rightarrow> 's \<Rightarrow> 's" and inv :: "'s \<Rightarrow> bool"
  assumes find_ins: "inv s \<Longrightarrow> find s k = None \<Longrightarrow> find (ins k v s) k' = (if k' = k then Some v else find s k')"
    and find_del_if: "inv s \<Longrightarrow> find (del_if P s) k = (case find s k of None \<Rightarrow> None | Some v \<Rightarrow> if P v then None else Some v)"
    and find_upd: "inv s \<Longrightarrow> find (upd k f s) k' = (if k' = k then map_option f (find s k) else find s k')"
    and inv_del_if: "inv s \<Longrightarrow> inv (del_if P s)"
begin

lemma del_if_gone: "inv s \<Longrightarrow> find (del_if P s) k = Some v \<Longrightarrow> \<not> P v"
  by (auto simp: find_del_if split: option.splits if_splits)

lemma del_if_keeps: "inv s \<Longrightarrow> find s k = Some v \<Longrightarrow> \<not> P v \<Longrightarrow> find (del_if P s) k = Some v"
  by (simp add: find_del_if)

lemma ins_del: "inv s \<Longrightarrow> inv (ins k v s) \<Longrightarrow> find s k = None \<Longrightarrow> P v \<Longrightarrow> (\<And>k' v'. find s k' = Some v' \<Longrightarrow> \<not> P v') \<Longrightarrow>
    find (del_if P (ins k v s)) = find s"
  by (rule ext) (auto simp: find_del_if find_ins split: option.splits)

end

definition insert_disk :: "string \<Rightarrow> t_disk_data \<Rightarrow> disk_dict \<Rightarrow> disk_dict" where
  "insert_disk k v d = d\<lparr>disks := disks d @ [(k, v)]\<rparr>"

lemma map_of_filter_value: "distinct (map fst xs) \<Longrightarrow>
    map_of (filter (\<lambda>(k, v). \<not> P v) xs) k = (case map_of xs k of None \<Rightarrow> None | Some v \<Rightarrow> if P v then None else Some v)"
proof (induction xs)
  case (Cons x xs)
  have "map_of xs (fst x) = None" using Cons.prems by (simp add: map_of_eq_None_iff)
  with Cons show ?case by (cases x) auto
qed simp

interpretation dict: named_store lookup_disk insert_disk "\<lambda>P d. snd (foreach_remove P d)" modify_disk dict_inv
proof (unfold_locales, goal_cases)
  case (1 s k v k')
  then show ?case by (auto simp: lookup_disk_def insert_disk_def map_add_def split: option.splits)
next
  case (2 s P k)
  then show ?case using map_of_filter_value[of "disks s" P k] by (simp add: dict_inv_def lookup_disk_def foreach_remove_def)
next
  case (3 s k f k')
  have "map_of (map (\<lambda>(x, v). (x, if x = k then f v else v)) xs) k' = (if k' = k then map_option f (map_of xs k) else map_of xs k')" for xs
    by (induction xs) auto
  then show ?case by (simp add: lookup_disk_def modify_disk_def)
next
  case (4 s P)
  then show ?case by (auto simp: dict_inv_def foreach_remove_def distinct_map_filter)
qed

lemma empty_inv: "dict_inv \<lparr>disks = [], images_added_ever = n\<rparr>"
  by (simp add: dict_inv_def)

lemma add_diskimg_inv:
  assumes "dict_inv d" and "images_added_ever d < - 1"
  shows "dict_inv (snd (add_diskimg can_open dd d))"
proof -
  have "unat (images_added_ever d) < 4294967295" using assms(2) by (simp add: word_less_nat_alt unsigned_minus_1_eq_mask mask_eq_exp_minus_1)
  then have "unat (images_added_ever d + 1) = Suc (unat (images_added_ever d))" by (simp add: unat_word_ariths)
  then have "i < images_added_ever d + 1" if "i \<le> images_added_ever d" for i
    using that by (simp add: word_less_nat_alt word_le_nat_alt)
  then show ?thesis using assms(1)
    by (force simp: dict_inv_def add_diskimg_def lookup_disk_def map_of_eq_None_iff less_imp_le)
qed

lemma modify_inv: "dict_inv d \<Longrightarrow> (\<And>v. local_exportname (f v) = local_exportname v \<and> dd_index (f v) = dd_index v) \<Longrightarrow> dict_inv (modify_disk k f d)"
proof -
  assume *: "dict_inv d" "\<And>v. local_exportname (f v) = local_exportname v \<and> dd_index (f v) = dd_index v"
  have e: "map fst (disks (modify_disk k f d)) = map fst (disks d)" "map (\<lambda>(k, v). dd_index v) (disks (modify_disk k f d)) = map (\<lambda>(k, v). dd_index v) (disks d)"
    using *(2) by (auto simp: modify_disk_def)
  have b: "\<forall>(k', v) \<in> set (disks (modify_disk k f d)). k' = local_exportname v \<and> dd_index v < images_added_ever (modify_disk k f d)"
    using * by (fastforce simp: dict_inv_def modify_disk_def)
  have "distinct (map fst (disks d))" "distinct (map (\<lambda>(k, v). dd_index v) (disks d))" using *(1) by (simp_all add: dict_inv_def)
  then show ?thesis unfolding dict_inv_def e using b by simp
qed

section \<open>The listing is sorted\<close>

lemma find_smallest_Min: "find_smallest_index items m = Min (insert m (dd_index ` set items))"
proof (induction items arbitrary: m)
  case (Cons dd items)
  have "Min (insert m (insert (dd_index dd) (dd_index ` set items))) = Min (insert (min m (dd_index dd)) (dd_index ` set items))"
    by (cases "items = []") (auto simp: Min_insert2 min.assoc min.commute min.left_commute)
  with Cons[of "if dd_index dd < m then dd_index dd else m"] show ?case
    by (simp add: find_smallest_index_def min_def split: if_splits)
qed (simp add: find_smallest_index_def)

lemma sorted_rest:
  assumes "distinct (map dd_index items)" and "dd \<in> set items" and "dd_index dd = cur"
  shows "sort_key dd_index (filter (\<lambda>d. cur \<le> dd_index d) items) = dd # sort_key dd_index (filter (\<lambda>d. cur < dd_index d) items)"
proof -
  have inj: "inj_on dd_index (set items)" using assms(1) by (simp add: distinct_map)
  have d: "distinct items" using assms(1) by (simp add: distinct_map)
  have "set (filter (\<lambda>d. cur \<le> dd_index d) items) = set (dd # filter (\<lambda>d. cur < dd_index d) items)"
    using inj assms(2,3) by (auto simp: inj_on_def order_le_less)
  moreover have "distinct (dd # filter (\<lambda>d. cur < dd_index d) items)" using d assms(3) by auto
  ultimately have m: "mset (filter (\<lambda>d. cur \<le> dd_index d) items) = mset (dd # filter (\<lambda>d. cur < dd_index d) items)"
    using d by (metis distinct_filter set_eq_iff_mset_eq_distinct)
  show ?thesis
  proof (rule sort_key_inj_key_eq)
    show "mset (filter (\<lambda>d. cur \<le> dd_index d) items) = mset (dd # sort_key dd_index (filter (\<lambda>d. cur < dd_index d) items))" using m by simp
    show "inj_on dd_index (set (filter (\<lambda>d. cur \<le> dd_index d) items))" using inj by (auto simp: inj_on_def)
    show "sorted (map dd_index (dd # sort_key dd_index (filter (\<lambda>d. cur < dd_index d) items)))" using assms(3) by (auto simp: less_imp_le)
  qed
qed

lemma list_loop_sorted:
  assumes "distinct (map dd_index items)" and "\<forall>dd \<in> set items. dd_index dd < - 1"
  shows "cur = - 1 \<or> cur \<in> dd_index ` set items \<Longrightarrow>
    list_loop items cur = concat (map image_line (sort_key dd_index (filter (\<lambda>dd. cur \<le> dd_index dd) items)))"
proof (induction "unat (- 1 :: u32) - unat cur" arbitrary: cur rule: less_induct)
  case less
  show ?case
  proof (cases "cur < - 1")
    case True
    then obtain dd where dd: "dd \<in> set items" "dd_index dd = cur" using less.prems by auto
    let ?up = "snd (list_images items cur)" and ?U = "{i \<in> dd_index ` set items. cur < i}"
    have up: "?up = Min (insert (- 1) ?U)" by (simp add: list_images_eq)
    have fin: "finite (insert (- 1) ?U)" by simp
    have "?up = - 1 \<or> ?up \<in> dd_index ` set items" using Min_in[OF fin] unfolding up by auto
    moreover have "unat (- 1 :: u32) - unat ?up < unat (- 1 :: u32) - unat cur"
      using True list_images_up[OF True, of items] by (auto simp: word_less_nat_alt intro: diff_less_mono2)
    ultimately have IH: "list_loop items ?up = concat (map image_line (sort_key dd_index (filter (\<lambda>dd. ?up \<le> dd_index dd) items)))"
      using less.hyps by blast
    have "?up \<le> dd_index d \<longleftrightarrow> cur < dd_index d" if "d \<in> set items" for d
    proof
      assume "?up \<le> dd_index d"
      with list_images_up[OF True, of items] show "cur < dd_index d" by (rule less_le_trans)
    next
      assume "cur < dd_index d"
      then show "?up \<le> dd_index d" unfolding up using that by (intro Min_le[OF fin]) auto
    qed
    then have f: "filter (\<lambda>dd. ?up \<le> dd_index dd) items = filter (\<lambda>dd. cur < dd_index dd) items" by (rule filter_cong[OF refl])
    have "filter (\<lambda>d. dd_index d = cur) items = [dd]"
      using assms(1) dd by (induction items) (auto simp: filter_empty_conv, metis imageI)
    then have "fst (list_images items cur) = image_line dd" by (simp add: list_images_eq)
    with True IH f sorted_rest[OF assms(1) dd] show ?thesis by (subst list_loop.simps) simp
  next
    case False
    then have "filter (\<lambda>dd. cur \<le> dd_index dd) items = []" using assms(2) by (fastforce simp: filter_empty_conv)
    with False show ?thesis by (subst list_loop.simps) simp
  qed
qed

text \<open>
  C29. The listing of the control connection prints every image exactly once, sorted by the
  order in which they were added, in whatever order the hash table is traversed, and \<open>no item\<close> for an
  empty table: the repeated search for the next larger index is equivalent to sorting.
\<close>

theorem list_diskimg_sorted:
  assumes "dict_inv d" and "mset items = mset (map snd (disks d))"
  shows "list_diskimg items = (if disks d = [] then ''no item'' @ [CHR 0x0A] else concat (map image_line (sort_key dd_index items)))"
proof (cases "disks d = []")
  case True
  with assms(2) show ?thesis by (simp add: list_diskimg_def)
next
  case False
  have "mset (map dd_index items) = mset (map (\<lambda>(k, v). dd_index v) (disks d))"
    unfolding mset_map assms(2) by (simp add: multiset.map_comp comp_def split_def)
  moreover have "distinct (map (\<lambda>(k, v). dd_index v) (disks d))" using assms(1) by (simp add: dict_inv_def)
  ultimately have dist: "distinct (map dd_index items)" by (metis mset_eq_imp_distinct_iff)
  have "set items = snd ` set (disks d)" using assms(2) by (metis list.set_map set_mset_mset)
  then have "dd_index dd < images_added_ever d" if "dd \<in> set items" for dd using that assms(1) by (fastforce simp: dict_inv_def)
  then have lt: "\<forall>dd \<in> set items. dd_index dd < - 1" using less_le_trans[OF _ word_order.extremum] by blast
  have ne: "items \<noteq> []" using False assms(2) by auto
  let ?m = "find_smallest_index items (- 1)"
  have m: "?m = Min (insert (- 1) (dd_index ` set items))" by (rule find_smallest_Min)
  have "?m = - 1 \<or> ?m \<in> dd_index ` set items" unfolding m using Min_in[of "insert (- 1) (dd_index ` set items)"] by auto
  moreover have "filter (\<lambda>dd. ?m \<le> dd_index dd) items = items" unfolding m by (rule filter_True) auto
  ultimately show ?thesis using list_loop_sorted[OF dist lt, of ?m] ne False by (simp add: list_diskimg_def)
qed

theorem list_diskimg_sorted_witness:
  "list_diskimg [\<lparr>local_exportname = ''b'', disk_file_name = ''/b'', dd_index = 4, proxy = NOT_PROXIED\<rparr>,
      \<lparr>local_exportname = ''a'', disk_file_name = ''/a'', dd_index = 1, proxy = NOT_PROXIED\<rparr>] =
    ''2 : a  (/a)'' @ [CHR 0x0A] @ ''5 : b  (/b)'' @ [CHR 0x0A]"
proof -
  let ?b = "\<lparr>local_exportname = ''b'', disk_file_name = ''/b'', dd_index = 4, proxy = NOT_PROXIED\<rparr> :: t_disk_data"
  let ?a = "\<lparr>local_exportname = ''a'', disk_file_name = ''/a'', dd_index = 1, proxy = NOT_PROXIED\<rparr> :: t_disk_data"
  have "image_line ?a = ''2 : a  (/a)'' @ [CHR 0x0A]" "image_line ?b = ''5 : b  (/b)'' @ [CHR 0x0A]" by code_simp+
  moreover have "sort_key dd_index [?b, ?a] = [?a, ?b]" by (simp add: word_le_def)
  ultimately show ?thesis
    using list_diskimg_sorted[of "\<lparr>disks = [(''a'', ?a), (''b'', ?b)], images_added_ever = 5\<rparr>" "[?b, ?a]"]
    by (simp add: dict_inv_def)
qed

end
