(* ===== verification/Wrapper_Db.thy ===== *)
theory Wrapper_Db
  imports Wrapper_Dict "HOL-Library.Countable"
begin

text \<open>
  The database of \<open>xnbd-wrapper\<close> (\<open>xnbd_wrapper.c\<close>): the table of exports as a JSON document, saved to a file and loaded
  again at the next start. The JSON library is not part of the program: its texts are the parameters \<open>json_dumps\<close>
  and \<open>json_loadb\<close>, and \<open>utf8\<close> tells which strings it accepts.
\<close>

section \<open>JSON values\<close>

datatype json = JNull | JInteger int | JString string | JObject "(string \<times> json) list" | JOther

fun json_is_string :: "json \<Rightarrow> bool" where
  "json_is_string (JString s) = True"
| "json_is_string _ = False"

fun json_string_value :: "json \<Rightarrow> string" where
  "json_string_value (JString s) = s"
| "json_string_value _ = []"

fun json_integer_value :: "json \<Rightarrow> int" where
  "json_integer_value (JInteger i) = i"
| "json_integer_value _ = 0"

text \<open>
  \<open>json_string\<close> gives NULL for NULL and for a string that is not UTF-8, and \<open>json_object_set_new\<close> then does nothing.
\<close>

definition json_object_set_new :: "(string \<times> json) list \<Rightarrow> string \<Rightarrow> json option \<Rightarrow> (string \<times> json) list" where
  "json_object_set_new ms k v =
     (case v of None \<Rightarrow> ms
      | Some v \<Rightarrow> if k \<in> fst ` set ms then map (\<lambda>(k', v'). (k', if k' = k then v else v')) ms else ms @ [(k, v)])"

definition json_string :: "(string \<Rightarrow> bool) \<Rightarrow> string \<Rightarrow> json option" where
  "json_string utf8 s = (if utf8 s then Some (JString s) else None)"

section \<open>Saving\<close>

definition disk_properties :: "(string \<Rightarrow> bool) \<Rightarrow> t_disk_data \<Rightarrow> (string \<times> json) list" where
  "disk_properties utf8 dd =
     (let p = proxy dd; set_s = (\<lambda>k s ms. json_object_set_new ms k (case s of None \<Rightarrow> None | Some s \<Rightarrow> json_string utf8 s));
          ms = json_object_set_new [] ''mode'' (json_string utf8 (if target_host p \<noteq> None then ''proxy'' else ''target''));
          ms = json_object_set_new ms ''image_path'' (json_string utf8 (disk_file_name dd)) in
      if target_host p \<noteq> None then
        json_object_set_new
          (set_s ''control_socket_path'' (control_socket_path p) (set_s ''bitmap_path'' (bitmap_image p)
            (set_s ''remote_port'' (target_port p) (set_s ''remote_host'' (target_host p) ms))))
          ''remote_export_name'' (case target_exportname p of None \<Rightarrow> Some JNull | Some t \<Rightarrow> json_string utf8 t)
      else ms)"

text \<open>
  \<open>add_disk_to_json_ghfunc\<close>: the object is put into the document first and filled afterwards. For a name
  that is not UTF-8 it is freed at once, and then used.
\<close>

definition add_disk_to_json :: "(string \<Rightarrow> bool) \<Rightarrow> t_disk_data \<Rightarrow> (string \<times> json) list \<Rightarrow> stop + (string \<times> json) list" where
  "add_disk_to_json utf8 dd ms =
     (if \<not> utf8 (local_exportname dd) then Inl Segv
      else Inr (json_object_set_new ms (local_exportname dd) (Some (JObject (disk_properties utf8 dd)))))"

definition dump_json :: "(string \<Rightarrow> bool) \<Rightarrow> t_disk_data list \<Rightarrow> stop + json" where
  "dump_json utf8 items =
     bindE (foldE (add_disk_to_json utf8) items []) (\<lambda>images. Inr (JObject [(''version'', JInteger 2), (''images'', JObject images)]))"

text \<open>
  What the system calls on the database file answer; \<open>mkdir\<close> and \<open>open\<close> fail with an error number, writing after a number of bytes.
\<close>

record db_env =
  db_mkdir :: "nat option"
  db_open :: "nat option"
  db_fstat :: bool
  db_regular :: bool
  db_nlink :: nat
  db_truncate :: bool
  db_write :: "nat option"

text \<open>\<open>dump_registered_images_UNLOCKED\<close>: success, and the contents of the file afterwards.\<close>

definition dump_registered_images :: "(json \<Rightarrow> string) \<Rightarrow> (string \<Rightarrow> bool) \<Rightarrow> db_env \<Rightarrow> t_disk_data list \<Rightarrow> string option \<Rightarrow> stop + bool \<times> string option" where
  "dump_registered_images json_dumps utf8 env items file =
     (if db_mkdir env \<notin> {None, Some EEXIST} then Inr (False, file)
      else if db_open env \<noteq> None then Inr (False, file)
      else let file' = (case file of None \<Rightarrow> Some [] | Some s \<Rightarrow> Some s) in
        if \<not> db_fstat env \<or> \<not> db_regular env \<or> db_nlink env > 1 \<or> \<not> db_truncate env then Inr (False, file')
        else bindE (dump_json utf8 items) (\<lambda>root.
          case db_write env of None \<Rightarrow> Inr (True, Some (json_dumps root)) | Some n \<Rightarrow> Inr (False, Some (take n (json_dumps root)))))"

section \<open>Loading\<close>

definition json_get :: "(string \<times> json) list \<Rightarrow> string \<Rightarrow> json option" where
  "json_get ms k = map_of ms k"

text \<open>An attribute that must be there and be a string.\<close>

definition need_string :: "(string \<times> json) list \<Rightarrow> string \<Rightarrow> string option" where
  "need_string ms k = (case json_get ms k of None \<Rightarrow> None | Some j \<Rightarrow> if json_is_string j then Some (json_string_value j) else None)"

text \<open>The remote export name may be missing, null or a string.\<close>

definition remote_export :: "(string \<times> json) list \<Rightarrow> string option option" where
  "remote_export ms =
     (case json_get ms ''remote_export_name'' of
        None \<Rightarrow> Some None
      | Some r \<Rightarrow> if \<not> json_is_string r \<and> r \<noteq> JNull then None else if r = JNull then Some None else Some (Some (json_string_value r)))"

text \<open>The body of the loop of \<open>load_database_json\<close>: the image to add, or \<^const>\<open>None\<close> to give up.\<close>

definition parse_image :: "string \<Rightarrow> json \<Rightarrow> (string \<times> string \<times> proxy_settings) option" where
  "parse_image name j =
     (case j of
        JObject ps \<Rightarrow>
          (case need_string ps ''mode'' of
             None \<Rightarrow> None
           | Some mode \<Rightarrow>
               if mode = ''target'' then map_option (\<lambda>image_path. (name, image_path, NOT_PROXIED)) (need_string ps ''image_path'')
               else if mode = ''proxy'' then
                 (case need_string ps ''image_path'' of None \<Rightarrow> None | Some image_path \<Rightarrow>
                 (case need_string ps ''bitmap_path'' of None \<Rightarrow> None | Some bitmap_path \<Rightarrow>
                 (case need_string ps ''control_socket_path'' of None \<Rightarrow> None | Some control_socket \<Rightarrow>
                 (case remote_export ps of None \<Rightarrow> None | Some remote_export_name \<Rightarrow>
                 (case need_string ps ''remote_host'' of None \<Rightarrow> None | Some remote_host \<Rightarrow>
                 (case need_string ps ''remote_port'' of None \<Rightarrow> None | Some remote_port \<Rightarrow>
                    Some (name, image_path, \<lparr>target_host = Some remote_host, target_port = Some remote_port, bitmap_image = Some bitmap_path,
                      control_socket_path = Some control_socket, target_exportname = remote_export_name\<rparr>)))))))
               else None)
      | _ \<Rightarrow> None)"

fun load_images :: "(string \<Rightarrow> bool) \<Rightarrow> bool \<Rightarrow> (string \<times> json) list \<Rightarrow> disk_dict \<times> nat \<times> nat \<Rightarrow> stop + bool \<times> disk_dict \<times> nat \<times> nat" where
  "load_images can_open mem [] (d, added, skipped) = Inr (True, d, added, skipped)"
| "load_images can_open mem ((name, j) # ms) (d, added, skipped) =
     (case parse_image name j of
        None \<Rightarrow> Inr (False, d, added, skipped)
      | Some (n, image_path, ps) \<Rightarrow>
          bindE (create_disk_data mem n image_path ps) (\<lambda>r.
            case r of
              None \<Rightarrow> Inl (Err ''out of memory'')
            | Some dd \<Rightarrow>
                (case add_diskimg can_open dd d of (ret, d') \<Rightarrow>
                   load_images can_open mem ms (if ret = XNBD_IMAGE_ADDED then (d', Suc added, skipped) else (d', added, Suc skipped)))))"

definition load_database_json :: "(string \<Rightarrow> bool) \<Rightarrow> bool \<Rightarrow> json \<Rightarrow> disk_dict \<Rightarrow> stop + bool \<times> disk_dict \<times> nat \<times> nat" where
  "load_database_json can_open mem root d =
     (case root of
        JObject ms \<Rightarrow>
          (case json_get ms ''version'' of
             None \<Rightarrow> Inr (False, d, 0, 0)
           | Some v \<Rightarrow>
               if json_integer_value v \<noteq> 2 then Inr (False, d, 0, 0)
               else (case json_get ms ''images'' of
                       None \<Rightarrow> Inr (True, d, 0, 0)
                     | Some (JObject images) \<Rightarrow> load_images can_open mem images (d, 0, 0)
                     | Some _ \<Rightarrow> Inr (False, d, 0, 0)))
      | _ \<Rightarrow> Inr (False, d, 0, 0))"

record load_env =
  ld_open :: "nat option"
  ld_fstat :: bool
  ld_regular :: bool
  ld_nlink :: nat
  ld_read :: bool

text \<open>
  \<open>load_database_file_or_abort\<close>: the table, and the number of skipped images; when there are any, the file is
  renamed and saved anew by the caller of this definition.
\<close>

definition load_database_file_or_abort :: "(string \<Rightarrow> json option) \<Rightarrow> (string \<Rightarrow> bool) \<Rightarrow> bool \<Rightarrow> load_env \<Rightarrow> string \<Rightarrow> disk_dict \<Rightarrow> stop + disk_dict \<times> nat" where
  "load_database_file_or_abort json_loadb can_open mem env file d =
     (case ld_open env of
        Some e \<Rightarrow> if e = ENOENT then Inr (d, 0) else Inl (Err ''Could not open'')
      | None \<Rightarrow>
          if \<not> ld_fstat env then Inl (Err ''Could not fstat'')
          else if \<not> ld_regular env then Inl (Err ''Not a regular file, refusing to read from it'')
          else if ld_nlink env > 1 then Inl (Err ''Detected hard-link, refusing to read from it'')
          else if \<not> ld_read env then Inl (Err ''Could not read'')
          else case json_loadb file of
            None \<Rightarrow> Inl (Err ''Invalid JSON'')
          | Some root \<Rightarrow>
              bindE (load_database_json can_open mem root d) (\<lambda>(ok, d', added, skipped).
                if ok then Inr (d', skipped) else Inl (Err ''Loading database state failed.'')))"

text \<open>
  The end of it, when images were skipped: the file is renamed to \<open>.prev\<close>, after removing an older one, and
  the table is saved. The result are the contents of \<open>.prev\<close> and of the file.
\<close>

definition backup_database :: "(json \<Rightarrow> string) \<Rightarrow> (string \<Rightarrow> bool) \<Rightarrow> db_env \<Rightarrow> bool \<Rightarrow> bool \<Rightarrow> t_disk_data list \<Rightarrow> string option \<Rightarrow> string \<Rightarrow>
    stop + string option \<times> string option" where
  "backup_database json_dumps utf8 env unlink_ok rename_ok items prev file =
     (let prev' = (if unlink_ok then None else prev) in
      bindE (dump_registered_images json_dumps utf8 env items (if rename_ok then None else Some file)) (\<lambda>(_, file').
        Inr (if rename_ok then Some file else prev', file')))"

section \<open>Loading what was saved\<close>

text \<open>Documents that differ in the order of the members of objects.\<close>

fun json_same :: "json \<Rightarrow> json \<Rightarrow> bool" where
  "json_same (JObject xs) (JObject ys) \<longleftrightarrow> mset (map fst xs) = mset (map fst ys) \<and>
     list_all (\<lambda>(k, v). case map_of ys k of None \<Rightarrow> False | Some w \<Rightarrow> json_same v w) xs"
| "json_same (JObject xs) j \<longleftrightarrow> False"
| "json_same j j' \<longleftrightarrow> j = j'"

fun json_wf :: "json \<Rightarrow> bool" where
  "json_wf (JObject xs) \<longleftrightarrow> distinct (map fst xs) \<and> list_all (\<lambda>(k, v). json_wf v) xs"
| "json_wf j \<longleftrightarrow> True"

lemma json_same_refl: "json_wf j \<Longrightarrow> json_same j j"
proof (induction j rule: json_wf.induct)
  case (1 xs)
  have "case map_of xs k of None \<Rightarrow> False | Some w \<Rightarrow> json_same v w" if "(k, v) \<in> set xs" for k v
    using 1 that by (auto simp: list_all_iff)
  then show ?case by (auto simp: list_all_iff)
qed auto

lemma json_same_get:
  assumes "json_same (JObject xs) (JObject ys)"
  shows "(case json_get xs k of None \<Rightarrow> json_get ys k = None | Some v \<Rightarrow> (\<exists>w. json_get ys k = Some w \<and> json_same v w))"
proof (cases "json_get xs k")
  case None
  have "fst ` set xs = fst ` set ys" using assms by (metis json_same.simps(1) list.set_map set_mset_mset)
  with None have "json_get ys k = None" by (simp add: json_get_def map_of_eq_None_iff)
  with None show ?thesis by simp
next
  case (Some v)
  then have "(k, v) \<in> set xs" by (auto simp: json_get_def dest: map_of_SomeD)
  with assms Some show ?thesis by (auto simp: list_all_iff json_get_def split: option.splits)
qed

lemma json_same_leaf: "json_same v w \<Longrightarrow> (json_is_string w \<longleftrightarrow> json_is_string v) \<and> json_string_value w = json_string_value v \<and>
    json_integer_value w = json_integer_value v \<and> (w = JNull \<longleftrightarrow> v = JNull)"
  by (cases "(v, w)" rule: json_same.cases) auto

lemma need_string_same: "json_same (JObject xs) (JObject ys) \<Longrightarrow> need_string ys k = need_string xs k"
  using json_same_get[of xs ys k] by (auto simp: need_string_def json_same_leaf split: option.splits)

lemma parse_image_same:
  assumes "json_same j j'"
  shows "parse_image name j' = parse_image name j"
proof (cases j)
  case (JObject xs)
  then obtain ys where ys: "j' = JObject ys" using assms by (cases j') auto
  with assms JObject have s: "json_same (JObject xs) (JObject ys)" by simp
  have r: "remote_export ys = remote_export xs"
    using json_same_get[OF s, of "''remote_export_name''"] by (auto simp: remote_export_def split: option.splits dest!: json_same_leaf)
  show ?thesis unfolding JObject ys parse_image_def need_string_same[OF s] r json.case ..
qed (use assms in \<open>cases j'; simp add: parse_image_def\<close>)+

text \<open>A complete entry of the table, with strings the library accepts.\<close>

definition opt_ok :: "(string \<Rightarrow> bool) \<Rightarrow> string option \<Rightarrow> bool" where
  "opt_ok utf8 s = (case s of None \<Rightarrow> False | Some s \<Rightarrow> utf8 s)"

definition wf_disk :: "(string \<Rightarrow> bool) \<Rightarrow> t_disk_data \<Rightarrow> bool" where
  "wf_disk utf8 dd \<longleftrightarrow> utf8 ''target'' \<and> utf8 ''proxy'' \<and> utf8 (local_exportname dd) \<and> utf8 (disk_file_name dd) \<and>
     (let p = proxy dd in if target_host p = None then p = NOT_PROXIED
      else opt_ok utf8 (target_host p) \<and> opt_ok utf8 (target_port p) \<and> opt_ok utf8 (bitmap_image p) \<and> opt_ok utf8 (control_socket_path p) \<and>
        (target_exportname p \<noteq> None \<longrightarrow> opt_ok utf8 (target_exportname p)))"

lemma set_new_wf: "json_wf (JObject ms) \<Longrightarrow> (\<And>j. v = Some j \<Longrightarrow> json_wf j) \<Longrightarrow> json_wf (JObject (json_object_set_new ms k v))"
proof (cases v)
  case (Some j)
  assume *: "json_wf (JObject ms)" "\<And>j. v = Some j \<Longrightarrow> json_wf j"
  have "map fst (map (\<lambda>(k', v'). (k', if k' = k then j else v')) ms) = map fst ms" by auto
  with * Some show ?thesis by (auto simp: json_object_set_new_def list_all_iff split_def simp del: map_map)
qed (simp add: json_object_set_new_def)

lemma leaf_wf: "json_string utf8 s = Some j \<Longrightarrow> json_wf j" "(case v of None \<Rightarrow> None | Some s \<Rightarrow> json_string utf8 s) = Some j \<Longrightarrow> json_wf j"
    "(case v of None \<Rightarrow> Some JNull | Some s \<Rightarrow> json_string utf8 s) = Some j \<Longrightarrow> json_wf j" "json_wf (JObject [])"
  by (auto simp: json_string_def split: option.splits if_splits)

lemma disk_properties_wf: "json_wf (JObject (disk_properties utf8 dd))"
proof (cases "target_host (proxy dd) \<noteq> None")
  case True
  then show ?thesis unfolding disk_properties_def Let_def by (simp only: if_True not_False_eq_True) (rule leaf_wf(4) set_new_wf | erule leaf_wf(1) leaf_wf(2) leaf_wf(3))+
next
  case False
  then show ?thesis unfolding disk_properties_def Let_def by (simp only: if_False not_True_eq_False) (rule leaf_wf(4) set_new_wf | erule leaf_wf(1) leaf_wf(2) leaf_wf(3))+
qed

lemma parse_dumped:
  assumes "wf_disk utf8 dd"
  shows "parse_image name (JObject (disk_properties utf8 dd)) = Some (name, disk_file_name dd, proxy dd)"
proof (cases "target_host (proxy dd)")
  case None
  with assms show ?thesis
    by (simp add: wf_disk_def Let_def disk_properties_def json_object_set_new_def json_string_def parse_image_def need_string_def remote_export_def json_get_def)
next
  case (Some h)
  with assms obtain po b c e where p: "proxy dd = \<lparr>target_host = Some h, target_port = Some po, bitmap_image = Some b, control_socket_path = Some c,
      target_exportname = e\<rparr>" "utf8 h" "utf8 po" "utf8 b" "utf8 c" "e \<noteq> None \<longrightarrow> opt_ok utf8 e"
    by (cases "proxy dd") (auto simp: wf_disk_def Let_def opt_ok_def split: option.splits)
  with assms show ?thesis
    by (cases e) (auto simp: wf_disk_def opt_ok_def disk_properties_def json_object_set_new_def json_string_def parse_image_def need_string_def
      remote_export_def json_get_def)
qed

text \<open>What an export is, apart from its index.\<close>

definition exports :: "disk_dict \<Rightarrow> string \<Rightarrow> (string \<times> proxy_settings) option" where
  "exports d k = map_option (\<lambda>dd. (disk_file_name dd, proxy dd)) (lookup_disk d k)"

lemma dump_images:
  assumes "distinct (map local_exportname items)" and "\<forall>dd \<in> set items. utf8 (local_exportname dd)"
  shows "foldE (add_disk_to_json utf8) items [] = Inr (map (\<lambda>dd. (local_exportname dd, JObject (disk_properties utf8 dd))) items)"
  using assms
proof (induction items rule: rev_induct)
  case (snoc dd items)
  then show ?case by (auto simp: foldE_append add_disk_to_json_def json_object_set_new_def image_image)
qed simp

lemma load_images_ok:
  assumes "distinct (map fst ms)" and "\<forall>(k, j) \<in> set ms. \<exists>path ps. parse_image k j = Some (k, path, ps) \<and> can_open path"
    and "\<forall>(k, j) \<in> set ms. lookup_disk d k = None"
  shows "\<exists>d'. load_images can_open True ms (d, a, s) = Inr (True, d', a + length ms, s) \<and>
    (\<forall>k. exports d' k = (case map_of ms k of None \<Rightarrow> exports d k | Some j \<Rightarrow> map_option snd (parse_image k j)))"
  using assms
proof (induction ms arbitrary: d a)
  case (Cons m ms)
  obtain k j where m: "m = (k, j)" by (cases m)
  from Cons.prems m obtain path ps where p: "parse_image k j = Some (k, path, ps)" "can_open path" by auto
  let ?dd = "\<lparr>local_exportname = k, disk_file_name = path, dd_index = 0, proxy = ps\<rparr> :: t_disk_data"
  define d1 where "d1 = snd (add_diskimg can_open ?dd d)"
  have add: "add_diskimg can_open ?dd d = (XNBD_IMAGE_ADDED, d1)" using p(2) Cons.prems(3) m by (auto simp: d1_def add_diskimg_def)
  have look: "lookup_disk d1 k' = (if k' = k then Some (?dd\<lparr>dd_index := images_added_ever d\<rparr>) else lookup_disk d k')" for k'
    using p(2) Cons.prems(3) m by (auto simp: d1_def add_diskimg_def lookup_disk_def map_add_def split: option.splits)
  have "lookup_disk d1 k' = None" if "(k', j') \<in> set ms" for k' j'
  proof -
    have "k' \<noteq> k" using Cons.prems(1) m that by force
    with look[of k'] Cons.prems(3) that show ?thesis by auto
  qed
  then have "\<forall>(k', j) \<in> set ms. lookup_disk d1 k' = None" by blast
  with Cons.IH[of d1 "Suc a"] Cons.prems m obtain d' where d': "load_images can_open True ms (d1, Suc a, s) = Inr (True, d', Suc a + length ms, s)"
    "\<forall>k. exports d' k = (case map_of ms k of None \<Rightarrow> exports d1 k | Some j \<Rightarrow> map_option snd (parse_image k j))" by auto
  moreover have "map_of ms k = None" using Cons.prems(1) m by (simp add: map_of_eq_None_iff)
  moreover have "exports d1 k' = (if k' = k then Some (path, ps) else exports d k')" for k' using look[of k'] by (simp add: exports_def)
  ultimately show ?case using m p(1) add
    by (auto simp: create_disk_data_def copy_disk_data_def split: option.splits)
qed simp

lemma load_dumped:
  assumes "distinct (map local_exportname items)" and "\<forall>dd \<in> set items. wf_disk utf8 dd \<and> can_open (disk_file_name dd)"
    and "json_same (JObject (map (\<lambda>dd. (local_exportname dd, JObject (disk_properties utf8 dd))) items)) (JObject ms)"
  shows "\<exists>d. load_images can_open True ms (\<lparr>disks = [], images_added_ever = n\<rparr>, 0, 0) = Inr (True, d, length ms, 0) \<and>
    (\<forall>k. exports d k = map_of (map (\<lambda>dd. (local_exportname dd, (disk_file_name dd, proxy dd))) items) k)"
proof -
  let ?xs = "map (\<lambda>dd. (local_exportname dd, JObject (disk_properties utf8 dd))) items"
  have keys: "mset (map fst ?xs) = mset (map fst ms)" using assms(3) by simp
  then have dist: "distinct (map fst ms)" using assms(1) mset_eq_imp_distinct_iff[OF keys] by (simp add: comp_def)
  have parse: "map_of ms k = Some j \<Longrightarrow> \<exists>dd \<in> set items. local_exportname dd = k \<and> parse_image k j = Some (k, disk_file_name dd, proxy dd)" for k j
  proof -
    assume j: "map_of ms k = Some j"
    then have "k \<in> fst ` set ms" by (metis domI dom_map_of_conv_image_fst)
    then have "k \<in> fst ` set ?xs" using keys by (metis list.set_map set_mset_mset)
    then obtain dd where dd: "dd \<in> set items" "local_exportname dd = k" by auto
    then have "map_of ?xs k = Some (JObject (disk_properties utf8 dd))" using assms(1) by (intro map_of_is_SomeI) (auto simp: comp_def)
    then have "json_same (JObject (disk_properties utf8 dd)) j" using json_same_get[OF assms(3), of k] j by (simp add: json_get_def)
    from parse_image_same[OF this, of k] parse_dumped[of utf8 dd k] assms(2) dd show ?thesis by (intro bexI[of _ dd]) auto
  qed
  have "\<forall>(k, j) \<in> set ms. \<exists>path ps. parse_image k j = Some (k, path, ps) \<and> can_open path"
    using parse assms(2) map_of_is_SomeI[OF dist] by fastforce
  moreover have empty: "exports \<lparr>disks = [], images_added_ever = n\<rparr> k = None" for k by (simp add: exports_def lookup_disk_def)
  ultimately obtain d where
    d: "load_images can_open True ms (\<lparr>disks = [], images_added_ever = n\<rparr>, 0, 0) = Inr (True, d, length ms, 0)"
    "\<forall>k. exports d k = (case map_of ms k of None \<Rightarrow> None | Some j \<Rightarrow> map_option snd (parse_image k j))"
    using load_images_ok[OF dist, of can_open "\<lparr>disks = [], images_added_ever = n\<rparr>" 0 0] unfolding empty by (auto simp: lookup_disk_def)
  have "exports d k = map_of (map (\<lambda>dd. (local_exportname dd, (disk_file_name dd, proxy dd))) items) k" for k
  proof (cases "map_of ms k")
    case None
    then have "k \<notin> fst ` set ?xs" using keys by (metis list.set_map map_of_eq_None_iff set_mset_mset)
    then have "map_of (map (\<lambda>dd. (local_exportname dd, (disk_file_name dd, proxy dd))) items) k = None" by (force simp: map_of_eq_None_iff)
    with None d(2) show ?thesis by simp
  next
    case (Some j)
    with parse obtain dd where dd: "dd \<in> set items" "local_exportname dd = k" "parse_image k j = Some (k, disk_file_name dd, proxy dd)" by blast
    then have "map_of (map (\<lambda>dd. (local_exportname dd, (disk_file_name dd, proxy dd))) items) k = Some (disk_file_name dd, proxy dd)"
      using assms(1) by (intro map_of_is_SomeI) (auto simp: comp_def)
    with Some dd d(2) show ?thesis by simp
  qed
  with d(1) show ?thesis by blast
qed

lemma exports_items:
  assumes "dict_inv d" and "mset items = mset (map snd (disks d))"
  shows "distinct (map local_exportname items)" and "exports d k = map_of (map (\<lambda>dd. (local_exportname dd, (disk_file_name dd, proxy dd))) items) k"
proof -
  have "map fst (disks d) = map local_exportname (map snd (disks d))" using assms(1) by (auto simp: dict_inv_def)
  then have "mset (map local_exportname items) = mset (map fst (disks d))" using assms(2) by (metis mset_map)
  moreover have "distinct (map fst (disks d))" using assms(1) by (simp add: dict_inv_def)
  ultimately show dist: "distinct (map local_exportname items)" using mset_eq_imp_distinct_iff by blast
  have set: "set items = snd ` set (disks d)" using assms(2) by (metis list.set_map set_mset_mset)
  show "exports d k = map_of (map (\<lambda>dd. (local_exportname dd, (disk_file_name dd, proxy dd))) items) k"
  proof (cases "lookup_disk d k")
    case None
    then have k: "k \<notin> fst ` set (disks d)" by (simp add: lookup_disk_def map_of_eq_None_iff)
    have "k \<noteq> local_exportname dd" if i: "dd \<in> set items" for dd
    proof -
      obtain k' where "(k', dd) \<in> set (disks d)" using i set by auto
      with k assms(1) show ?thesis by (force simp: dict_inv_def)
    qed
    then have "map_of (map (\<lambda>dd. (local_exportname dd, (disk_file_name dd, proxy dd))) items) k = None" by (force simp: map_of_eq_None_iff)
    with None show ?thesis by (simp add: exports_def)
  next
    case (Some dd)
    then have i: "(k, dd) \<in> set (disks d)" by (auto simp: lookup_disk_def dest: map_of_SomeD)
    have "dd \<in> set items" unfolding set using i by (rule rev_image_eqI) simp
    moreover have "\<forall>(k, v) \<in> set (disks d). k = local_exportname v \<and> dd_index v < images_added_ever d" using assms(1) by (simp add: dict_inv_def)
    from bspec[OF this i] have "local_exportname dd = k" by simp
    ultimately have "map_of (map (\<lambda>dd. (local_exportname dd, (disk_file_name dd, proxy dd))) items) k = Some (disk_file_name dd, proxy dd)"
      using dist by (intro map_of_is_SomeI) (auto simp: comp_def)
    with Some show ?thesis by (simp add: exports_def)
  qed
qed


definition example_disks :: disk_dict where
  "example_disks = \<lparr>disks = [(''a'', \<lparr>local_exportname = ''a'', disk_file_name = ''/a'', dd_index = 1, proxy = NOT_PROXIED\<rparr>),
     (''p'', \<lparr>local_exportname = ''p'', disk_file_name = ''/p'', dd_index = 3, proxy = \<lparr>target_host = Some ''h'', target_port = Some ''8520'',
        bitmap_image = Some ''/p.bm'', control_socket_path = Some ''/p.ctl'', target_exportname = None\<rparr>\<rparr>)], images_added_ever = 4\<rparr>"

instance json :: countable
  by countable_datatype


end
