(* ===== verification/Wrapper.thy ===== *)
theory Wrapper
  imports Wrapper_Db Nbd Io
begin

text \<open>
  \<open>xnbd_wrapper.c\<close>: the control connections with their commands, percent-encoded arguments, the calls of
  \<open>xnbd-bgctl\<close>, and the main loop, which starts a server process for every client connection.
\<close>

definition eol :: string where "eol = [CHR 0x0A]"

definition print_int :: "int \<Rightarrow> string" where
  "print_int i = (if i < 0 then CHR ''-'' # decimal (nat (- i)) else decimal (nat i))"

section \<open>Percent encoding\<close>

definition hexdig_char_to_int :: "char \<Rightarrow> nat option" where
  "hexdig_char_to_int c =
     (let n = of_char c :: nat in
      if 48 \<le> n \<and> n \<le> 57 then Some (n - 48)
      else if 97 \<le> n \<and> n \<le> 102 then Some (n - 87)
      else if 65 \<le> n \<and> n \<le> 70 then Some (n - 55)
      else None)"

text \<open>
  The loop of \<open>decode_percent_encoding\<close>: the argument is what is left to read. The text is decoded in place, behind the reading position.
\<close>

fun decode_loop :: "string \<Rightarrow> string" where
  "decode_loop [] = []"
| "decode_loop (c # cs) =
     (if c \<noteq> CHR ''%'' then c # decode_loop cs
      else case cs of
        [] \<Rightarrow> [c]
      | d # ds \<Rightarrow>
          (case hexdig_char_to_int d of
             None \<Rightarrow> c # decode_loop (d # ds)
           | Some higher \<Rightarrow>
               (case ds of
                  [] \<Rightarrow> [c, d]
                | e # es \<Rightarrow>
                    (case hexdig_char_to_int e of
                       None \<Rightarrow> c # d # decode_loop (e # es)
                     | Some lower \<Rightarrow> char_of (16 * higher + lower) # decode_loop es))))"

text \<open>The result is a C string, so it ends where \<open>%00\<close> was decoded.\<close>

definition decode_percent_encoding :: "string \<Rightarrow> string" where
  "decode_percent_encoding text = takeWhile (\<lambda>c. c \<noteq> CHR 0x00) (decode_loop text)"

section \<open>Arguments of commands\<close>

text \<open>
  \<open>extract_decode_check_usage\<close>: \<open>g_strsplit\<close> of glib is the parameter \<open>split\<close>, from the line and the largest number of
  parts. \<^const>\<open>None\<close> is the wrong number of arguments; the first word is not decoded.
\<close>

definition chomp :: "string \<Rightarrow> string" where
  "chomp buf = (if buf \<noteq> [] \<and> last buf = CHR 0x0A then butlast buf else buf)"

definition extract_decode_check_usage :: "(string \<Rightarrow> nat \<Rightarrow> string list) \<Rightarrow> string \<Rightarrow> nat \<Rightarrow> nat \<Rightarrow> string list option" where
  "extract_decode_check_usage split buf argc_min argc_max =
     (let argv = split (chomp buf) (argc_max + 1); argc = length argv in
      if argc < argc_min \<or> argc > argc_max then None
      else case argv of [] \<Rightarrow> Some [] | cmd # args \<Rightarrow> Some (cmd # map decode_percent_encoding args))"

text \<open>\<open>sscanf(buf, "%s%s", cmd, arg)\<close>: words between white space; an array keeps its contents when its word is missing.\<close>

definition next_word :: "string \<Rightarrow> string \<times> string" where
  "next_word s = (let s' = dropWhile is_space s in (takeWhile (\<lambda>c. \<not> is_space c) s', dropWhile (\<lambda>c. \<not> is_space c) s'))"

definition scan_command :: "string \<Rightarrow> string \<Rightarrow> (string \<times> string) option" where
  "scan_command buf old_arg =
     (case next_word buf of (cmd, rest) \<Rightarrow>
        if cmd = [] then None
        else case next_word rest of (arg, _) \<Rightarrow> Some (cmd, if arg = [] then old_arg else arg))"

section \<open>Calls of xnbd-bgctl\<close>

text \<open>
  \<open>bgctl_argv\<close> of \<open>handle_bgctl_command\<close>: its declared number of elements, and those stored, with the final NULL as \<^const>\<open>None\<close>.
\<close>

definition bgctl_argv_size :: "nat \<Rightarrow> nat \<Rightarrow> int" where
  "bgctl_argv_size argc argc_max =
     (let present = (argc = argc_max); positional = int argc - 1 - 1 - (if present then 1 else 0)
      in 1 + (if present then 2 else 0) + 1 + 1 + positional + 1)"

definition bgctl_argv :: "string \<Rightarrow> string \<Rightarrow> string \<Rightarrow> string list \<Rightarrow> nat \<Rightarrow> string option list" where
  "bgctl_argv xnbd_bgctl_command mode control_socket argv argc_max =
     (let argc = length argv; present = (argc = argc_max); positional = nat (int argc - 1 - 1 - (if present then 1 else 0))
      in Some xnbd_bgctl_command # (if present then [Some ''--exportname'', Some (argv ! (argc_max - 1))] else []) @
         [Some mode, Some control_socket] @ map (\<lambda>i. Some (argv ! (1 + 1 + i))) [0..<positional] @ [None])"

text \<open>How a child process ended; \<^const>\<open>None\<close>: it could not be started.\<close>

datatype child_end = Exited nat | Signaled nat

definition bgctl_return_code :: "child_end option \<Rightarrow> int" where
  "bgctl_return_code c = (case c of None \<Rightarrow> -1 | Some (Exited n) \<Rightarrow> int (n mod 256) | Some (Signaled n) \<Rightarrow> int ((128 + n) mod 256))"

text \<open>
  \<open>handle_bgctl_command\<close>: the return code, the decoded arguments, the call that is made, and what is
  printed. Storing more elements than the array has is a fault.
\<close>

definition handle_bgctl_command ::
  "string \<Rightarrow> string \<Rightarrow> nat \<Rightarrow> nat \<Rightarrow> (string \<Rightarrow> nat \<Rightarrow> string list) \<Rightarrow> string \<Rightarrow> string \<Rightarrow> bool \<Rightarrow> (string \<Rightarrow> bool) \<Rightarrow> child_end option \<Rightarrow> disk_dict \<Rightarrow>
   stop + int \<times> string list \<times> string option list option \<times> string" where
  "handle_bgctl_command usage mode argc_min argc_max split buf xnbd_bgctl_command mem access_ok child d =
     (case extract_decode_check_usage split buf argc_min argc_max of
        None \<Rightarrow> Inr (-1, [], None, ''usage: '' @ usage @ eol)
      | Some argv \<Rightarrow>
          bindE (get_disk_data_for mem d (argv ! 1)) (\<lambda>r.
            case r of
              None \<Rightarrow> Inr (-1, argv, None, ''There is no export named \"'' @ argv ! 1 @ ''\".'' @ eol)
            | Some dd \<Rightarrow>
                if target_host (proxy dd) = None then Inr (-1, argv, None, ''Export \"'' @ argv ! 1 @ ''\" not configured for proxy mode.'' @ eol)
                else if \<not> access_ok (str (control_socket_path (proxy dd))) then Inr (-1, argv, None, ''Export \"'' @ argv ! 1 @ ''\" not being served to any client at the moment.'' @ eol)
                else let call = bgctl_argv xnbd_bgctl_command mode (str (control_socket_path (proxy dd))) argv argc_max in
                  if int (length call) > bgctl_argv_size (length argv) argc_max then Inl Segv
                  else Inr (bgctl_return_code child, argv, Some call,
                    if child = None then ''xnbd-bgctl could not be executed.'' @ eol
                    else if bgctl_return_code child \<noteq> 0 then ''Execution of xnbd-bgctl failed with code '' @ print_int (bgctl_return_code child) @ ''.'' @ eol
                    else [])))"

section \<open>A control connection\<close>

record wrapper_env =
  we_split :: "string \<Rightarrow> nat \<Rightarrow> string list"
  we_can_open :: "string \<Rightarrow> bool"
  we_mem :: bool
  we_order :: "(string \<times> t_disk_data) list \<Rightarrow> t_disk_data list"
  we_dumps :: "json \<Rightarrow> string"
  we_utf8 :: "string \<Rightarrow> bool"
  we_db :: db_env
  we_access :: "string \<Rightarrow> bool"
  we_child :: "child_end option"

record wrapper =
  w_dict :: disk_dict
  w_file :: "string option"

definition perform_save :: "wrapper_env \<Rightarrow> wrapper \<Rightarrow> stop + bool \<times> wrapper" where
  "perform_save e w =
     bindE (dump_registered_images (we_dumps e) (we_utf8 e) (we_db e) (we_order e (disks (w_dict w))) (w_file w)) (\<lambda>(ok, file). Inr (ok, w\<lparr>w_file := file\<rparr>))"

definition auto_save :: "wrapper_env \<Rightarrow> wrapper \<Rightarrow> stop + wrapper" where
  "auto_save e w = bindE (perform_save e w) (\<lambda>(_, w'). Inr w')"

text \<open>What a command does to the connection: its return code and output, or the end of it, or of the process (and of its children).\<close>

datatype cmd_end = Reported int string | Quit | Terminate bool

definition EXIT_SUCCESS :: int where "EXIT_SUCCESS = 0"
definition EXIT_FAILURE :: int where "EXIT_FAILURE = 1"

definition add_command :: "wrapper_env \<Rightarrow> string \<Rightarrow> string \<Rightarrow> proxy_settings \<Rightarrow> wrapper \<Rightarrow> stop + cmd_end \<times> wrapper" where
  "add_command e name image_path ps w =
     bindE (create_disk_data (we_mem e) name image_path ps) (\<lambda>r.
       case r of
         None \<Rightarrow> Inr (Reported EXIT_FAILURE (''out of memory'' @ eol), w)
       | Some dd \<Rightarrow>
           (case add_diskimg (we_can_open e) dd (w_dict w) of (ret, d) \<Rightarrow>
              let w' = w\<lparr>w_dict := d\<rparr> in
              if ret = XNBD_IMAGE_ADDED then bindE (auto_save e w') (\<lambda>w''. Inr (Reported EXIT_SUCCESS [], w''))
              else Inr (Reported EXIT_FAILURE (if ret = XNBD_IMAGE_ACCESS_ERROR then ''cannot open '' @ image_path @ eol else ''image cannot be added twice'' @ eol), w')))"

definition del_command :: "wrapper_env \<Rightarrow> bool \<times> disk_dict \<Rightarrow> string \<Rightarrow> wrapper \<Rightarrow> stop + cmd_end \<times> wrapper" where
  "del_command e r msg w =
     (case r of (removed, d) \<Rightarrow>
        let w' = w\<lparr>w_dict := d\<rparr> in
        if removed then bindE (auto_save e w') (\<lambda>w''. Inr (Reported EXIT_SUCCESS [], w''))
        else Inr (Reported EXIT_FAILURE msg, w'))"

definition bgctl_command :: "wrapper_env \<Rightarrow> string \<Rightarrow> string \<Rightarrow> string \<Rightarrow> nat \<Rightarrow> nat \<Rightarrow> string \<Rightarrow> (string list \<Rightarrow> disk_dict \<Rightarrow> disk_dict) option \<Rightarrow> wrapper \<Rightarrow>
    stop + cmd_end \<times> wrapper" where
  "bgctl_command e usage xnbd_bgctl_command mode argc_min argc_max buf after w =
     bindE (handle_bgctl_command usage mode argc_min argc_max (we_split e) buf xnbd_bgctl_command (we_mem e) (we_access e) (we_child e) (w_dict w))
       (\<lambda>(code, argv, _, out).
         case after of
           Some f \<Rightarrow> if code = EXIT_SUCCESS then bindE (auto_save e (w\<lparr>w_dict := f argv (w_dict w)\<rparr>)) (\<lambda>w'. Inr (Reported code out, w'))
                     else Inr (Reported code out, w)
         | None \<Rightarrow> Inr (Reported code out, w))"

text \<open>
  One line of \<open>start_filemgr_thread\<close>, after \<open>sscanf\<close>. The help text is an argument; the messages of \<open>save\<close>, which name system errors, are left out.
\<close>

definition filemgr_command :: "string \<Rightarrow> wrapper_env \<Rightarrow> string \<Rightarrow> string \<Rightarrow> string \<Rightarrow> string \<Rightarrow> wrapper \<Rightarrow> stop + cmd_end \<times> wrapper" where
  "filemgr_command help e xnbd_bgctl_command buf cmd arg w =
     (if cmd = ''list'' then Inr (Reported EXIT_SUCCESS (list_diskimg (we_order e (disks (w_dict w)))), w)
      else if cmd = ''add'' \<or> cmd = ''add-target'' then
        (case extract_decode_check_usage (we_split e) buf 2 3 of
           None \<Rightarrow> Inr (Reported EXIT_FAILURE (''usage: add-target <LOCAL_EXPORTNAME> <FILE>'' @ eol), w)
         | Some argv \<Rightarrow> add_command e (argv ! 1) (if length argv = 3 then argv ! 2 else argv ! 1) NOT_PROXIED w)
      else if cmd = ''add-proxy'' then
        (case extract_decode_check_usage (we_split e) buf 7 8 of
           None \<Rightarrow> Inr (Reported EXIT_FAILURE (''usage: add-proxy <LOCAL_EXPORTNAME> <TARGET_HOST> <TARGET_PORT> <CACHE_IMAGE> <BITMAP_IMAGE> <CONTROL_SOCKET_PATH> [<TARGET_EXPORTNAME>]'' @ eol), w)
         | Some argv \<Rightarrow> add_command e (argv ! 1) (argv ! 4)
             \<lparr>target_host = Some (argv ! 2), target_port = Some (argv ! 3), bitmap_image = Some (argv ! 5), control_socket_path = Some (argv ! 6),
              target_exportname = (if length argv > 7 then Some (argv ! 7) else None)\<rparr> w)
      else if cmd = ''del'' then
        del_command e (del_diskimg_by_index (atoi arg) (w_dict w)) (''Image number '' @ print_int (atoi arg) @ '' could not be deleted.'' @ eol) w
      else if cmd = ''del-file'' then
        del_command e (del_diskimg_by_file (decode_percent_encoding arg) (w_dict w)) (''Image with filename \"'' @ decode_percent_encoding arg @ ''\" could not be deleted.'' @ eol) w
      else if cmd = ''del-exportname'' then
        del_command e (del_diskimg_by_exportname (decode_percent_encoding arg) (w_dict w)) (''Image with exportname \"'' @ decode_percent_encoding arg @ ''\" could not be deleted.'' @ eol) w
      else if cmd = ''shutdown'' then Inr (Terminate True, w)
      else if cmd = ''orphan'' then Inr (Terminate False, w)
      else if cmd = ''bgctl-query'' then bgctl_command e ''bgctl-query EXPORTNAME'' xnbd_bgctl_command ''--query'' 2 2 buf None w
      else if cmd = ''bgctl-switch'' then
        bgctl_command e ''bgctl-switch EXPORTNAME'' xnbd_bgctl_command ''--switch'' 2 2 buf (Some (\<lambda>argv. mark_proxy_mode_ended (argv ! 1))) w
      else if cmd = ''bgctl-cache-all'' then bgctl_command e ''bgctl-cache-all EXPORTNAME'' xnbd_bgctl_command ''--cache-all'' 2 2 buf None w
      else if cmd = ''bgctl-reconnect'' then
        bgctl_command e ''bgctl-reconnect LOCAL_EXPORTNAME HOST PORT [TARGET_EXPORTNAME]'' xnbd_bgctl_command ''--reconnect'' 4 5 buf
          (Some (\<lambda>argv. update_proxy_settings (argv ! 1) (argv ! 2) (argv ! 3) (if length argv \<ge> 5 then Some (argv ! 4) else None))) w
      else if cmd = ''save'' then bindE (perform_save e w) (\<lambda>(_, w'). Inr (Reported EXIT_SUCCESS [], w'))
      else if cmd = ''help'' then Inr (Reported EXIT_SUCCESS help, w)
      else if cmd = ''quit'' then Inr (Quit, w)
      else Inr (Reported EXIT_FAILURE (''unknown command'' @ eol), w))"

text \<open>The lines of a connection, with \<open>arg\<close> kept from line to line, decoded when a command decoded it; \<open>report_return_code\<close> turns a negative code into a failure.\<close>

definition report_return_code :: "int \<Rightarrow> int" where
  "report_return_code code = (if code < 0 then EXIT_FAILURE else code)"

fun filemgr_loop :: "string \<Rightarrow> wrapper_env \<Rightarrow> string \<Rightarrow> string list \<Rightarrow> string \<Rightarrow> wrapper \<Rightarrow> stop + (int \<times> string) list \<times> wrapper" where
  "filemgr_loop help e bgctl [] arg w = Inr ([], w)"
| "filemgr_loop help e bgctl (buf # bufs) arg w =
     (case scan_command buf arg of
        None \<Rightarrow> filemgr_loop help e bgctl bufs arg w
      | Some (cmd, arg') \<Rightarrow>
          bindE (filemgr_command help e bgctl buf cmd arg' w) (\<lambda>(r, w').
            case r of
              Reported code out \<Rightarrow> bindE (filemgr_loop help e bgctl bufs (if cmd = ''del-file'' \<or> cmd = ''del-exportname'' then decode_percent_encoding arg' else arg') w') (\<lambda>(rs, w''). Inr ((report_return_code code, out) # rs, w''))
            | Quit \<Rightarrow> Inr ([], w')
            | Terminate _ \<Rightarrow> Inr ([], w')))"

section \<open>Server processes\<close>

record exec_params =
  binpath :: string
  target_mode :: string
  ep_readonly :: bool
  ep_syslog :: bool
  max_que_size_str :: "string option"
  max_buf_size_str :: "string option"

definition opt_arg :: "string \<Rightarrow> string option \<Rightarrow> string option list" where
  "opt_arg name v = (case v of None \<Rightarrow> [] | Some s \<Rightarrow> [Some name, Some s])"

text \<open>The arguments for the server, with the final NULL; a NULL member is passed on.\<close>

definition exec_xnbd_server :: "exec_params \<Rightarrow> string \<Rightarrow> t_disk_data \<Rightarrow> string option list" where
  "exec_xnbd_server params fd_num dd =
     (let p = proxy dd; proxied = (target_host p \<noteq> None) in
      [Some (binpath params), Some (if proxied then ''--proxy'' else target_mode params)] @
      (if ep_readonly params then [Some ''--readonly''] else []) @ (if ep_syslog params then [Some ''--syslog''] else []) @
      [Some ''--connected-fd'', Some fd_num] @
      (if proxied then
         opt_arg ''--max-queue-size'' (max_que_size_str params) @ opt_arg ''--max-buf-size'' (max_buf_size_str params) @
         opt_arg ''--target-exportname'' (target_exportname p) @
         [target_host p, target_port p, Some (disk_file_name dd), bitmap_image p, control_socket_path p]
       else [Some (disk_file_name dd)]) @ [None])"

text \<open>\<open>query_remote_disk_size\<close>: the size stays -1 when the remote server cannot be asked.\<close>

definition query_remote_disk_size :: "sock option \<Rightarrow> bytes option \<Rightarrow> bytes \<Rightarrow> bytes \<Rightarrow> int" where
  "query_remote_disk_size remote name junk0 junk2 =
     (case remote of
        None \<Rightarrow> -1
      | Some fd \<Rightarrow>
          (case (case name of Some n \<Rightarrow> nbd_negotiate_v2_client_side fd (of_nat (length n)) n junk0 junk2
                 | None \<Rightarrow> nbd_negotiate_v1_client_side fd junk0) of
             (_, r, _) \<Rightarrow> (case r of None \<Rightarrow> -1 | Some (sz, _) \<Rightarrow> sz)))"

definition string_of :: "bytes \<Rightarrow> string" where
  "string_of bs = map (\<lambda>b. char_of (unat b)) bs"

record conn_env =
  ce_junk0 :: bytes
  ce_junk2 :: bytes
  ce_remote :: "sock option"
  ce_open :: bool
  ce_fstat_err :: "nat option"
  ce_stat :: stat_buf
  ce_seek_end :: int
  ce_mem :: bool

text \<open>The child process of a connection: it exits, or becomes a server with these arguments.\<close>

definition serve_connection :: "exec_params \<Rightarrow> string \<Rightarrow> disk_dict \<Rightarrow> conn_env \<Rightarrow> sock \<Rightarrow> stop + string option list option \<times> sock" where
  "serve_connection params fd_num d ce conn =
     (case nbd_negotiate_v2_server_phase0 conn (ce_junk0 ce) of
        (None, s) \<Rightarrow> Inr (None, s)
      | (Some name, s) \<Rightarrow>
          bindE (get_disk_data_for (ce_mem ce) d (string_of name)) (\<lambda>r.
            case r of
              None \<Rightarrow> Inr (None, s)
            | Some dd \<Rightarrow>
                bindE (if target_host (proxy dd) \<noteq> None then
                         (let sz = query_remote_disk_size (ce_remote ce) (map_option (map (\<lambda>c. of_char c)) (target_exportname (proxy dd))) (ce_junk0 ce) (ce_junk2 ce)
                          in Inr (if sz < 0 then None else Some sz))
                       else if \<not> ce_open ce then Inr None
                       else bindE (get_disksize (ce_fstat_err ce) (ce_stat ce) (ce_seek_end ce)) (\<lambda>sz. Inr (Some sz))) (\<lambda>sz.
                  case sz of
                    None \<Rightarrow> Inr (None, s)
                  | Some sz \<Rightarrow>
                      bindE (nbd_negotiate_v2_server_phase1 s sz False) (\<lambda>(ret, s').
                        if ret \<noteq> 0 then Inr (None, s') else Inr (Some (exec_xnbd_server params fd_num dd), s')))))"

section \<open>Counting processes\<close>

abbreviation (input) MAX_NSRVS :: int where "MAX_NSRVS \<equiv> 512"
abbreviation (input) MAX_CTL_CONNS :: int where "MAX_CTL_CONNS \<equiv> 8"

record wproc =
  child_process_count :: int
  server_pid_set :: "nat set"
  mgr_threads :: int

text \<open>A client connects: \<^const>\<open>None\<close> when the limit is reached, otherwise a process is forked.\<close>

definition tcp_accept :: "nat \<Rightarrow> wproc \<Rightarrow> wproc option" where
  "tcp_accept pid p =
     (if child_process_count p \<ge> MAX_NSRVS then None
      else Some (p\<lparr>server_pid_set := insert pid (server_pid_set p), child_process_count := child_process_count p + 1\<rparr>))"

text \<open>\<open>SIGCHLD\<close>: \<open>waitpid_nohang_ghrfunc\<close> on every process of the set; \<open>gone\<close> are those \<open>waitpid\<close> finds.\<close>

definition reap_servers :: "nat set \<Rightarrow> wproc \<Rightarrow> wproc" where
  "reap_servers gone p =
     p\<lparr>server_pid_set := server_pid_set p - gone, child_process_count := child_process_count p - int (card (server_pid_set p \<inter> gone))\<rparr>"

definition bgctl_forked :: "wproc \<Rightarrow> wproc" where
  "bgctl_forked p = p\<lparr>child_process_count := child_process_count p + 1\<rparr>"

definition bgctl_waited :: "wproc \<Rightarrow> wproc" where
  "bgctl_waited p = p\<lparr>child_process_count := child_process_count p - 1\<rparr>"

definition count_mgr_threads :: "int \<Rightarrow> wproc \<Rightarrow> int \<times> wproc" where
  "count_mgr_threads val p = (let n = mgr_threads p + val in (n, p\<lparr>mgr_threads := n\<rparr>))"

end
