(* ===== verification/Wrapper_Props.thy ===== *)
theory Wrapper_Props
  imports Wrapper
begin

text \<open>
  Percent encoding is undone by the wrapper, the commands of control connections keep the table of
  exports consistent, and two flaws of the calls of \<open>xnbd-bgctl\<close> and of \<open>del\<close>.
\<close>

section \<open>Percent encoding\<close>

text \<open>
  What \<open>xnbd-wrapper-ctl\<close> sends for an argument: \<open>urllib.quote\<close> leaves letters, digits and \<open>_.-/\<close> and encodes every other character.
\<close>

definition hex_digit :: "nat \<Rightarrow> char" where
  "hex_digit n = char_of (if n < 10 then 48 + n else 55 + n)"

definition url_safe :: "char \<Rightarrow> bool" where
  "url_safe c \<longleftrightarrow> is_digit c \<or> 65 \<le> (of_char c :: nat) \<and> (of_char c :: nat) \<le> 90 \<or> 97 \<le> (of_char c :: nat) \<and> (of_char c :: nat) \<le> 122 \<or> c \<in> set ''_.-/''"

definition quote :: "string \<Rightarrow> string" where
  "quote s = concat (map (\<lambda>c. if url_safe c then [c] else [CHR ''%'', hex_digit (of_char c div 16), hex_digit (of_char c mod 16)]) s)"

lemma hexdig_hex_digit: "n < 16 \<Longrightarrow> hexdig_char_to_int (hex_digit n) = Some n"
  by (simp add: hexdig_char_to_int_def hex_digit_def Let_def)

lemma of_char_less: "(of_char c :: nat) < 256"
  using of_char_eq_iff[of c c] by (metis nat_of_char_less_256)

lemma of_char_high: "(of_char c :: nat) div 16 < 16"
  using of_char_less[of c] by (intro less_mult_imp_div_less) simp

lemma decode_quote: "decode_loop (quote s) = s"
proof (induction s)
  case (Cons c s)
  show ?case
  proof (cases "url_safe c")
    case True
    then have "c \<noteq> CHR ''%''" by (auto simp: url_safe_def is_digit_def)
    with True Cons show ?thesis by (simp add: quote_def)
  next
    case False
    have "16 * ((of_char c :: nat) div 16) + of_char c mod 16 = of_char c" by simp
    then show ?thesis using False Cons by (simp add: quote_def hexdig_hex_digit of_char_high)
  qed
qed (simp add: quote_def)

lemma safe_no_space: "url_safe c \<Longrightarrow> \<not> is_space c"
  by (auto simp: url_safe_def is_digit_def is_space_def)

lemma hex_no_space: "n < 16 \<Longrightarrow> \<not> is_space (hex_digit n)"
  by (auto simp: hex_digit_def is_space_def)

text \<open>
  C32. The arguments of control commands survive the connection: for every string without NUL, decoding what the
  control program sends gives the string back, and what is sent has no space and no
  line end, so it is one argument of the command.
\<close>

theorem percent_roundtrip:
  assumes "CHR 0x00 \<notin> set s"
  shows "decode_percent_encoding (quote s) = s \<and> (\<forall>c \<in> set (quote s). \<not> is_space c)"
proof -
  have "takeWhile (\<lambda>c. c \<noteq> CHR 0x00) s = s" unfolding takeWhile_eq_all_conv using assms by metis
  then have "decode_percent_encoding (quote s) = s" by (simp add: decode_percent_encoding_def decode_quote)
  moreover have "\<not> is_space c" if "c \<in> set (quote s)" for c
  proof -
    from that obtain d where "c = d \<and> url_safe d \<or> c = CHR ''%'' \<or> c = hex_digit (of_char d div 16) \<or> c = hex_digit (of_char d mod 16)"
      unfolding quote_def set_concat set_map by (smt (verit) UN_E empty_iff imageE list.set(1) set_ConsD)
    then show ?thesis using safe_no_space hex_no_space of_char_high[of d] by (auto simp: is_space_def)
  qed
  ultimately show ?thesis by blast
qed

theorem percent_roundtrip_witness:
  "decode_percent_encoding (quote ''/a disk%20.img'') = ''/a disk%20.img''"
  using percent_roundtrip[of "''/a disk%20.img''"] by simp

text \<open>The malformed cases of the comment on \<open>decode_percent_encoding\<close>.\<close>

lemma decode_malformed:
  "decode_percent_encoding ''%5a'' = ''Z''" "decode_percent_encoding ''%%5A'' = ''%Z''" "decode_percent_encoding ''%3%5A'' = ''%3Z''"
  "decode_percent_encoding ''%3g%5A'' = ''%3gZ''" "decode_percent_encoding ''%'' = ''%''" "decode_percent_encoding ''%%'' = ''%%''"
  by code_simp+

section \<open>The commands keep the table\<close>

text \<open>An export is a target, or has all settings a proxy needs.\<close>

definition complete_disk :: "t_disk_data \<Rightarrow> bool" where
  "complete_disk dd \<longleftrightarrow> (let p = proxy dd in if target_host p = None then p = NOT_PROXIED
     else target_port p \<noteq> None \<and> bitmap_image p \<noteq> None \<and> control_socket_path p \<noteq> None)"

definition table_ok :: "nat \<Rightarrow> wrapper \<Rightarrow> bool" where
  "table_ok n w \<longleftrightarrow> dict_inv (w_dict w) \<and> (\<forall>(k, dd) \<in> set (disks (w_dict w)). complete_disk dd) \<and> unat (images_added_ever (w_dict w)) \<le> n"

lemma save_keeps: "auto_save e w = Inr w' \<Longrightarrow> w_dict w' = w_dict w" "perform_save e w = Inr (ok, w') \<Longrightarrow> w_dict w' = w_dict w"
  by (auto simp: auto_save_def perform_save_def bindE_eq_Inr)

definition dict_ok :: "nat \<Rightarrow> disk_dict \<Rightarrow> bool" where
  "dict_ok n d \<longleftrightarrow> table_ok n \<lparr>w_dict = d, w_file = None\<rparr>"

lemma table_ok_dict: "table_ok n w \<longleftrightarrow> dict_ok n (w_dict w)"
  by (simp add: dict_ok_def table_ok_def)

lemma add_dict_ok:
  assumes "dict_ok n d" and "n < 4294967295" and "complete_disk dd"
  shows "dict_ok (Suc n) (snd (add_diskimg can_open dd d))"
proof -
  have n: "unat (images_added_ever d) < 4294967295" using assms(1,2) by (simp add: dict_ok_def table_ok_def)
  then have "images_added_ever d < - 1" by (simp add: word_less_nat_alt unsigned_minus_1_eq_mask mask_eq_exp_minus_1)
  with assms(1) have "dict_inv (snd (add_diskimg can_open dd d))" by (intro add_diskimg_inv) (auto simp: dict_ok_def table_ok_def)
  moreover have "unat (images_added_ever d + 1) = Suc (unat (images_added_ever d))" using n by (simp add: unat_word_ariths)
  ultimately show ?thesis using assms(1,3) by (auto simp: dict_ok_def table_ok_def add_diskimg_def complete_disk_def)
qed

lemma add_keeps:
  assumes "table_ok n w" and "n < 4294967295" and "add_command e name path ps w = Inr (r, w')" and "complete_disk \<lparr>local_exportname = name, disk_file_name = path, dd_index = 0, proxy = ps\<rparr>"
  shows "table_ok (Suc n) w'"
proof -
  let ?dd = "\<lparr>local_exportname = name, disk_file_name = path, dd_index = 0, proxy = ps\<rparr> :: t_disk_data"
  have "w_dict w' = snd (add_diskimg (we_can_open e) ?dd (w_dict w))" using assms(3) save_keeps(1)
    by (fastforce simp: add_command_def create_disk_data_def copy_disk_data_def bindE_eq_Inr Let_def split: if_splits prod.splits)
  with add_dict_ok[of n "w_dict w" ?dd "we_can_open e"] assms(1,2,4) show ?thesis by (simp add: table_ok_dict)
qed

lemma del_keeps:
  assumes "table_ok n w" and "del_command e (foreach_remove P (w_dict w)) msg w = Inr (r, w')"
  shows "table_ok n w'"
proof -
  have "w_dict w' = snd (foreach_remove P (w_dict w))" using assms(2) save_keeps(1)
    by (fastforce simp: del_command_def bindE_eq_Inr Let_def split: if_splits prod.splits)
  with assms(1) dict.inv_del_if[of "w_dict w" P] show ?thesis by (auto simp: table_ok_def foreach_remove_def)
qed

lemma modify_keeps:
  assumes "table_ok n w" and "\<And>dd. local_exportname (f dd) = local_exportname dd \<and> dd_index (f dd) = dd_index dd" and "\<And>dd. complete_disk dd \<Longrightarrow> lookup_disk (w_dict w) k = Some dd \<Longrightarrow> complete_disk (f dd)"
  shows "table_ok n (w\<lparr>w_dict := modify_disk k f (w_dict w)\<rparr>)"
proof -
  have inv: "dict_inv (w_dict w)" using assms(1) by (simp add: table_ok_def)
  have c: "complete_disk dd" if "(k', dd) \<in> set (disks (w_dict w))" for k' dd
    using assms(1) that by (auto simp: table_ok_def)
  have "lookup_disk (w_dict w) k = Some dd" if "(k, dd) \<in> set (disks (w_dict w))" for dd
    using that inv unfolding lookup_disk_def dict_inv_def by (intro map_of_is_SomeI) auto
  then have f: "complete_disk (f dd)" if "(k, dd) \<in> set (disks (w_dict w))" for dd using that c assms(3) by blast
  have "\<forall>(k', dd) \<in> set (disks (modify_disk k f (w_dict w))). complete_disk dd"
    by (auto simp: modify_disk_def dest: c f)
  with assms(1) modify_inv[OF inv assms(2)] show ?thesis by (simp add: table_ok_def modify_disk_def)
qed

lemma bgctl_success:
  assumes "handle_bgctl_command usage mode lo hi split buf prog mem acc child d = Inr (EXIT_SUCCESS, argv, call, out)"
  shows "\<exists>dd. lookup_disk d (argv ! 1) = Some dd \<and> target_host (proxy dd) \<noteq> None"
  using assms by (auto simp: handle_bgctl_command_def EXIT_SUCCESS_def bindE_eq_Inr get_disk_data_for_def copy_disk_data_def Let_def
      split: option.splits if_splits)

lemma switch_keeps: "table_ok n w \<Longrightarrow> table_ok n (w\<lparr>w_dict := mark_proxy_mode_ended k (w_dict w)\<rparr>)"
  unfolding mark_proxy_mode_ended_def by (rule modify_keeps) (auto simp: complete_disk_def NOT_PROXIED_def)

lemma reconnect_keeps:
  "table_ok n w \<Longrightarrow> \<exists>dd. lookup_disk (w_dict w) k = Some dd \<and> target_host (proxy dd) \<noteq> None \<Longrightarrow>
   table_ok n (w\<lparr>w_dict := update_proxy_settings k h p x (w_dict w)\<rparr>)"
  unfolding update_proxy_settings_def by (rule modify_keeps) (auto simp: complete_disk_def Let_def)

lemma bgctl_keeps:
  assumes "table_ok n w" and "bgctl_command e usage prog mode lo hi buf after w = Inr (r, w')"
    and "\<And>f argv. after = Some f \<Longrightarrow> \<exists>dd. lookup_disk (w_dict w) (argv ! 1) = Some dd \<and> target_host (proxy dd) \<noteq> None \<Longrightarrow>
      table_ok n (w\<lparr>w_dict := f argv (w_dict w)\<rparr>)"
  shows "table_ok n w'"
proof -
  obtain code argv call out where h: "handle_bgctl_command usage mode lo hi (we_split e) buf prog (we_mem e) (we_access e) (we_child e) (w_dict w) = Inr (code, argv, call, out)"
    using assms(2) by (auto simp: bgctl_command_def bindE_eq_Inr)
  show ?thesis
  proof (cases "code = EXIT_SUCCESS \<and> after \<noteq> None")
    case True
    then obtain f where f: "after = Some f" by blast
    have "auto_save e (w\<lparr>w_dict := f argv (w_dict w)\<rparr>) = Inr w'" using assms(2) h True f by (auto simp: bgctl_command_def bindE_eq_Inr)
    from save_keeps(1)[OF this] assms(3)[OF f bgctl_success] h True show ?thesis by (simp add: table_ok_def)
  next
    case False
    with assms(1,2) h show ?thesis by (auto simp: bgctl_command_def split: option.splits if_splits)
  qed
qed

lemma table_ok_mono: "table_ok n w \<Longrightarrow> n \<le> m \<Longrightarrow> table_ok m w"
  by (auto simp: table_ok_def)

lemma dict_ok_mono: "dict_ok n d \<Longrightarrow> n \<le> m \<Longrightarrow> dict_ok m d"
  unfolding dict_ok_def by (rule table_ok_mono)

lemmas del_commands = del_diskimg_by_file_def del_diskimg_by_exportname_def

lemma del_index_keeps:
  assumes "table_ok n w" and "del_command e (del_diskimg_by_index i (w_dict w)) msg w = Inr (r, w')"
  shows "table_ok n w'"
proof (cases "i - 1 \<ge> 0")
  case True
  with assms show ?thesis unfolding del_diskimg_by_index_def by (simp add: del_keeps)
next
  case False
  with assms show ?thesis by (simp add: del_diskimg_by_index_def del_command_def)
qed

lemma command_keeps:
  assumes "table_ok n w" and "n < 4294967295" and "filemgr_command help e prog buf cmd arg w = Inr (r, w')"
  shows "table_ok (Suc n) w'"
proof -
  have S: "table_ok (Suc n) w''" if "table_ok n w''" for w'' using that by (rule table_ok_mono) simp
  have target: "complete_disk \<lparr>local_exportname = a, disk_file_name = b, dd_index = 0, proxy = NOT_PROXIED\<rparr>" for a b
    by (simp add: complete_disk_def NOT_PROXIED_def)
  have proxied: "complete_disk \<lparr>local_exportname = a, disk_file_name = b, dd_index = 0, proxy =
      \<lparr>target_host = Some h, target_port = Some p, bitmap_image = Some bi, control_socket_path = Some c, target_exportname = x\<rparr>\<rparr>" for a b h p bi c x
    by (simp add: complete_disk_def)
  have save: "table_ok n w''" if "perform_save e w = Inr (ok, w'')" for ok w''
    using assms(1) save_keeps(2)[OF that] by (simp add: table_ok_def)
  note c = assms(3)[unfolded filemgr_command_def]
  note del = del_keeps[OF assms(1)] and bgctl = S[OF bgctl_keeps[OF assms(1)]]
  consider (add) "cmd = ''add'' \<or> cmd = ''add-target''" | (proxy) "cmd = ''add-proxy''" | (idx) "cmd = ''del''" | (f) "cmd = ''del-file''"
    | (x) "cmd = ''del-exportname''" | (switch) "cmd = ''bgctl-switch''" | (rc) "cmd = ''bgctl-reconnect''"
    | (bg) "cmd = ''bgctl-query'' \<or> cmd = ''bgctl-cache-all''" | (save) "cmd = ''save''"
    | (other) "cmd \<notin> {''add'', ''add-target'', ''add-proxy'', ''del'', ''del-file'', ''del-exportname'', ''bgctl-switch'', ''bgctl-reconnect'', ''bgctl-query'', ''bgctl-cache-all'', ''save''}"
    unfolding insert_iff empty_iff by argo
  then show ?thesis
  proof cases
    case add
    with c assms(1) show ?thesis by (auto split: option.splits intro: S add_keeps[OF assms(1,2) _ target])
  next
    case proxy
    with c assms(1) show ?thesis by (auto split: option.splits intro: S add_keeps[OF assms(1,2) _ proxied])
  next
    case idx
    with c assms(1) show ?thesis by (auto intro: S del_index_keeps)
  next
    case f
    with c show ?thesis by (auto simp: del_commands intro: S del)
  next
    case x
    with c show ?thesis by (auto simp: del_commands intro: S del)
  next
    case switch
    with c show ?thesis by simp (erule bgctl, use switch_keeps[OF assms(1)] in blast)
  next
    case rc
    with c show ?thesis by simp (erule bgctl, auto intro!: reconnect_keeps[OF assms(1)])
  next
    case bg
    with c show ?thesis by (elim disjE) (simp, erule bgctl, simp)+
  next
    case save
    with c \<open>\<And>w'' ok. perform_save e w = Inr (ok, w'') \<Longrightarrow> table_ok n w''\<close> show ?thesis by (auto simp: bindE_eq_Inr intro: S)
  next
    case other
    then have "w' = w" using c by (simp split: if_splits)
    with assms(1) show ?thesis by (simp add: S)
  qed
qed

lemma loop_keeps:
  "table_ok n w \<Longrightarrow> n + length bufs < 4294967296 \<Longrightarrow> filemgr_loop help e prog bufs arg w = Inr (rs, w') \<Longrightarrow> table_ok (n + length bufs) w'"
proof (induction bufs arbitrary: n arg w rs)
  case (Cons buf bufs)
  show ?case
  proof (cases "scan_command buf arg")
    case None
    with Cons.prems Cons.IH[of "Suc n" w arg rs] table_ok_mono[of n w "Suc n"] show ?thesis by simp
  next
    case (Some ca)
    obtain cmd arg' where ca: "ca = (cmd, arg')" by (cases ca)
    with Some Cons.prems(3) obtain r w1 where c: "filemgr_command help e prog buf cmd arg' w = Inr (r, w1)" by (auto simp: bindE_eq_Inr)
    have k: "table_ok (Suc n) w1" using Cons.prems(1,2) c by (intro command_keeps) auto
    show ?thesis
    proof (cases r)
      case (Reported code out)
      with Some ca c Cons.prems(3) obtain rs' arg'' where "filemgr_loop help e prog bufs arg'' w1 = Inr (rs', w')" by (auto simp: bindE_eq_Inr)
      with Cons.IH[OF k] Cons.prems(2) show ?thesis by simp
    qed (use Some ca c Cons.prems(3) table_ok_mono[OF k] in auto)
  qed
qed simp

text \<open>An environment for examples, with a splitter that behaves as \<open>g_strsplit\<close> does at single spaces.\<close>

fun split_words :: "nat \<Rightarrow> string \<Rightarrow> string \<Rightarrow> string list" where
  "split_words n acc [] = [rev acc]"
| "split_words n acc (c # cs) = (if c = CHR '' '' \<and> n > 1 then rev acc # split_words (n - 1) [] cs else split_words n (c # acc) cs)"

definition example_env :: wrapper_env where
  "example_env = \<lparr>we_split = (\<lambda>s n. if s = [] then [] else split_words n [] s), we_can_open = (\<lambda>_. True), we_mem = True, we_order = map snd, we_dumps = (\<lambda>_. []),
     we_utf8 = (\<lambda>_. True), we_db = \<lparr>db_mkdir = None, db_open = None, db_fstat = True, db_regular = True, db_nlink = 1, db_truncate = True, db_write = None\<rparr>,
     we_access = (\<lambda>_. True), we_child = Some (Exited 0)\<rparr>"

section \<open>Arguments of the server\<close>

lemma exec_args_fit: "length (exec_xnbd_server params fd_num dd) \<le> 18"
  by (simp add: exec_xnbd_server_def opt_arg_def Let_def split: option.splits)

section \<open>Calls of xnbd-bgctl\<close>

text \<open>
  C33. With an export of a running proxy, the commands \<open>bgctl-query\<close>, \<open>bgctl-switch\<close> and \<open>bgctl-cache-all\<close>, which take
  exactly the export name, take that name for the optional name of the remote export too: six pointers are stored
  in an array of five, which \<open>handle_bgctl_command\<close> faults on. \<open>bgctl-reconnect\<close> stores as many as the array has.
\<close>

theorem bgctl_query_overruns:
  assumes "we_split e (chomp buf) 3 = [cmd, arg]" and "lookup_disk (w_dict w) (decode_percent_encoding arg) = Some dd"
    and "target_host (proxy dd) \<noteq> None" and "we_mem e" and "we_access e (str (control_socket_path (proxy dd)))"
    and "cmd = ''bgctl-query'' \<or> cmd = ''bgctl-switch'' \<or> cmd = ''bgctl-cache-all''"
  shows "filemgr_command help e prog buf cmd arg' w = Inl Segv"
proof -
  have "handle_bgctl_command usage mode 2 2 (we_split e) buf prog (we_mem e) (we_access e) child (w_dict w) = Inl Segv" for usage mode child
    using assms(1-5) by (simp add: handle_bgctl_command_def extract_decode_check_usage_def get_disk_data_for_def copy_disk_data_def bgctl_argv_def bgctl_argv_size_def
        numeral_2_eq_2 numeral_3_eq_3)
  then have "bgctl_command e usage prog mode 2 2 buf after w = Inl Segv" for usage mode after
    by (simp add: bgctl_command_def)
  with assms(6) show ?thesis by (elim disjE) (simp_all add: filemgr_command_def)
qed

theorem bgctl_query_overruns_witness:
  "filemgr_command [] example_env ''xnbd-bgctl'' ''bgctl-query a'' ''bgctl-query'' ''a''
     \<lparr>w_dict = \<lparr>disks = [(''a'', \<lparr>local_exportname = ''a'', disk_file_name = ''/i'', dd_index = 0, proxy =
        \<lparr>target_host = Some ''h'', target_port = Some ''1'', bitmap_image = Some ''/b'', control_socket_path = Some ''/c'', target_exportname = None\<rparr>\<rparr>)],
        images_added_ever = 1\<rparr>, w_file = None\<rparr> = Inl Segv"
  by (rule bgctl_query_overruns[where arg = "''a''"], (simp add: example_env_def chomp_def lookup_disk_def decode_percent_encoding_def)+)

lemma bgctl_reconnect_fits:
  assumes "length argv = 4 \<or> length argv = 5"
  shows "int (length (bgctl_argv prog mode socket argv 5)) = bgctl_argv_size (length argv) 5"
  using assms by (auto simp: bgctl_argv_def bgctl_argv_size_def)

text \<open>A \<open>del\<close> without a number deletes by the number of the line before.\<close>

lemma del_takes_stale_argument: "scan_command ''del'' old = Some (''del'', old)"
  by (simp add: scan_command_def next_word_def is_space_def Let_def)

end
