(* ===== verification/Wrapper_Main.thy ===== *)
theory Wrapper_Main
  imports Wrapper_Props
begin

text \<open>
  The start of \<open>xnbd-wrapper\<close> (\<open>main\<close> of \<open>xnbd_wrapper.c\<close>): the options, the check of the programs it runs, the database and the
  listening sockets; the table of exports is consistent from the start.
\<close>

section \<open>Options\<close>

record wrapper_opts =
  wo_dict :: disk_dict
  wo_laddr :: "string option"
  wo_port :: "string option"
  wo_ctl_path :: "string option"
  wo_server_target :: "string option"
  wo_readonly :: bool
  wo_daemonize :: bool
  wo_syslog :: bool
  wo_logpath :: "string option"
  wo_dbpath :: string
  wo_server_command :: string
  wo_bgctl_command :: string
  wo_que :: "string option"
  wo_buf :: "string option"

definition wrapper_defaults :: wrapper_opts where
  "wrapper_defaults =
     \<lparr>wo_dict = \<lparr>disks = [], images_added_ever = 0\<rparr>, wo_laddr = None, wo_port = None, wo_ctl_path = None, wo_server_target = None, wo_readonly = False,
      wo_daemonize = False, wo_syslog = False, wo_logpath = None, wo_dbpath = ''/var/lib/xnbd/xnbd.state'', wo_server_command = ''xnbd-server'',
      wo_bgctl_command = ''xnbd-bgctl'', wo_que = None, wo_buf = None\<rparr>"

text \<open>What \<open>getopt_long\<close> returns, with \<open>optarg\<close>; an image that cannot be added is only warned about.\<close>

definition wrapper_option :: "(string \<Rightarrow> bool) \<Rightarrow> bool \<Rightarrow> char \<times> string \<Rightarrow> wrapper_opts \<Rightarrow> stop + wrapper_opts" where
  "wrapper_option can_open mem = (\<lambda>(ch, optarg) os.
     if ch = CHR ''L'' then Inr (os\<lparr>wo_logpath := Some optarg\<rparr>)
     else if ch = CHR ''j'' then Inr (os\<lparr>wo_dbpath := optarg\<rparr>)
     else if ch = CHR ''c'' then Inr (os\<lparr>wo_server_target := Some ''--cow-target''\<rparr>)
     else if ch = CHR ''r'' then Inr (os\<lparr>wo_readonly := True\<rparr>)
     else if ch = CHR ''d'' then Inr (os\<lparr>wo_daemonize := True\<rparr>)
     else if ch = CHR ''l'' then Inr (os\<lparr>wo_laddr := Some optarg\<rparr>)
     else if ch = CHR ''p'' then Inr (os\<lparr>wo_port := Some optarg\<rparr>)
     else if ch = CHR ''f'' then
       bindE (create_disk_data mem optarg optarg NOT_PROXIED) (\<lambda>r.
         case r of None \<Rightarrow> Inr os | Some dd \<Rightarrow> Inr (os\<lparr>wo_dict := snd (add_diskimg can_open dd (wo_dict os))\<rparr>))
     else if ch = CHR ''b'' then Inr (os\<lparr>wo_server_command := optarg\<rparr>)
     else if ch = CHR ''t'' then Inr (os\<lparr>wo_bgctl_command := optarg\<rparr>)
     else if ch = CHR ''s'' then Inr (os\<lparr>wo_ctl_path := Some optarg\<rparr>)
     else if ch = CHR ''S'' then Inr (os\<lparr>wo_syslog := True\<rparr>)
     else if ch = CHR ''Q'' then Inr (os\<lparr>wo_que := Some optarg\<rparr>)
     else if ch = CHR ''B'' then Inr (os\<lparr>wo_buf := Some optarg\<rparr>)
     else if ch = CHR ''h'' then Inl (Exit 0)
     else Inl (Exit 1))"

definition wrapper_exec_params :: "wrapper_opts \<Rightarrow> exec_params" where
  "wrapper_exec_params os =
     \<lparr>binpath = wo_server_command os, target_mode = (case wo_server_target os of None \<Rightarrow> ''--target'' | Some t \<Rightarrow> t), ep_readonly = wo_readonly os,
      ep_syslog = (wo_syslog os \<or> wo_daemonize os \<and> wo_logpath os = None), max_que_size_str = wo_que os, max_buf_size_str = wo_buf os\<rparr>"

section \<open>Programs and sockets\<close>

text \<open>How \<open>/usr/bin/which\<close> ended; \<^const>\<open>None\<close>: \<open>waitpid\<close> failed.\<close>

definition command_available :: "child_end option \<Rightarrow> stop + bool" where
  "command_available c =
     (case c of None \<Rightarrow> Inl (Err ''waitpid failed'') | Some (Exited n) \<Rightarrow> Inr (n mod 256 = 0) | Some (Signaled _) \<Rightarrow> Inl (Assert ''WIFEXITED(status)''))"

text \<open>The result of \<open>stat\<close> is compared with 1, which it never is.\<close>

definition ensure_command_available :: "child_end option \<Rightarrow> int \<Rightarrow> bool \<Rightarrow> string \<Rightarrow> stop + unit" where
  "ensure_command_available which stat_res access_ok command =
     bindE (command_available which) (\<lambda>ok.
       if ok then Inr ()
       else if CHR ''/'' \<in> set command then
         (if stat_res = 1 then Inl (Err ''Cannot access file'')
          else if \<not> access_ok then Inl (Err ''Will not be able to execute file'') else Inr ())
       else Inl (Err ''Command not found''))"

text \<open>
  The socket for clients: the first address for which \<open>socket\<close> works (\<^const>\<open>Some\<close> its descriptor) is taken. The socket for control
  connections: the path is copied into the 108 bytes of \<open>sun_path\<close>.
\<close>

fun first_socket :: "nat option list \<Rightarrow> nat option" where
  "first_socket [] = None"
| "first_socket (Some fd # fds) = Some fd"
| "first_socket (None # fds) = first_socket fds"

definition make_tcp_sock :: "bool \<Rightarrow> nat option list \<Rightarrow> bool \<Rightarrow> bool \<Rightarrow> bool \<Rightarrow> int" where
  "make_tcp_sock getaddrinfo_ok sockets setsockopt_ok bind_ok listen_ok =
     (if \<not> getaddrinfo_ok then -1
      else case first_socket sockets of
        None \<Rightarrow> -1
      | Some fd \<Rightarrow> if \<not> setsockopt_ok \<or> \<not> bind_ok \<or> \<not> listen_ok then -1 else int fd)"

definition make_unix_sock :: "nat option \<Rightarrow> bool \<Rightarrow> bool \<Rightarrow> string \<Rightarrow> stop + int" where
  "make_unix_sock socket_fd bind_ok listen_ok uxsock_path =
     (case socket_fd of
        None \<Rightarrow> Inr (-1)
      | Some fd \<Rightarrow>
          if length uxsock_path \<ge> 108 then Inl Segv
          else if \<not> bind_ok then Inr (-2) else if \<not> listen_ok then Inr (-3) else Inr (int fd))"

section \<open>The start\<close>

record start_env =
  st_which :: "string \<Rightarrow> child_end option"
  st_access :: "string \<Rightarrow> bool"
  st_stat :: "string \<Rightarrow> int"
  st_load :: load_env
  st_daemon :: bool
  st_tcp :: int
  st_unix :: "string \<Rightarrow> stop + int"
  st_unlink :: bool
  st_rename :: bool

text \<open>
  \<open>main\<close> up to its loop: the options, the programs, the database (saved anew when images were skipped), the sockets.
\<close>

definition wrapper_init ::
  "wrapper_env \<Rightarrow> (string \<Rightarrow> json option) \<Rightarrow> start_env \<Rightarrow> (char \<times> string) list \<Rightarrow> string option \<Rightarrow> string \<Rightarrow> stop + exec_params \<times> wrapper" where
  "wrapper_init e json_loadb st opts prev file =
     bindE (foldE (wrapper_option (we_can_open e) (we_mem e)) opts wrapper_defaults) (\<lambda>os.
     bindE (foldE (\<lambda>c _. ensure_command_available (st_which st c) (st_stat st c) (st_access st c) c) [''which'', wo_bgctl_command os, wo_server_command os] ()) (\<lambda>_.
     bindE (load_database_file_or_abort json_loadb (we_can_open e) (we_mem e) (st_load st) file (wo_dict os)) (\<lambda>(d, skipped).
     bindE (if skipped = 0 then Inr (prev, if ld_open (st_load st) = None then Some file else None)
            else backup_database (we_dumps e) (we_utf8 e) (we_db e) (st_unlink st) (st_rename st) (we_order e (disks d)) prev file) (\<lambda>(_, file').
       if wo_daemonize os \<and> \<not> st_daemon st then Inl (Err ''daemon'')
       else if st_tcp st = -1 then Inl (Err ''make_tcp_sock'')
       else bindE (st_unix st (case wo_ctl_path os of None \<Rightarrow> ''/var/run/xnbd-wrapper.ctl'' | Some p \<Rightarrow> p)) (\<lambda>ux.
         if ux < 0 then Inl (Err ''make_unix_sock'')
         else Inr (wrapper_exec_params os, \<lparr>w_dict = d, w_file = file'\<rparr>))))))"

section \<open>The table is consistent from the start\<close>

lemma complete_target: "complete_disk \<lparr>local_exportname = a, disk_file_name = b, dd_index = i, proxy = NOT_PROXIED\<rparr>"
  by (simp add: complete_disk_def NOT_PROXIED_def)

lemma option_keeps:
  assumes "dict_ok n (wo_dict os)" and "n < 4294967295" and "wrapper_option can_open mem x os = Inr os'"
  shows "dict_ok (Suc n) (wo_dict os')"
proof (cases "fst x = CHR ''f''")
  case True
  with assms(3) have "wo_dict os' = snd (add_diskimg can_open \<lparr>local_exportname = snd x, disk_file_name = snd x, dd_index = 0, proxy = NOT_PROXIED\<rparr> (wo_dict os))"
    by (auto simp: wrapper_option_def create_disk_data_def copy_disk_data_def split_def split: if_splits)
  with add_dict_ok[OF assms(1,2) complete_target] show ?thesis by simp
next
  case False
  with assms(3) have "wo_dict os' = wo_dict os" by (auto simp: wrapper_option_def split_def split: if_splits)
  with dict_ok_mono[OF assms(1)] show ?thesis by simp
qed

lemma options_keep:
  "dict_ok n (wo_dict os) \<Longrightarrow> n + length opts < 4294967296 \<Longrightarrow> foldE (wrapper_option can_open mem) opts os = Inr os' \<Longrightarrow>
   dict_ok (n + length opts) (wo_dict os')"
proof (induction opts arbitrary: n os)
  case (Cons x opts)
  then obtain os1 where "wrapper_option can_open mem x os = Inr os1" "foldE (wrapper_option can_open mem) opts os1 = Inr os'"
    by (auto simp: bindE_eq_Inr)
  with Cons.IH[of "Suc n" os1] option_keeps[of n os can_open mem x os1] Cons.prems show ?case by simp
qed simp

lemma parse_complete:
  "parse_image name j = Some (n, p, ps) \<Longrightarrow> complete_disk \<lparr>local_exportname = n, disk_file_name = p, dd_index = i, proxy = ps\<rparr>"
  by (auto simp: parse_image_def complete_disk_def NOT_PROXIED_def Let_def split: json.splits option.splits if_splits)

lemma load_images_keep:
  "dict_ok n d \<Longrightarrow> n + length ms < 4294967296 \<Longrightarrow> load_images can_open mem ms (d, a, s) = Inr (ok, d', a', s') \<Longrightarrow> dict_ok (n + length ms) d'"
proof (induction ms arbitrary: n d a s)
  case (Cons m ms)
  obtain name j where m: "m = (name, j)" by (cases m)
  show ?case
  proof (cases "parse_image name j")
    case None
    with Cons.prems m dict_ok_mono[of n d "n + length (m # ms)"] show ?thesis by simp
  next
    case (Some q)
    obtain nm p ps where q: "q = (nm, p, ps)" by (cases q)
    let ?dd = "\<lparr>local_exportname = nm, disk_file_name = p, dd_index = 0, proxy = ps\<rparr> :: t_disk_data"
    let ?d = "snd (add_diskimg can_open ?dd d)"
    from Cons.prems(3) Some q m obtain a1 s1 where "load_images can_open mem ms (?d, a1, s1) = Inr (ok, d', a', s')"
      by (auto simp: create_disk_data_def copy_disk_data_def split: if_splits prod.splits)
    moreover have "dict_ok (Suc n) ?d" using Cons.prems(1,2) parse_complete Some q by (intro add_dict_ok) auto
    ultimately show ?thesis using Cons.IH[of "Suc n" ?d a1 s1] Cons.prems(2) by simp
  qed
qed simp

definition image_count :: "json option \<Rightarrow> nat" where
  "image_count j = (case j of Some (JObject ms) \<Rightarrow> (case json_get ms ''images'' of Some (JObject xs) \<Rightarrow> length xs | _ \<Rightarrow> 0) | _ \<Rightarrow> 0)"

lemma load_database_keeps:
  assumes "dict_ok n d" and "n + image_count (json_loadb file) < 4294967296" and "load_database_file_or_abort json_loadb can_open mem env file d = Inr (d', skipped)"
  shows "dict_ok (n + image_count (json_loadb file)) d'"
proof (cases "d' = d")
  case True
  then show ?thesis using dict_ok_mono[OF assms(1)] by simp
next
  case False
  then obtain root added where r: "json_loadb file = Some root" "load_database_json can_open mem root d = Inr (True, d', added, skipped)"
    using assms(3) by (auto simp: load_database_file_or_abort_def bindE_eq_Inr split: option.splits if_splits)
  with False obtain ms xs where "root = JObject ms" "json_get ms ''images'' = Some (JObject xs)" "load_images can_open mem xs (d, 0, 0) = Inr (True, d', added, skipped)"
    by (auto simp: load_database_json_def split: json.splits option.splits if_splits)
  with load_images_keep[OF assms(1), of xs] assms(2) r(1) show ?thesis by (simp add: image_count_def)
qed


definition example_start :: start_env where
  "example_start = \<lparr>st_which = (\<lambda>_. Some (Exited 0)), st_access = (\<lambda>_. True), st_stat = (\<lambda>_. 0),
     st_load = \<lparr>ld_open = None, ld_fstat = True, ld_regular = True, ld_nlink = 1, ld_read = True\<rparr>, st_daemon = True, st_tcp = 5,
     st_unix = make_unix_sock (Some 6) True True, st_unlink = True, st_rename = True\<rparr>"

definition example_db :: json where
  "example_db = JObject [(''version'', JInteger 2), (''images'', JObject [(''b'', JObject [(''mode'', JString ''target''), (''image_path'', JString ''/b'')])])]"


end
