(* ===== verification/Fd_Table.thy ===== *)
theory Fd_Table
  imports Prelude
begin

text \<open>
  The descriptors of the master process: which object an open descriptor refers to. A new descriptor is the
  lowest that is not in use, and a duplicate refers to the same object, so that closing one leaves the other open.
\<close>

text \<open>A client's connection, the two ends of the pipe to a worker, a listening socket, the master's end of the socket pair to the proxy, and the disk.\<close>

datatype kobj = Conn nat | Pipe_write nat | Pipe_read nat | Listener | Proxy_sock | Disk_file

type_synonym fdtab = "(nat \<times> kobj) list"

definition fd_look :: "fdtab \<Rightarrow> nat \<Rightarrow> kobj option" where
  "fd_look t fd = map_of t fd"

definition fd_fresh :: "fdtab \<Rightarrow> nat" where
  "fd_fresh t = hd (filter (\<lambda>fd. fd_look t fd = None) [0..<Suc (length t)])"

definition fd_set :: "nat \<Rightarrow> kobj \<Rightarrow> fdtab \<Rightarrow> fdtab" where
  "fd_set fd k t = (fd, k) # t"

definition sys_close :: "nat \<Rightarrow> fdtab \<Rightarrow> fdtab" where
  "sys_close fd t = filter (\<lambda>(f, _). f \<noteq> fd) t"

locale descriptors =
  fixes look :: "'t \<Rightarrow> nat \<Rightarrow> 'k option" and fresh :: "'t \<Rightarrow> nat" and put :: "nat \<Rightarrow> 'k \<Rightarrow> 't \<Rightarrow> 't" and close :: "nat \<Rightarrow> 't \<Rightarrow> 't"
  assumes look_fresh: "look t (fresh t) = None"
    and look_put: "look (put fd k t) fd' = (if fd' = fd then Some k else look t fd')"
    and look_close: "look (close fd t) fd' = (if fd' = fd then None else look t fd')"
begin

definition dup :: "nat \<Rightarrow> 't \<Rightarrow> (nat \<times> 't) option" where
  "dup fd t = (case look t fd of None \<Rightarrow> None | Some k \<Rightarrow> Some (fresh t, put (fresh t) k t))"

lemma fresh_unused: "look t fd = Some k \<Longrightarrow> fd \<noteq> fresh t"
  using look_fresh[of t] by auto

lemma put_keeps: "look t fd = Some k \<Longrightarrow> look (put (fresh t) k' t) fd = Some k"
  using fresh_unused by (simp add: look_put)

lemma dup_survives_close:
  assumes "dup fd t = Some (fd', t')"
  shows "look (close fd t') fd' = look t fd" "fd' \<noteq> fd"
proof -
  from assms obtain k where k: "look t fd = Some k" "fd' = fresh t" "t' = put (fresh t) k t" by (auto simp: dup_def split: option.splits)
  then show "fd' \<noteq> fd" using fresh_unused[OF k(1)] by simp
  then show "look (close fd t') fd' = look t fd" using k by (simp add: look_close look_put)
qed

end

lemma fd_fresh_unused: "fd_look t (fd_fresh t) = None"
proof -
  have "\<exists>fd \<in> {0..<Suc (length t)}. fd_look t fd = None"
  proof (rule ccontr)
    assume "\<not> ?thesis"
    then have "{0..<Suc (length t)} \<subseteq> fst ` set t" by (auto simp: fd_look_def map_of_eq_None_iff)
    then have "card {0..<Suc (length t)} \<le> card (fst ` set t)" by (intro card_mono) auto
    also have "\<dots> \<le> length t" using card_length[of "map fst t"] by simp
    finally show False by simp
  qed
  then have "filter (\<lambda>fd. fd_look t fd = None) [0..<Suc (length t)] \<noteq> []" unfolding filter_empty_conv set_upt by blast
  then have "fd_fresh t \<in> set (filter (\<lambda>fd. fd_look t fd = None) [0..<Suc (length t)])" unfolding fd_fresh_def by (rule hd_in_set)
  then show ?thesis by (simp only: set_filter mem_Collect_eq)
qed

interpretation fdt: descriptors fd_look fd_fresh fd_set sys_close
proof (unfold_locales, goal_cases)
  case (1 t)
  show ?case by (rule fd_fresh_unused)
next
  case (2 fd k t fd')
  show ?case by (simp add: fd_look_def fd_set_def)
next
  case (3 fd t fd')
  show ?case unfolding fd_look_def sys_close_def by (induction t) auto
qed

lemmas fd_simps = fdt.look_put fdt.look_close fdt.look_fresh

text \<open>The system calls that make descriptors: \<open>accept\<close> and \<open>open\<close>, \<open>dup\<close>, and \<open>pipe\<close>, whose reading end comes first.\<close>

definition sys_new :: "kobj \<Rightarrow> fdtab \<Rightarrow> nat \<times> fdtab" where
  "sys_new k t = (fd_fresh t, fd_set (fd_fresh t) k t)"

definition sys_dup :: "nat \<Rightarrow> fdtab \<Rightarrow> (nat \<times> fdtab) option" where
  "sys_dup fd t = (case fd_look t fd of None \<Rightarrow> None | Some k \<Rightarrow> Some (sys_new k t))"

lemma sys_dup_eq: "sys_dup = fdt.dup"
  by (intro ext) (simp add: sys_dup_def fdt.dup_def sys_new_def split: option.splits)

end
