(* ===== verification/Wrapper_Loop.thy ===== *)
theory Wrapper_Loop
  imports Wrapper_Main Fd_Table
begin

text \<open>
  The main loop of \<open>xnbd-wrapper\<close> (\<open>main\<close> of \<open>xnbd_wrapper.c\<close>) with the threads of its control connections: how many processes and threads
  there can be, and what closing a descriptor twice does.
\<close>

section \<open>Events and threads\<close>

text \<open>
  A thread is started with the descriptor of its connection; then it serves commands, during which it may wait for
  \<open>xnbd-bgctl\<close>, or refuses to; then it has closed the stream but not yet the descriptor.
\<close>

datatype phase = Starting | Serving bool | Refusing | Half_closed

record wloop =
  wl_wrapper :: wrapper
  wl_procs :: wproc
  wl_threads :: "(phase \<times> nat) list"
  wl_fds :: fdtab

text \<open>
  The events of \<open>epoll_wait\<close>: a signal, a control connection, a client. \<open>accept\<close>, the allocation, \<open>pthread_create\<close> and \<open>fork\<close> may fail. A
  connection is named by a number.
\<close>

datatype wevent = Sig_term | Sig_chld "nat set" | Ctl_conn "nat option" bool bool | Tcp_conn "nat option" "nat option"

definition main_event :: "wrapper_env \<Rightarrow> wevent \<Rightarrow> wloop \<Rightarrow> stop + wloop" where
  "main_event e ev s =
     (case ev of
        Sig_term \<Rightarrow> bindE (auto_save e (wl_wrapper s)) (\<lambda>_. Inl (Exit 0))
      | Sig_chld gone \<Rightarrow> Inr (s\<lparr>wl_procs := reap_servers gone (wl_procs s)\<rparr>)
      | Ctl_conn conn alloc_ok thread_ok \<Rightarrow>
          (case conn of
             None \<Rightarrow> Inr s
           | Some c \<Rightarrow>
               (case sys_new (Conn c) (wl_fds s) of (conn_uxsock, t) \<Rightarrow>
                  Inr (s\<lparr>wl_fds := t, wl_threads := wl_threads s @ (if alloc_ok \<and> thread_ok then [(Starting, conn_uxsock)] else [])\<rparr>)))
      | Tcp_conn conn pid \<Rightarrow>
          (case conn of
             None \<Rightarrow> Inr s
           | Some c \<Rightarrow>
               (case sys_new (Conn c) (wl_fds s) of (conn_sockfd, t) \<Rightarrow>
                  if child_process_count (wl_procs s) \<ge> MAX_NSRVS then Inr (s\<lparr>wl_fds := sys_close conn_sockfd t\<rparr>)
                  else case Option.bind pid (\<lambda>pid. tcp_accept pid (wl_procs s)) of
                    None \<Rightarrow> Inl (Err ''fork'')
                  | Some p \<Rightarrow> Inr (s\<lparr>wl_procs := p, wl_fds := sys_close conn_sockfd t\<rparr>))))"

text \<open>\<open>start_filemgr_thread\<close>: its start, a call of \<open>xnbd-bgctl\<close>, \<open>fclose\<close> and the end with \<open>close\<close> on the same descriptor.\<close>

definition set_phase :: "nat \<Rightarrow> phase \<Rightarrow> wloop \<Rightarrow> wloop" where
  "set_phase i ph s = s\<lparr>wl_threads := (wl_threads s)[i := (ph, snd (wl_threads s ! i))]\<rparr>"

definition thread_begin :: "nat \<Rightarrow> wloop \<Rightarrow> wloop" where
  "thread_begin i s =
     (case count_mgr_threads 1 (wl_procs s) of (n, p) \<Rightarrow> set_phase i (if n \<le> MAX_CTL_CONNS then Serving False else Refusing) (s\<lparr>wl_procs := p\<rparr>))"

definition thread_fork :: "nat \<Rightarrow> wloop \<Rightarrow> wloop" where
  "thread_fork i s = set_phase i (Serving True) (s\<lparr>wl_procs := bgctl_forked (wl_procs s)\<rparr>)"

definition thread_wait :: "nat \<Rightarrow> wloop \<Rightarrow> wloop" where
  "thread_wait i s = set_phase i (Serving False) (s\<lparr>wl_procs := bgctl_waited (wl_procs s)\<rparr>)"

definition thread_fclose :: "nat \<Rightarrow> wloop \<Rightarrow> wloop" where
  "thread_fclose i s = set_phase i Half_closed (s\<lparr>wl_fds := sys_close (snd (wl_threads s ! i)) (wl_fds s)\<rparr>)"

definition thread_end :: "nat \<Rightarrow> wloop \<Rightarrow> wloop" where
  "thread_end i s =
     s\<lparr>wl_fds := sys_close (snd (wl_threads s ! i)) (wl_fds s), wl_procs := snd (count_mgr_threads (- 1) (wl_procs s)),
       wl_threads := take i (wl_threads s) @ drop (Suc i) (wl_threads s)\<rparr>"

definition in_phase :: "nat \<Rightarrow> phase \<Rightarrow> wloop \<Rightarrow> bool" where
  "in_phase i ph s \<longleftrightarrow> i < length (wl_threads s) \<and> fst (wl_threads s ! i) = ph"

text \<open>The loop and the threads run interleaved; the kernel gives a new process a number that no server has.\<close>

inductive wstep :: "wrapper_env \<Rightarrow> wloop \<Rightarrow> wloop \<Rightarrow> bool" for e where
  Main: "main_event e ev s = Inr s' \<Longrightarrow> (\<forall>conn pid. ev = Tcp_conn conn (Some pid) \<longrightarrow> pid \<notin> server_pid_set (wl_procs s)) \<Longrightarrow> wstep e s s'"
| Begin: "in_phase i Starting s \<Longrightarrow> wstep e s (thread_begin i s)"
| Fork_bgctl: "in_phase i (Serving False) s \<Longrightarrow> wstep e s (thread_fork i s)"
| Wait_bgctl: "in_phase i (Serving True) s \<Longrightarrow> wstep e s (thread_wait i s)"
| Fclose: "in_phase i (Serving False) s \<or> in_phase i Refusing s \<Longrightarrow> wstep e s (thread_fclose i s)"
| End: "in_phase i Half_closed s \<Longrightarrow> wstep e s (thread_end i s)"

definition wloop_start :: "wrapper \<Rightarrow> fdtab \<Rightarrow> wloop" where
  "wloop_start w t = \<lparr>wl_wrapper = w, wl_procs = \<lparr>child_process_count = 0, server_pid_set = {}, mgr_threads = 0\<rparr>, wl_threads = [], wl_fds = t\<rparr>"

section \<open>Bounds\<close>

definition threads_in :: "(phase \<Rightarrow> bool) \<Rightarrow> wloop \<Rightarrow> nat" where
  "threads_in P s = length (filter (\<lambda>(ph, _). P ph) (wl_threads s))"

fun serving :: "phase \<Rightarrow> bool" where
  "serving (Serving _) = True"
| "serving _ = False"

definition wloop_inv :: "wloop \<Rightarrow> bool" where
  "wloop_inv s \<longleftrightarrow> finite (server_pid_set (wl_procs s)) \<and> card (server_pid_set (wl_procs s)) \<le> 512 \<and>
     child_process_count (wl_procs s) = int (card (server_pid_set (wl_procs s))) + int (threads_in ((=) (Serving True)) s) \<and>
     mgr_threads (wl_procs s) = int (threads_in ((\<noteq>) Starting) s) \<and> threads_in serving s \<le> 8"

lemma filter_update:
  "i < length xs \<Longrightarrow> length (filter P (xs[i := x])) + (if P (xs ! i) then 1 else 0) = length (filter P xs) + (if P x then 1 else 0)"
proof -
  assume i: "i < length xs"
  then have "filter P xs = filter P (take i xs) @ (if P (xs ! i) then [xs ! i] else []) @ filter P (drop (Suc i) xs)"
    by (subst id_take_nth_drop[OF i]) simp
  moreover have "filter P (xs[i := x]) = filter P (take i xs) @ (if P x then [x] else []) @ filter P (drop (Suc i) xs)"
    using i by (simp add: upd_conv_take_nth_drop)
  ultimately show ?thesis by simp
qed

lemma filter_remove:
  "i < length xs \<Longrightarrow> length (filter P (take i xs @ drop (Suc i) xs)) + (if P (xs ! i) then 1 else 0) = length (filter P xs)"
  by (subst (3) id_take_nth_drop[of i xs]) auto

lemma set_phase_threads:
  assumes "in_phase i ph s"
  shows "threads_in P (set_phase i ph' s) + (if P ph then 1 else 0) = threads_in P s + (if P ph' then 1 else 0)"
  using filter_update[of i "wl_threads s" "\<lambda>(ph, _). P ph" "(ph', snd (wl_threads s ! i))"] assms
  by (simp add: threads_in_def set_phase_def in_phase_def case_prod_beta)

lemma remove_threads:
  assumes "in_phase i ph s"
  shows "threads_in P (thread_end i s) + (if P ph then 1 else 0) = threads_in P s"
  using filter_remove[of i "wl_threads s" "\<lambda>(ph, _). P ph"] assms by (simp add: threads_in_def thread_end_def in_phase_def case_prod_beta)

lemma threads_in_same [simp]: "threads_in P (s\<lparr>wl_procs := p\<rparr>) = threads_in P s" "threads_in P (s\<lparr>wl_fds := t\<rparr>) = threads_in P s"
  by (simp_all add: threads_in_def)

lemma in_phase_same [simp]: "in_phase i ph (s\<lparr>wl_procs := p\<rparr>) = in_phase i ph s" "in_phase i ph (s\<lparr>wl_fds := t\<rparr>) = in_phase i ph s"
  by (simp_all add: in_phase_def)

lemma set_phase_procs [simp]: "wl_procs (set_phase i ph s) = wl_procs s"
  by (simp add: set_phase_def)

lemma serving_active: "threads_in serving s \<le> threads_in ((\<noteq>) Starting) s"
  unfolding threads_in_def by (rule length_filter_conv_card[THEN ord_eq_le_trans], subst length_filter_conv_card, rule card_mono) (auto elim: serving.elims)

lemma reap_count:
  assumes "finite (server_pid_set p)"
  shows "child_process_count (reap_servers gone p) - int (card (server_pid_set (reap_servers gone p))) = child_process_count p - int (card (server_pid_set p))"
    "card (server_pid_set (reap_servers gone p)) \<le> card (server_pid_set p)"
proof -
  have "card (server_pid_set p - gone) = card (server_pid_set p) - card (server_pid_set p \<inter> gone)" using assms by (intro card_Diff_subset_Int) auto
  moreover have "card (server_pid_set p \<inter> gone) \<le> card (server_pid_set p)" using assms by (intro card_mono) auto
  ultimately show "child_process_count (reap_servers gone p) - int (card (server_pid_set (reap_servers gone p))) = child_process_count p - int (card (server_pid_set p))"
    "card (server_pid_set (reap_servers gone p)) \<le> card (server_pid_set p)" by (simp_all add: reap_servers_def)
qed

lemma main_event_inv:
  assumes "main_event e ev s = Inr s'" and "\<And>conn pid. ev = Tcp_conn conn (Some pid) \<Longrightarrow> pid \<notin> server_pid_set (wl_procs s)" and "wloop_inv s"
  shows "wloop_inv s'"
proof (cases ev)
  case Sig_term
  with assms(1) show ?thesis by (auto simp: main_event_def bindE_eq_Inr)
next
  case (Sig_chld gone)
  then have "s' = s\<lparr>wl_procs := reap_servers gone (wl_procs s)\<rparr>" using assms(1) by (simp add: main_event_def)
  moreover have "finite (server_pid_set (wl_procs s))" using assms(3) by (simp add: wloop_inv_def)
  moreover have "finite (server_pid_set (reap_servers gone p)) = finite (server_pid_set p - gone)" "mgr_threads (reap_servers gone p) = mgr_threads p" for p
    by (simp_all add: reap_servers_def)
  ultimately show ?thesis using assms(3) reap_count[of "wl_procs s" gone] by (auto simp: wloop_inv_def)
next
  case (Ctl_conn conn a b)
  have "threads_in P (s\<lparr>wl_fds := t, wl_threads := wl_threads s @ (if a \<and> b then [(Starting, fd)] else [])\<rparr>) =
      threads_in P s + (if a \<and> b \<and> P Starting then 1 else 0)" for P t fd by (simp add: threads_in_def)
  with Ctl_conn assms show ?thesis by (cases conn) (auto simp: main_event_def wloop_inv_def sys_new_def)
next
  case (Tcp_conn conn pid)
  show ?thesis
  proof (cases "conn = None \<or> child_process_count (wl_procs s) \<ge> 512")
    case True
    then show ?thesis using assms(1,3) Tcp_conn by (cases conn) (auto simp: main_event_def wloop_inv_def sys_new_def)
  next
    case False
    then obtain p where p: "pid = Some p" and s': "wl_procs s' = (wl_procs s)\<lparr>server_pid_set := insert p (server_pid_set (wl_procs s)),
        child_process_count := child_process_count (wl_procs s) + 1\<rparr>" "wl_threads s' = wl_threads s"
      using assms(1) Tcp_conn by (cases pid) (auto simp: main_event_def sys_new_def tcp_accept_def split: if_splits)
    have th: "threads_in P s' = threads_in P s" for P using s'(2) by (simp add: threads_in_def)
    have "p \<notin> server_pid_set (wl_procs s)" using assms(2) Tcp_conn p by blast
    then show ?thesis using assms(3) False s'(1) th by (auto simp: wloop_inv_def)
  qed
qed

lemma wstep_inv: "wstep e s s' \<Longrightarrow> wloop_inv s \<Longrightarrow> wloop_inv s'"
proof (induction rule: wstep.induct)
  case (Main ev s s')
  then show ?case by (blast intro: main_event_inv)
next
  case (Begin i s)
  let ?s = "s\<lparr>wl_procs := (wl_procs s)\<lparr>mgr_threads := mgr_threads (wl_procs s) + 1\<rparr>\<rparr>"
  have ph: "in_phase i Starting ?s" using Begin by simp
  have "threads_in serving s < 8" if "mgr_threads (wl_procs s) + 1 \<le> 8" using that Begin serving_active[of s] by (simp add: wloop_inv_def)
  moreover have "thread_begin i s = set_phase i (if mgr_threads (wl_procs s) + 1 \<le> 8 then Serving False else Refusing) ?s"
    by (simp add: thread_begin_def count_mgr_threads_def Let_def)
  ultimately show ?case using Begin(2) set_phase_threads[OF ph, of "(=) (Serving True)"] set_phase_threads[OF ph, of "(\<noteq>) Starting"] set_phase_threads[OF ph, of serving]
    by (auto simp: wloop_inv_def)
next
  case (Fork_bgctl i s)
  let ?s = "s\<lparr>wl_procs := bgctl_forked (wl_procs s)\<rparr>"
  have ph: "in_phase i (Serving False) ?s" using Fork_bgctl by simp
  show ?case using Fork_bgctl(2) set_phase_threads[OF ph, of "(=) (Serving True)" "Serving True"] set_phase_threads[OF ph, of "(\<noteq>) Starting" "Serving True"]
      set_phase_threads[OF ph, of serving "Serving True"] by (simp add: wloop_inv_def thread_fork_def bgctl_forked_def)
next
  case (Wait_bgctl i s)
  let ?s = "s\<lparr>wl_procs := bgctl_waited (wl_procs s)\<rparr>"
  have ph: "in_phase i (Serving True) ?s" using Wait_bgctl by simp
  show ?case using Wait_bgctl(2) set_phase_threads[OF ph, of "(=) (Serving True)" "Serving False"] set_phase_threads[OF ph, of "(\<noteq>) Starting" "Serving False"]
      set_phase_threads[OF ph, of serving "Serving False"] by (simp add: wloop_inv_def thread_wait_def bgctl_waited_def)
next
  case (Fclose i s)
  let ?s = "s\<lparr>wl_fds := sys_close (snd (wl_threads s ! i)) (wl_fds s)\<rparr>"
  obtain ph where ph: "in_phase i ph ?s" "ph = Serving False \<or> ph = Refusing" using Fclose by auto
  show ?case using Fclose(2) set_phase_threads[OF ph(1), of "(=) (Serving True)" Half_closed] set_phase_threads[OF ph(1), of "(\<noteq>) Starting" Half_closed]
      set_phase_threads[OF ph(1), of serving Half_closed] ph(2) by (auto simp: wloop_inv_def thread_fclose_def)
next
  case (End i s)
  have "wl_procs (thread_end i s) = (wl_procs s)\<lparr>mgr_threads := mgr_threads (wl_procs s) - 1\<rparr>" by (simp add: thread_end_def count_mgr_threads_def Let_def)
  then show ?case using End(2) remove_threads[OF End(1), of "(=) (Serving True)"] remove_threads[OF End(1), of "(\<noteq>) Starting"] remove_threads[OF End(1), of serving]
    by (simp add: wloop_inv_def)
qed

text \<open>
  C34. However the events of the main loop and the threads of control connections interleave, the count of child processes is the
  number of servers plus the number of threads that wait for \<open>xnbd-bgctl\<close>; there are never more than 512 servers, 8 threads that
  serve commands and 520 child processes in all.
\<close>

theorem wrapper_loop_bounded:
  assumes "(wstep e)\<^sup>*\<^sup>* (wloop_start w t) s"
  shows "child_process_count (wl_procs s) = int (card (server_pid_set (wl_procs s))) + int (threads_in ((=) (Serving True)) s) \<and>
    card (server_pid_set (wl_procs s)) \<le> 512 \<and> threads_in serving s \<le> 8 \<and> child_process_count (wl_procs s) \<le> 520"
proof -
  have "wloop_inv (wloop_start w t)" by (simp add: wloop_inv_def wloop_start_def threads_in_def)
  with assms have i: "wloop_inv s" by (induction rule: rtranclp_induct) (auto intro: wstep_inv)
  have "threads_in ((=) (Serving True)) s \<le> threads_in serving s"
    unfolding threads_in_def length_filter_conv_card by (rule card_mono) auto
  with i show ?thesis by (simp add: wloop_inv_def)
qed

lemma wsteps:
  assumes "wstep e s s1" and "(wstep e)\<^sup>*\<^sup>* s1 s2"
  shows "(wstep e)\<^sup>*\<^sup>* s s2"
  using assms by (rule converse_rtranclp_into_rtranclp)

theorem wrapper_loop_bounded_witness:
  "\<forall>e w. \<exists>s. (wstep e)\<^sup>*\<^sup>* (wloop_start w []) s \<and> server_pid_set (wl_procs s) = {11} \<and> threads_in ((=) (Serving True)) s = 1 \<and> child_process_count (wl_procs s) = 2"
proof (intro allI)
  fix e w
  let ?s0 = "wloop_start w []"
  let ?s1 = "?s0\<lparr>wl_procs := \<lparr>child_process_count = 1, server_pid_set = {11}, mgr_threads = 0\<rparr>\<rparr>"
  let ?s2 = "?s1\<lparr>wl_fds := [(0, Conn 2)], wl_threads := [(Starting, 0)]\<rparr>"
  let ?s4 = "thread_fork 0 (thread_begin 0 ?s2)"
  have "wstep e ?s0 ?s1" by (rule Main[of e "Tcp_conn (Some 1) (Some 11)"])
      (simp_all add: main_event_def wloop_start_def tcp_accept_def sys_new_def fd_fresh_def fd_look_def sys_close_def fd_set_def)
  moreover have "wstep e ?s1 ?s2" by (rule Main[of e "Ctl_conn (Some 2) True True"])
      (simp_all add: main_event_def wloop_start_def sys_new_def fd_fresh_def fd_look_def fd_set_def)
  moreover have "wstep e ?s2 (thread_begin 0 ?s2)" by (rule Begin) (simp add: in_phase_def)
  moreover have "wstep e (thread_begin 0 ?s2) ?s4"
    by (rule Fork_bgctl) (simp add: in_phase_def thread_begin_def count_mgr_threads_def set_phase_def Let_def wloop_start_def)
  ultimately have r: "(wstep e)\<^sup>*\<^sup>* ?s0 ?s4" by (blast intro: wsteps)
  have p: "server_pid_set (wl_procs ?s4) = {11}" "threads_in ((=) (Serving True)) ?s4 = 1"
    by (simp_all add: thread_fork_def bgctl_forked_def thread_begin_def count_mgr_threads_def set_phase_def Let_def wloop_start_def threads_in_def)
  show "\<exists>s. (wstep e)\<^sup>*\<^sup>* (wloop_start w []) s \<and> server_pid_set (wl_procs s) = {11} \<and> threads_in ((=) (Serving True)) s = 1 \<and>
      child_process_count (wl_procs s) = 2"
    using wrapper_loop_bounded[OF r] p r by (intro exI[of _ ?s4]) simp
qed

section \<open>Closing twice\<close>

text \<open>
  \<open>fclose\<close> has closed the descriptor when the thread closes it again: a connection that the main loop accepted in between, which
  gets the lowest free descriptor, is closed with it, and its thread is left without a connection.
\<close>

lemma second_close_drops_connection:
  assumes "in_phase 0 (Serving False) s" and "wl_threads s = [(Serving False, fd)]" and "wl_fds s = [(fd, Conn 1)]" and "fd = 0"
  shows "\<exists>s'. (wstep e)\<^sup>*\<^sup>* s s' \<and> wl_threads s' = [(Starting, fd)] \<and> fd_look (wl_fds s') fd = None"
proof -
  let ?s1 = "thread_fclose 0 s"
  let ?s2 = "?s1\<lparr>wl_fds := [(0, Conn 2)], wl_threads := [(Half_closed, 0), (Starting, 0)]\<rparr>"
  have s1: "wl_fds ?s1 = []" "wl_threads ?s1 = [(Half_closed, 0)]" using assms by (simp_all add: thread_fclose_def set_phase_def sys_close_def)
  have "wstep e s ?s1" using assms(1) by (intro Fclose) simp
  moreover have "wstep e ?s1 ?s2"
    by (rule Main[of e "Ctl_conn (Some 2) True True"]) (simp_all add: main_event_def s1 sys_new_def fd_fresh_def fd_look_def fd_set_def)
  moreover have "wstep e ?s2 (thread_end 0 ?s2)" by (rule End) (simp add: in_phase_def)
  ultimately have "(wstep e)\<^sup>*\<^sup>* s (thread_end 0 ?s2)" by (blast intro: wsteps)
  moreover have "wl_threads (thread_end 0 ?s2) = [(Starting, fd)]" "fd_look (wl_fds (thread_end 0 ?s2)) fd = None"
    using assms(4) by (simp_all add: thread_end_def fd_look_def sys_close_def)
  ultimately show ?thesis by blast
qed

end
