(* ===== verification/Cachestat.thy ===== *)
theory Cachestat
  imports Prelude
begin

text \<open>
  \<open>xnbd_cachestat.c\<close>, built with \<open>CACHESTAT_ENABLED\<close>: the counters of the proxy, one operation
  per event. The counters are \<open>unsigned long\<close> and wrap.
\<close>

record cachestat =
  cs_nblocks :: u64
  cache_odread :: u64
  cache_odwrite :: u64
  cache_bgcopy :: u64
  io_blocks :: u64
  read_blocks :: u64
  written_blocks :: u64
  cache_hit :: u64
  cache_miss :: u64

definition cachestat_cache_odread :: "cachestat \<Rightarrow> cachestat" where
  "cachestat_cache_odread c = c\<lparr>cache_odread := cache_odread c + 1\<rparr>"

definition cachestat_cache_odwrite :: "cachestat \<Rightarrow> cachestat" where
  "cachestat_cache_odwrite c = c\<lparr>cache_odwrite := cache_odwrite c + 1\<rparr>"

definition cachestat_cache_bgcopy :: "cachestat \<Rightarrow> cachestat" where
  "cachestat_cache_bgcopy c = c\<lparr>cache_bgcopy := cache_bgcopy c + 1\<rparr>"

definition cachestat_read_block :: "cachestat \<Rightarrow> cachestat" where
  "cachestat_read_block c = c\<lparr>io_blocks := io_blocks c + 1, read_blocks := read_blocks c + 1\<rparr>"

definition cachestat_write_block :: "cachestat \<Rightarrow> cachestat" where
  "cachestat_write_block c = c\<lparr>io_blocks := io_blocks c + 1, written_blocks := written_blocks c + 1\<rparr>"

definition cachestat_hit :: "cachestat \<Rightarrow> cachestat" where
  "cachestat_hit c = c\<lparr>cache_hit := cache_hit c + 1\<rparr>"

definition cachestat_miss :: "cachestat \<Rightarrow> cachestat" where
  "cachestat_miss c = c\<lparr>cache_miss := cache_miss c + 1\<rparr>"

text \<open>
  The file is truncated when it is opened and is not extended before it is mapped, so the page the
  counters are in lies behind the end of the file and the store to \<open>nblocks\<close> faults.
\<close>

definition cachestat_initialize :: "bool \<Rightarrow> bool \<Rightarrow> u64 \<Rightarrow> stop + cachestat" where
  "cachestat_initialize open_ok mmap_ok nblocks =
     (if \<not> open_ok then Inl (Err ''open cachestfd'')
      else if \<not> mmap_ok then Inl (Err ''mmap'')
      else Inl Segv)"

definition cachestat_shutdown :: "cachestat option \<Rightarrow> bool \<Rightarrow> stop + unit" where
  "cachestat_shutdown c munmap_ok =
     (case c of None \<Rightarrow> Inl (Assert ''cachest'') | Some _ \<Rightarrow> if munmap_ok then Inr () else Inl (Err ''munmap''))"

lemmas cachestat_defs = cachestat_cache_odread_def cachestat_cache_odwrite_def cachestat_cache_bgcopy_def
  cachestat_read_block_def cachestat_write_block_def cachestat_hit_def cachestat_miss_def

end
