(* ===== verification/Forwarder.thy ===== *)
theory Forwarder
  imports Disk_Spec Bitmap Block_Region Cachestat
begin

text \<open>
  \<open>xnbd_proxy_forwarder.c\<close>: the two forwarder threads of the proxy. The transmit thread takes
  requests from \<open>fwd_tx_queue\<close>, marks their blocks in the cache bitmap, asks the remote server for the blocks that are
  missing, and hands the request to the receive thread; the receive thread takes the replies of the
  remote server into the cache disk, carries the request out on the cache disk, and hands it to the
  session's reply queue. Queues are lists, first element out first; \<open>priv_stop_forwarder\<close> is the element \<open>Stop\<close>.
\<close>

section \<open>State\<close>

record remote_read_request =
  bindex_iofrom :: int
  bindex_iolen :: u64

abbreviation (input) MAXNBLOCK :: nat where "MAXNBLOCK \<equiv> 32"

text \<open>
  \<open>req\<close> holds the first \<open>nreq\<close> elements of the array; \<open>sid\<close> stands for \<open>clientfd\<close> and \<open>tx_queue\<close>, which
  belong to one session. A NULL buffer is \<^const>\<open>None\<close>.
\<close>

record proxy_priv =
  sid :: nat
  iotype :: u32
  req :: "remote_read_request list"
  iofrom :: int
  iolen :: u64
  block_index_start :: u64
  block_index_end :: u64
  reply :: nbd_reply
  write_buff :: "bytes option"
  read_buff :: "bytes option"
  need_exit :: bool
  need_retry :: bool
  prepare_done :: bool
  seqnum :: u64

abbreviation nreq :: "proxy_priv \<Rightarrow> nat" where "nreq p \<equiv> length (req p)"

datatype elem = Stop | Priv proxy_priv

text \<open>
  The shared state \<open>struct xnbd_proxy\<close>, with the cache disk as a memory, the statics \<open>fwd_counter\<close> and
  \<open>receiving_failed\<close>, and the local \<open>sending_failed\<close> of the transmit thread.
\<close>

record xnbd_proxy =
  fwd_tx_queue :: "elem list"
  fwd_rx_queue :: "elem list"
  fwd_retry_queue :: "proxy_priv list"
  reply_queue :: "nat \<Rightarrow> proxy_priv list"
  remotefd :: sock
  cache :: mem
  cbitmap :: bitmap
  disksize :: int
  stat :: cachestat
  fwd_counter :: u64
  sending_failed :: bool
  receiving_failed :: bool

section \<open>Choosing the blocks to fetch\<close>

definition add_read_block_to_tail :: "proxy_priv \<Rightarrow> u64 \<Rightarrow> stop + proxy_priv" where
  "add_read_block_to_tail priv i =
     (let cur_nreq = nreq priv; last_req = last (req priv) in
      if cur_nreq > 0 \<and> i = word_of_int (bindex_iofrom last_req) + bindex_iolen last_req then
        Inr (priv\<lparr>req := butlast (req priv) @ [last_req\<lparr>bindex_iolen := bindex_iolen last_req + 1\<rparr>]\<rparr>)
      else
        let priv' = priv\<lparr>req := req priv @ [\<lparr>bindex_iofrom = sint i, bindex_iolen = 1\<rparr>]\<rparr> in
        if nreq priv' = MAXNBLOCK then Inl (Err ''bug, MAXNBLOCK is too small'') else Inr priv')"

type_synonym prep = "bitmap \<times> proxy_priv \<times> cachestat"

definition prepare_read_block :: "u64 \<Rightarrow> prep \<Rightarrow> stop + prep" where
  "prepare_read_block i = (\<lambda>(bm, priv, st).
     let st1 = cachestat_read_block st in
     bindE (bitmap_test bm i) (\<lambda>cached.
       if \<not> cached then
         bindE (bitmap_on bm i) (\<lambda>bm'.
           let st2 = cachestat_cache_odread (cachestat_miss st1) in
           bindE (add_read_block_to_tail priv i) (\<lambda>priv'. Inr (bm', priv', st2)))
       else Inr (bm, priv, cachestat_hit st1)))"

definition prepare_read_priv :: "prep \<Rightarrow> stop + prep" where
  "prepare_read_priv = (\<lambda>(bm, priv, st).
     foldE prepare_read_block (ul_range (block_index_start priv) (block_index_end priv)) (bm, priv, st))"

definition mark_write_block :: "u64 \<Rightarrow> bitmap \<times> cachestat \<Rightarrow> stop + bitmap \<times> cachestat" where
  "mark_write_block i = (\<lambda>(bm, st).
     let st1 = cachestat_write_block st in
     bindE (bitmap_test bm i) (\<lambda>cached.
       if \<not> cached then bindE (bitmap_on bm i) (\<lambda>bm'. Inr (bm', cachestat_cache_odwrite st1))
       else Inr (bm, st1)))"

text \<open>The request for one edge block of a write, or a hit.\<close>

definition add_edge_block :: "bool \<Rightarrow> u64 \<Rightarrow> proxy_priv \<times> cachestat \<Rightarrow> stop + proxy_priv \<times> cachestat" where
  "add_edge_block get_block i = (\<lambda>(priv, st).
     if get_block then
       bindE (assertE ''priv->nreq + 1 <= MAXNBLOCK'' (nreq priv + 1 \<le> MAXNBLOCK)) (\<lambda>_.
         Inr (priv\<lparr>req := req priv @ [\<lparr>bindex_iofrom = sint i, bindex_iolen = 1\<rparr>]\<rparr>, cachestat_miss st))
     else Inr (priv, cachestat_hit st))"

definition prepare_write_priv :: "prep \<Rightarrow> stop + prep" where
  "prepare_write_priv = (\<lambda>(bm, priv, st).
     let sta = block_index_start priv; en = block_index_end priv in
     bindE (if iofrom priv smod CBLOCKSIZE \<noteq> 0 then bindE (bitmap_test bm sta) (\<lambda>c. Inr (\<not> c)) else Inr False) (\<lambda>get_start_block.
     bindE (if (word_of_int (iofrom priv) + iolen priv) mod 4096 \<noteq> 0 \<and> (en > sta \<or> en = sta \<and> \<not> get_start_block)
            then bindE (bitmap_test bm en) (\<lambda>c. Inr (\<not> c)) else Inr False) (\<lambda>get_end_block.
     bindE (foldE mark_write_block (ul_range sta en) (bm, st)) (\<lambda>(bm', st').
     bindE (add_edge_block get_start_block sta (priv, st')) (\<lambda>ps.
     bindE (add_edge_block get_end_block en ps) (\<lambda>(priv', st'').
       Inr (bm', priv', st'')))))))"

section \<open>The transmit thread\<close>

definition req_iofrom :: "remote_read_request \<Rightarrow> int" where
  "req_iofrom r = bindex_iofrom r * CBLOCKSIZE"

definition req_length :: "int \<Rightarrow> remote_read_request \<Rightarrow> u64" where
  "req_length dsize r = confine_iolen_within_disk dsize (req_iofrom r) (bindex_iolen r * 4096)"

text \<open>The \<open>for\<close> loop that sends the read requests, until one fails.\<close>

fun send_reads :: "int \<Rightarrow> remote_read_request list \<Rightarrow> sock \<Rightarrow> stop + bool \<times> sock" where
  "send_reads dsize [] fd = Inr (True, fd)"
| "send_reads dsize (r # rs) fd =
     bindE (nbd_client_send_read_request fd (req_iofrom r) (req_length dsize r)) (\<lambda>(ret, fd').
       if ret < 0 then Inr (False, fd') else send_reads dsize rs fd')"

text \<open>
  One round of the loop of \<open>forwarder_tx_thread_main\<close>, on a non-empty queue; the result says whether the thread goes
  on. A request that is retried is not prepared again.
\<close>

definition prepare_priv :: "xnbd_proxy \<Rightarrow> proxy_priv \<Rightarrow> stop + xnbd_proxy \<times> proxy_priv" where
  "prepare_priv proxy priv =
     (if prepare_done priv then Inr (proxy, priv)
      else bindE (if iotype priv = NBD_CMD_WRITE then prepare_write_priv (cbitmap proxy, priv, stat proxy)
                  else if iotype priv = NBD_CMD_READ \<or> iotype priv = NBD_CMD_CACHE then
                    prepare_read_priv (cbitmap proxy, priv, stat proxy)
                  else Inr (cbitmap proxy, priv, stat proxy)) (\<lambda>(bm, priv', st).
        Inr (proxy\<lparr>cbitmap := bm, stat := st, fwd_counter := fwd_counter proxy + 1\<rparr>,
             priv'\<lparr>seqnum := fwd_counter proxy, prepare_done := True\<rparr>)))"

definition forwarder_tx_round :: "xnbd_proxy \<Rightarrow> stop + bool \<times> xnbd_proxy" where
  "forwarder_tx_round proxy =
     (case fwd_tx_queue proxy of
        [] \<Rightarrow> Inr (True, proxy)
      | x # xs \<Rightarrow>
          let proxy = proxy\<lparr>fwd_tx_queue := xs\<rparr> in
          case x of
            Stop \<Rightarrow> Inr (False, proxy\<lparr>fwd_rx_queue := fwd_rx_queue proxy @ [Stop]\<rparr>)
          | Priv priv \<Rightarrow>
              if need_exit priv then Inr (True, proxy\<lparr>fwd_rx_queue := fwd_rx_queue proxy @ [Priv priv]\<rparr>)
              else bindE (prepare_priv proxy priv) (\<lambda>(proxy, priv).
                bindE (send_reads (disksize proxy) (req priv) (remotefd proxy)) (\<lambda>(ok, fd).
                  let failed = (sending_failed proxy \<or> \<not> ok);
                      priv' = (if failed then priv\<lparr>need_retry := True\<rparr> else priv)
                  in Inr (True, proxy\<lparr>remotefd := fd, sending_failed := failed,
                                      fwd_rx_queue := fwd_rx_queue proxy @ [Priv priv']\<rparr>))))"

section \<open>The receive thread\<close>

text \<open>What the kernel answers in a round: \<open>mmap\<close>, \<open>munmap\<close>, \<open>fsync\<close>, \<open>msync\<close> and \<open>fallocate\<close>.\<close>

record rxkern =
  rk_mmap :: mmap_fn
  rk_munmap :: bool
  rk_fsync :: bool
  rk_msync :: bool
  rk_fallocate :: bool

text \<open>The loop that receives the replies into the mapped blocks of the cache disk.\<close>

fun recv_reads :: "int \<Rightarrow> mmap_block_region \<Rightarrow> remote_read_request list \<Rightarrow> mem \<Rightarrow> sock \<Rightarrow> stop + bool \<times> mem \<times> sock" where
  "recv_reads dsize mbr [] m fd = Inr (True, m, fd)"
| "recv_reads dsize mbr (r # rs) m fd =
     (let iobuf_partial = map_option (\<lambda>p. p + (req_iofrom r - ba_iofrom mbr)) (ba_iobuf mbr) in
      bindE (nbd_client_recv_read_reply m fd iobuf_partial (req_length dsize r)) (\<lambda>(ret, m', fd').
        if ret < 0 then Inr (False, m', fd') else recv_reads dsize mbr rs m' fd'))"

text \<open>
  What is done on the cache disk once the blocks are there; \<open>p\<close> is \<open>iobuf\<close>. A \<open>memcpy\<close> with a NULL buffer
  faults unless it copies nothing.
\<close>

definition complete_priv :: "rxkern \<Rightarrow> int \<Rightarrow> proxy_priv \<Rightarrow> mem \<Rightarrow> stop + proxy_priv \<times> mem" where
  "complete_priv k p priv m =
     (if iotype priv = NBD_CMD_READ then
        (case read_buff priv of None \<Rightarrow> if iolen priv = 0 then Inr (priv, m) else Inl Segv
         | Some _ \<Rightarrow> Inr (priv\<lparr>read_buff := Some (peek m p (unat (iolen priv)))\<rparr>, m))
      else if iotype priv = NBD_CMD_WRITE then
        (case write_buff priv of None \<Rightarrow> if iolen priv = 0 then Inr (priv, m) else Inl Segv
         | Some b \<Rightarrow> Inr (priv, poke m p (take (unat (iolen priv)) b)))
      else if iotype priv = NBD_CMD_CACHE then Inr (priv, m)
      else if iotype priv = NBD_CMD_FLUSH then
        (if \<not> rk_fsync k then Inl (Err ''fsync'')
         else if \<not> rk_msync k then Inl (Err ''msync bitmap failed'') else Inr (priv, m))
      else if iotype priv = NBD_CMD_TRIM then
        Inr (priv, punch_hole (rk_fallocate k) m (iofrom priv) (uint (iolen priv)))
      else Inl (Err ''bug''))"

definition forwarder_rx_thread_mainloop :: "rxkern \<Rightarrow> xnbd_proxy \<Rightarrow> stop + int \<times> xnbd_proxy" where
  "forwarder_rx_thread_mainloop k proxy =
     (case fwd_rx_queue proxy of
        [] \<Rightarrow> Inr (0, proxy)
      | Stop # xs \<Rightarrow> Inr (-1, proxy\<lparr>fwd_rx_queue := xs\<rparr>)
      | Priv priv # xs \<Rightarrow>
          let proxy = proxy\<lparr>fwd_rx_queue := xs\<rparr>;
              hand = (\<lambda>priv proxy. proxy\<lparr>reply_queue := (reply_queue proxy)(sid priv := reply_queue proxy (sid priv) @ [priv])\<rparr>)
          in
          if need_exit priv then Inr (0, hand priv proxy)
          else
            bindE (mmap_block_region_create (rk_mmap k) (disksize proxy) (iofrom priv) (iolen priv) False) (\<lambda>mbr.
            bindE (recv_reads (disksize proxy) mbr (req priv) (cache proxy) (remotefd proxy)) (\<lambda>(ok, m, fd).
              let failed = (receiving_failed proxy \<or> \<not> ok);
                  priv1 = (if failed then priv\<lparr>need_retry := True\<rparr> else priv);
                  proxy1 = proxy\<lparr>remotefd := fd, cache := m, receiving_failed := failed\<rparr>;
                  p = (case mbr_iobuf mbr of None \<Rightarrow> 0 | Some a \<Rightarrow> a)
              in
              bindE (if need_retry priv1 then Inr (priv1, m) else complete_priv k p priv1 m) (\<lambda>(priv2, m2).
              bindE (mmap_block_region_free (rk_munmap k) mbr) (\<lambda>_.
                let proxy2 = proxy1\<lparr>cache := m2\<rparr> in
                if need_retry priv2 then Inr (0, proxy2\<lparr>fwd_retry_queue := fwd_retry_queue proxy2 @ [priv2]\<rparr>)
                else Inr (0, hand priv2 proxy2))))))"

end
