(* ===== verification/Fetch_Plan.thy ===== *)
theory Fetch_Plan
  imports Forwarder
begin

text \<open>
  What \<open>prepare_read_priv\<close> and \<open>prepare_write_priv\<close> decide: which blocks are marked in the
  bitmap, which are asked from the remote server, and how many requests that takes.
\<close>

section \<open>The blocks of the read requests\<close>

definition req_blocks :: "remote_read_request \<Rightarrow> nat set" where
  "req_blocks r = {nat (bindex_iofrom r)..<nat (bindex_iofrom r) + unat (bindex_iolen r)}"

definition fetched :: "remote_read_request list \<Rightarrow> nat set" where
  "fetched rs = (\<Union>r \<in> set rs. req_blocks r)"

lemma fetched_simps [simp]: "fetched [] = {}" "fetched (r # rs) = req_blocks r \<union> fetched rs"
    "fetched (rs @ rs') = fetched rs \<union> fetched rs'"
  by (auto simp: fetched_def)

text \<open>A request for blocks between \<open>a\<close> and \<open>b\<close> (exclusive).\<close>

definition req_in :: "nat \<Rightarrow> nat \<Rightarrow> remote_read_request \<Rightarrow> bool" where
  "req_in a b r \<longleftrightarrow> 0 \<le> bindex_iofrom r \<and> 0 < unat (bindex_iolen r) \<and> a \<le> nat (bindex_iofrom r) \<and>
     nat (bindex_iofrom r) + unat (bindex_iolen r) \<le> b"

lemma req_in_mono: "req_in a b r \<Longrightarrow> a' \<le> a \<Longrightarrow> b \<le> b' \<Longrightarrow> req_in a' b' r"
  by (auto simp: req_in_def)

lemma req_in_Suc: "\<forall>r \<in> set rs. req_in a j r \<Longrightarrow> \<forall>r \<in> set rs. req_in a (Suc j) r"
  by (auto simp: req_in_def)

definition req_end :: "remote_read_request \<Rightarrow> nat" where
  "req_end r = nat (bindex_iofrom r) + unat (bindex_iolen r)"

lemma sint_of_nat_small: "j < 9223372036854775808 \<Longrightarrow> sint (of_nat j :: u64) = int j"
  by (simp add: sint_uint uint_nat unat_of_nat_small signed_take_bit_int_eq_self)

lemma unat_Suc_small: "unat w < 18446744073709551615 \<Longrightarrow> unat (w + 1 :: u64) = Suc (unat w)"
  by (simp add: unat_word_ariths)

section \<open>Reads\<close>

text \<open>
  The invariant of the loop before block \<open>j\<close>: every block from \<open>a\<close> on is marked, the requests cover
  exactly those that were not marked in \<open>M\<close>, and two requests are at least one marked block apart,
  which bounds their number.
\<close>

definition plan_inv :: "nat set \<Rightarrow> nat \<Rightarrow> nat \<Rightarrow> proxy_priv \<Rightarrow> nat \<Rightarrow> prep \<Rightarrow> bool" where
  "plan_inv M len a p0 j = (\<lambda>(bm, p, st).
     length bm = len \<and> marked bm = M \<union> {a..<j} \<and> p = p0\<lparr>req := req p\<rparr> \<and> fetched (req p) = {a..<j} - M \<and>
     (\<forall>r \<in> set (req p). req_in a j r) \<and>
     2 * nreq p \<le> (j - a) + (if req p \<noteq> [] \<and> req_end (last (req p)) = j then 1 else 0))"

lemma add_block_spec:
  assumes "\<forall>r \<in> set (req p). req_in a j r" and "j < 9223372036854775807" and "a \<le> j" and "add_read_block_to_tail p (of_nat j) = Inr p'"
  shows "p' = p\<lparr>req := req p'\<rparr> \<and> fetched (req p') = insert j (fetched (req p)) \<and> (\<forall>r \<in> set (req p'). req_in a (Suc j) r) \<and>
    req p' \<noteq> [] \<and> req_end (last (req p')) = Suc j \<and>
    nreq p' = (if req p \<noteq> [] \<and> req_end (last (req p)) = j then nreq p else Suc (nreq p))"
proof -
  have j: "unat (of_nat j :: u64) = j" "sint (of_nat j :: u64) = int j"
    using assms(2) by (simp_all add: unat_of_nat_small sint_of_nat_small)
  have old: "\<forall>r \<in> set (req p). req_in a (Suc j) r" using assms(1) by (rule req_in_Suc)
  have ends: "of_nat j = word_of_int (bindex_iofrom (last (req p))) + bindex_iolen (last (req p)) \<longleftrightarrow> req_end (last (req p)) = j"
    if ne: "req p \<noteq> []"
  proof -
    have l: "req_in a j (last (req p))" using assms(1) ne by simp
    then have "unat (word_of_int (bindex_iofrom (last (req p))) :: u64) = nat (bindex_iofrom (last (req p)))"
      using assms(2) by (intro unat_word_of_int_u64) (auto simp: req_in_def)
    with l assms(2) have "unat (word_of_int (bindex_iofrom (last (req p))) + bindex_iolen (last (req p))) = req_end (last (req p))"
      by (simp add: unat_word_ariths req_in_def req_end_def)
    with j show ?thesis by (metis word_unat_eq_iff)
  qed
  show ?thesis
  proof (cases "req p \<noteq> [] \<and> req_end (last (req p)) = j")
    case True
    let ?l = "last (req p)" and ?n = "bindex_iolen (last (req p)) + 1"
    have l: "req_in a j ?l" using assms(1) True by simp
    have n: "unat ?n = Suc (unat (bindex_iolen ?l))"
      using l assms(2) by (intro unat_Suc_small) (auto simp: req_in_def)
    have p': "p' = p\<lparr>req := butlast (req p) @ [?l\<lparr>bindex_iolen := ?n\<rparr>]\<rparr>"
      using assms(4) True ends by (simp add: add_read_block_to_tail_def Let_def)
    have "req p = butlast (req p) @ [?l]" using True by simp
    then have "fetched (req p) = fetched (butlast (req p)) \<union> req_blocks ?l" by (metis fetched_simps(1,2,3) Un_empty_right)
    moreover have "req_blocks (?l\<lparr>bindex_iolen := ?n\<rparr>) = insert j (req_blocks ?l)"
      using True l n by (auto simp: req_blocks_def req_end_def req_in_def)
    moreover have "req_in a (Suc j) (?l\<lparr>bindex_iolen := ?n\<rparr>)" "req_end (?l\<lparr>bindex_iolen := ?n\<rparr>) = Suc j"
      using True l n by (auto simp: req_in_def req_end_def)
    ultimately show ?thesis using p' True old by (auto dest: in_set_butlastD)
  next
    case False
    let ?r = "\<lparr>bindex_iofrom = int j, bindex_iolen = 1\<rparr>"
    have p': "p' = p\<lparr>req := req p @ [?r]\<rparr>"
      using assms(4) False ends j by (auto simp: add_read_block_to_tail_def Let_def split: if_splits)
    have "req_blocks ?r = {j}" "req_in a (Suc j) ?r" "req_end ?r = Suc j"
      using assms(3) by (auto simp: req_blocks_def req_in_def req_end_def)
    with p' old False show ?thesis by auto
  qed
qed

lemma add_block_ok:
  assumes "nreq p < 31" shows "\<exists>p'. add_read_block_to_tail p i = Inr p'"
  using assms by (auto simp: add_read_block_to_tail_def Let_def)

lemma plan_step:
  assumes "plan_inv M len a p0 j s" and "a \<le> j" and "j < 64 * len" and "j < 9223372036854775807"
    and "prepare_read_block (of_nat j) s = Inr s'"
  shows "plan_inv M len a p0 (Suc j) s'"
proof -
  obtain bm p st where s: "s = (bm, p, st)" by (cases s)
  note inv = assms(1)[unfolded s plan_inv_def, simplified]
  have j: "unat (of_nat j :: u64) = j" using assms(4) by (simp add: unat_of_nat_small)
  have t: "bitmap_test bm (of_nat j) = Inr (j \<in> marked bm)" using bitmap_test_in[of "of_nat j" bm] inv assms(3) j by simp
  have jM: "j \<in> marked bm \<longleftrightarrow> j \<in> M" using inv by auto
  have grow: "{a..<Suc j} = insert j {a..<j}" using assms(2) by auto
  show ?thesis
  proof (cases "j \<in> M")
    case True
    then have "s' = (bm, p, cachestat_hit (cachestat_read_block st))"
      using assms(5) t jM s by (simp add: prepare_read_block_def Let_def)
    moreover have "\<forall>r \<in> set (req p). req_in a (Suc j) r" using inv by (intro req_in_Suc) blast
    moreover have "2 * nreq p \<le> Suc j - a" using inv assms(2) by (auto split: if_splits)
    ultimately show ?thesis using inv True grow by (auto simp: plan_inv_def)
  next
    case False
    obtain bm' where on: "bitmap_on bm (of_nat j) = Inr bm'" "length bm' = length bm" "marked bm' = insert j (marked bm)"
      using bitmap_on_in[of "of_nat j" bm] inv assms(3) j by auto
    with False assms(5) t jM s obtain p' where p': "add_read_block_to_tail p (of_nat j) = Inr p'"
      and s': "s' = (bm', p', cachestat_cache_odread (cachestat_miss (cachestat_read_block st)))"
      by (auto simp: prepare_read_block_def Let_def bindE_eq_Inr)
    have "\<forall>r \<in> set (req p). req_in a j r" using inv by blast
    note spec = add_block_spec[OF this assms(4,2) p']
    have "p' = p0\<lparr>req := req p'\<rparr>" using spec inv by (metis proxy_priv.surjective proxy_priv.update_convs(3))
    moreover have "2 * nreq p' \<le> (Suc j - a) + 1" using spec inv assms(2) by (auto split: if_splits)
    ultimately show ?thesis using s' on spec inv False grow by (auto simp: plan_inv_def)
  qed
qed

lemma plan_step_total:
  assumes "plan_inv M len a p0 j s" and "a \<le> j" and "j < 64 * len" and "j < 9223372036854775807" and "j - a < 62"
  shows "\<exists>s'. prepare_read_block (of_nat j) s = Inr s' \<and> plan_inv M len a p0 (Suc j) s'"
proof -
  obtain bm p st where s: "s = (bm, p, st)" by (cases s)
  note inv = assms(1)[unfolded s plan_inv_def, simplified]
  have j: "unat (of_nat j :: u64) = j" using assms(4) by (simp add: unat_of_nat_small)
  have t: "bitmap_test bm (of_nat j) = Inr (j \<in> marked bm)" using bitmap_test_in[of "of_nat j" bm] inv assms(3) j by simp
  obtain bm' where on: "bitmap_on bm (of_nat j) = Inr bm'" using bitmap_on_in[of "of_nat j" bm] inv assms(3) j by auto
  have "\<exists>p'. add_read_block_to_tail p (of_nat j) = Inr p'"
  proof (cases "nreq p < 31")
    case False
    then have "nreq p = 31 \<and> req p \<noteq> [] \<and> req_end (last (req p)) = j" using inv assms(5) by (auto split: if_splits)
    moreover have l: "req_in a j (last (req p))" using inv calculation by auto
    have "unat (word_of_int (bindex_iofrom (last (req p))) :: u64) = nat (bindex_iofrom (last (req p)))"
      using l assms(4) by (intro unat_word_of_int_u64) (auto simp: req_in_def)
    with l assms(4) have "unat (word_of_int (bindex_iofrom (last (req p))) + bindex_iolen (last (req p))) = req_end (last (req p))"
      by (simp add: unat_word_ariths req_in_def req_end_def)
    ultimately show ?thesis using j by (auto simp: add_read_block_to_tail_def Let_def word_unat_eq_iff)
  qed (rule add_block_ok)
  then have "\<exists>s'. prepare_read_block (of_nat j) s = Inr s'"
    using t on s by (cases "j \<in> marked bm") (auto simp: prepare_read_block_def Let_def)
  with plan_step[OF assms(1-4)] show ?thesis by blast
qed

lemma plan_start: "req p = [] \<Longrightarrow> plan_inv (marked bm) (length bm) a p a (bm, p, st)"
  by (cases p) (auto simp: plan_inv_def)

lemma read_plan_sound:
  assumes "req p = []" and "unat (block_index_end p) < 64 * length bm" and "unat (block_index_end p) < 9223372036854775806"
    and "unat (block_index_start p) \<le> unat (block_index_end p)" and "prepare_read_priv (bm, p, st) = Inr s'"
  shows "plan_inv (marked bm) (length bm) (unat (block_index_start p)) p (Suc (unat (block_index_end p))) s'"
  using foldE_range_sound[where P = "plan_inv (marked bm) (length bm) (unat (block_index_start p)) p"
      and f = prepare_read_block and a = "block_index_start p" and b = "block_index_end p" and s = "(bm, p, st)"]
    plan_step[of "marked bm" "length bm" "unat (block_index_start p)" p] plan_start[OF assms(1)] assms
  by (simp add: prepare_read_priv_def)

lemma read_plan_total:
  assumes "req p = []" and "unat (block_index_end p) < 64 * length bm" and "unat (block_index_end p) < 9223372036854775806"
    and "unat (block_index_start p) \<le> unat (block_index_end p)" and "unat (block_index_end p) - unat (block_index_start p) < 62"
  shows "\<exists>s'. prepare_read_priv (bm, p, st) = Inr s'"
  using foldE_range_total[where P = "plan_inv (marked bm) (length bm) (unat (block_index_start p)) p"
      and f = prepare_read_block and a = "block_index_start p" and b = "block_index_end p" and s = "(bm, p, st)"]
    plan_step_total[of "marked bm" "length bm" "unat (block_index_start p)" p] plan_start[OF assms(1)] assms
  by (auto simp: prepare_read_priv_def)

section \<open>Writes\<close>

lemma mark_write_total:
  assumes "unat en < 64 * length bm" and "unat sta \<le> unat en"
  shows "\<exists>bm' st'. foldE mark_write_block (ul_range sta en) (bm, st) = Inr (bm', st') \<and> length bm' = length bm \<and>
    marked bm' = marked bm \<union> {unat sta..unat en}"
proof -
  let ?P = "\<lambda>j s. length (fst s) = length bm \<and> marked (fst s) = marked bm \<union> {unat sta..<j}"
  have "\<exists>s'. mark_write_block (of_nat j) s = Inr s' \<and> ?P (Suc j) s'"
    if "unat sta \<le> j" "j < Suc (unat en)" "?P j s" for j and s :: "bitmap \<times> cachestat"
  proof -
    have j: "unat (of_nat j :: u64) = j" using that(2) by (intro unat_of_nat_u64[of _ en]) simp
    with that(2,3) assms(1) bitmap_test_in[of "of_nat j" "fst s"] bitmap_on_in[of "of_nat j" "fst s"]
    have "bitmap_test (fst s) (of_nat j) = Inr (j \<in> marked (fst s))"
      "\<exists>b'. bitmap_on (fst s) (of_nat j) = Inr b' \<and> length b' = length bm \<and> marked b' = insert j (marked (fst s))" by auto
    moreover have "{unat sta..<Suc j} = insert j {unat sta..<j}" using that(1) by auto
    ultimately show ?thesis using that(3)
      by (cases "j \<in> marked (fst s)") (auto simp: mark_write_block_def Let_def split: prod.splits)
  qed
  then have "\<exists>s'. foldE mark_write_block (ul_range sta en) (bm, st) = Inr s' \<and> ?P (Suc (unat en)) s'"
    using assms(2) by (intro foldE_range_total[where P = ?P]) auto
  then show ?thesis by (auto simp: atLeastLessThanSuc_atLeastAtMost)
qed

definition edge_fetches :: "nat set \<Rightarrow> proxy_priv \<Rightarrow> nat set" where
  "edge_fetches M p =
     (if iofrom p mod 4096 \<noteq> 0 then {unat (block_index_start p)} - M else {}) \<union>
     (if (iofrom p + uint (iolen p)) mod 4096 \<noteq> 0 then {unat (block_index_end p)} - M else {})"

lemma write_plan:
  assumes "req p = []" and "unat (block_index_end p) < 64 * length bm" and "unat (block_index_end p) < 9223372036854775806"
    and "unat (block_index_start p) \<le> unat (block_index_end p)" and "0 \<le> iofrom p" and "iofrom p + uint (iolen p) < 9223372036854775808"
  shows "\<exists>bm' p' st'. prepare_write_priv (bm, p, st) = Inr (bm', p', st') \<and> length bm' = length bm \<and>
    marked bm' = marked bm \<union> {unat (block_index_start p)..unat (block_index_end p)} \<and> p' = p\<lparr>req := req p'\<rparr> \<and>
    fetched (req p') = edge_fetches (marked bm) p \<and> nreq p' \<le> 2 \<and>
    (\<forall>r \<in> set (req p'). req_in (unat (block_index_start p)) (Suc (unat (block_index_end p))) r)"
proof -
  let ?a = "block_index_start p" and ?e = "block_index_end p"
  obtain bm' st' where m: "foldE mark_write_block (ul_range ?a ?e) (bm, st) = Inr (bm', st')" "length bm' = length bm"
      "marked bm' = marked bm \<union> {unat ?a..unat ?e}" using mark_write_total[OF assms(2,4)] by blast
  have ta: "bitmap_test bm ?a = Inr (unat ?a \<in> marked bm)" and te: "bitmap_test bm ?e = Inr (unat ?e \<in> marked bm)"
    using assms(2,4) by (simp_all add: bitmap_test_in)
  have sm: "iofrom p smod 4096 = iofrom p mod 4096" using assms(5) by (simp add: smod_nonneg)
  have sum: "uint (word_of_int (iofrom p) + iolen p) = iofrom p + uint (iolen p)"
    using uint_word_of_int_u64[of "iofrom p + uint (iolen p)"] assms(5,6) uint_ge_0[of "iolen p"] by simp
  have um: "(word_of_int (iofrom p) + iolen p) mod 4096 \<noteq> 0 \<longleftrightarrow> (iofrom p + uint (iolen p)) mod 4096 \<noteq> 0"
    by (simp add: uint_0_iff[symmetric] uint_mod sum del: uint_0_iff)
  have sa: "sint ?a = int (unat ?a)" "sint ?e = int (unat ?e)"
    using assms(3,4) sint_of_nat_small[of "unat ?a"] sint_of_nat_small[of "unat ?e"] by simp_all
  have lt: "?e > ?a \<longleftrightarrow> unat ?a < unat ?e" "?e = ?a \<longleftrightarrow> unat ?e = unat ?a" by (simp_all add: word_less_nat_alt word_unat_eq_iff)
  have one: "req_blocks \<lparr>bindex_iofrom = uint w, bindex_iolen = 1\<rparr> = {unat w}"
    "req_in lo hi \<lparr>bindex_iofrom = uint w, bindex_iolen = 1\<rparr> \<longleftrightarrow> lo \<le> unat w \<and> unat w < hi" for w :: u64 and lo hi
    by (auto simp: req_blocks_def req_in_def)
  show ?thesis using assms(1,4) m
    by (auto simp: prepare_write_priv_def Let_def sm um ta te lt sa add_edge_block_def edge_fetches_def one)
qed

section \<open>Properties\<close>

text \<open>
  C19. A read (or a request to cache) of blocks \<open>a\<close> to \<open>b\<close> asks the remote server for exactly those
  of them that are not yet marked, marks all of them, changes nothing else of the request, and needs
  at most half as many remote requests as blocks (rounded up); it never gives up on up to 62 blocks.
\<close>

theorem read_plan_exact:
  assumes "req p = []" and "unat (block_index_end p) < 64 * length bm" and "unat (block_index_end p) < 9223372036854775806"
    and "unat (block_index_start p) \<le> unat (block_index_end p)"
  shows "(\<forall>bm' p' st'. prepare_read_priv (bm, p, st) = Inr (bm', p', st') \<longrightarrow>
      marked bm' = marked bm \<union> {unat (block_index_start p)..unat (block_index_end p)} \<and>
      fetched (req p') = {unat (block_index_start p)..unat (block_index_end p)} - marked bm \<and>
      p' = p\<lparr>req := req p'\<rparr> \<and> 2 * nreq p' \<le> unat (block_index_end p) - unat (block_index_start p) + 2) \<and>
    (unat (block_index_end p) - unat (block_index_start p) < 62 \<longrightarrow> (\<exists>r. prepare_read_priv (bm, p, st) = Inr r))"
proof (intro conjI allI impI)
  fix bm' p' st'
  assume r: "prepare_read_priv (bm, p, st) = Inr (bm', p', st')"
  from read_plan_sound[OF assms r]
  have inv: "marked bm' = marked bm \<union> {unat (block_index_start p)..unat (block_index_end p)} \<and>
      fetched (req p') = {unat (block_index_start p)..unat (block_index_end p)} - marked bm \<and> p' = p\<lparr>req := req p'\<rparr>"
    and "2 * nreq p' \<le> (Suc (unat (block_index_end p)) - unat (block_index_start p)) + 1"
    by (auto simp: plan_inv_def atLeastLessThanSuc_atLeastAtMost split: if_splits)
  with assms(4) have "2 * nreq p' \<le> unat (block_index_end p) - unat (block_index_start p) + 2" by linarith
  with inv show "marked bm' = marked bm \<union> {unat (block_index_start p)..unat (block_index_end p)}"
    "fetched (req p') = {unat (block_index_start p)..unat (block_index_end p)} - marked bm" "p' = p\<lparr>req := req p'\<rparr>"
    "2 * nreq p' \<le> unat (block_index_end p) - unat (block_index_start p) + 2" by blast+
qed (rule read_plan_total[OF assms])

definition demo_priv :: "u32 \<Rightarrow> int \<Rightarrow> u64 \<Rightarrow> proxy_priv" where
  "demo_priv t from len = \<lparr>sid = 0, iotype = t, req = [], iofrom = from, iolen = len, block_index_start = get_bindex_sta 4096 from,
     block_index_end = get_bindex_end 4096 (from + uint len), reply = ok_reply 0, write_buff = None, read_buff = None,
     need_exit = False, need_retry = False, prepare_done = False, seqnum = 0\<rparr>"

definition zero_stat :: cachestat where
  "zero_stat = \<lparr>cs_nblocks = 0, cache_odread = 0, cache_odwrite = 0, cache_bgcopy = 0, io_blocks = 0,
     read_blocks = 0, written_blocks = 0, cache_hit = 0, cache_miss = 0\<rparr>"

theorem read_plan_exact_witness:
  "\<exists>r. prepare_read_priv ([5], demo_priv NBD_CMD_READ 0 20480, zero_stat) = Inr r"
proof -
  have e: "get_bindex_sta 4096 0 = 0" "get_bindex_end 4096 20480 = 4"
    by (simp_all add: get_bindex_sta_def get_bindex_end_def sdiv_nonneg smod_nonneg)
  show ?thesis using read_plan_exact[of "demo_priv NBD_CMD_READ 0 20480" "[5]" zero_stat] by (simp add: demo_priv_def e)
qed

text \<open>
  C20. A write marks all its blocks and asks the remote server for its first and last block only, and for
  those only if the write covers them partly and they are not yet marked; it never gives up.
\<close>

theorem write_plan_exact:
  assumes "req p = []" and "unat (block_index_end p) < 64 * length bm" and "unat (block_index_end p) < 9223372036854775806"
    and "unat (block_index_start p) \<le> unat (block_index_end p)" and "0 \<le> iofrom p" and "iofrom p + uint (iolen p) < 9223372036854775808"
  shows "\<exists>bm' p' st'. prepare_write_priv (bm, p, st) = Inr (bm', p', st') \<and>
    marked bm' = marked bm \<union> {unat (block_index_start p)..unat (block_index_end p)} \<and> p' = p\<lparr>req := req p'\<rparr> \<and> nreq p' \<le> 2 \<and>
    fetched (req p') = {b. b \<notin> marked bm \<and> (b = unat (block_index_start p) \<and> iofrom p mod 4096 \<noteq> 0 \<or>
      b = unat (block_index_end p) \<and> (iofrom p + uint (iolen p)) mod 4096 \<noteq> 0)}"
  using write_plan[OF assms, of st] by (auto simp: edge_fetches_def)

theorem write_plan_exact_witness:
  "\<exists>bm' p' st'. prepare_write_priv ([1], demo_priv NBD_CMD_WRITE 4000 1000, zero_stat) = Inr (bm', p', st') \<and> nreq p' \<le> 2"
proof -
  have e: "get_bindex_sta 4096 4000 = 0" "get_bindex_end 4096 5000 = 1"
    by (simp_all add: get_bindex_sta_def get_bindex_end_def sdiv_nonneg smod_nonneg)
  show ?thesis using write_plan_exact[of "demo_priv NBD_CMD_WRITE 4000 1000" "[1]" zero_stat] by (auto simp: demo_priv_def e)
qed

lemma plan_lt_32:
  assumes "nreq p < 32" and "unat (block_index_start p) \<le> unat (block_index_end p)" and "prepare_read_priv (bm, p, st) = Inr (bm', p', st')"
  shows "nreq p' < 32"
proof -
  have step: "nreq (fst (snd s')) < 32" if "nreq (fst (snd s)) < 32" and "prepare_read_block i s = Inr s'" for i s s'
    using that by (cases s) (auto simp: prepare_read_block_def add_read_block_to_tail_def Let_def bindE_eq_Inr split: if_splits)
  have run: "foldE prepare_read_block (ul_range (block_index_start p) (block_index_end p)) (bm, p, st) = Inr (bm', p', st')"
    using assms(3) by (simp add: prepare_read_priv_def)
  have "nreq (fst (snd (bm', p', st'))) < 32"
    by (rule foldE_range_sound[where P = "\<lambda>j s. nreq (fst (snd s)) < 32", OF _ _ _ run]) (use step assms in simp_all)
  then show ?thesis by simp
qed



lemma prepare_read_keeps_length:
  "foldE prepare_read_block is s = Inr s' \<Longrightarrow> length (fst s') = length (fst s)"
proof (induction "is" arbitrary: s)
  case (Cons i "is")
  then obtain s1 where s1: "prepare_read_block i s = Inr s1" "foldE prepare_read_block is s1 = Inr s'" by (auto simp: bindE_eq_Inr)
  have "length (fst s1) = length (fst s)"
    using s1(1) by (cases s) (auto simp: prepare_read_block_def bitmap_on_def Let_def bindE_eq_Inr split: if_splits)
  with Cons.IH[OF s1(2)] show ?case by simp
qed simp

text \<open>
  An empty read at offset 0 stops the proxy: the index of its last block wraps to the largest
  \<open>unsigned long\<close>, so the loop runs over the end of the bitmap.
\<close>

lemma empty_read_stops_proxy:
  assumes "64 * length bm < 9223372036854775807"
  shows "\<exists>e. prepare_read_priv (bm, demo_priv NBD_CMD_READ 0 0, st) = Inl e"
proof -
  let ?p = "demo_priv NBD_CMD_READ 0 0" and ?c = "64 * length bm"
  have e: "unat (block_index_start ?p) = 0" "unat (block_index_end ?p) = 18446744073709551615"
    by (simp_all add: demo_priv_def get_bindex_sta_def bindex_end_0 signed_divide_int_def unsigned_minus_1_eq_mask mask_eq_exp_minus_1)
  have split: "[0..<18446744073709551616] = [0..<?c] @ ?c # [Suc ?c..<18446744073709551616]"
    using assms upt_add_eq_append[of 0 ?c "18446744073709551616 - ?c"] by (simp add: upt_conv_Cons[of ?c])
  have r: "ul_range (block_index_start ?p) (block_index_end ?p) =
      map of_nat [0..<?c] @ of_nat ?c # map of_nat [Suc ?c..<18446744073709551616]"
    unfolding ul_range_def e split[symmetric] by (simp add: split)
  have "unat (of_nat ?c :: u64) = ?c" using assms by (intro unat_of_nat_small) simp
  then have out: "prepare_read_block (of_nat ?c) s = Inl Segv" if "length (fst s) = length bm" for s
    using that bitmap_test_out[of "fst s" "of_nat ?c"] by (cases s) (simp add: prepare_read_block_def Let_def)
  have inv: "length (fst s) = length bm" if "foldE prepare_read_block (map of_nat [0..<?c]) (bm, ?p, st) = Inr s" for s
    using prepare_read_keeps_length[OF that] by simp
  show ?thesis unfolding prepare_read_priv_def prod.case r foldE_append
    using out inv by (cases "foldE prepare_read_block (map of_nat [0..<?c]) (bm, ?p, st)") auto
qed

lemma empty_read_stops_proxy_witness: "\<exists>e. prepare_read_priv ([0], demo_priv NBD_CMD_READ 0 0, zero_stat) = Inl e"
  by (rule empty_read_stops_proxy) simp

end
