(* ===== verification/Proxy_Refinement.thy ===== *)
theory Proxy_Refinement
  imports Fetch_Plan
begin

text \<open>
  The caching proxy is a disk. The forwarder threads run interleaved with sessions that enqueue
  requests and with a remote server that answers read requests from a fixed disk \<open>R\<close>; in any
  interleaving, the requests completed by the receive thread are those of a sequential disk whose initial contents are
  the cached blocks of the cache disk and the blocks of \<open>R\<close> for the rest.
\<close>

section \<open>Requests for the remote server\<close>

definition req_ok :: "int \<Rightarrow> remote_read_request \<Rightarrow> bool" where
  "req_ok D r \<longleftrightarrow> 0 \<le> bindex_iofrom r \<and> 0 < unat (bindex_iolen r) \<and> unat (bindex_iolen r) \<le> 300000 \<and> bindex_iofrom r * 4096 < D"

lemma req_length_ok:
  assumes "req_ok D r" and "D < 9223372036854771712"
  shows "uint (req_length D r) = min (D - req_iofrom r) (4096 * int (unat (bindex_iolen r)))"
    and "0 < uint (req_length D r)" and "uint (req_length D r) < 2147483632" and "0 \<le> req_iofrom r"
    and "req_iofrom r + uint (req_length D r) \<le> D"
proof -
  have n: "int (unat (bindex_iolen r)) = uint (bindex_iolen r)" by simp
  have l: "uint (bindex_iolen r) \<le> 300000" "0 < uint (bindex_iolen r)" using assms(1) n unfolding req_ok_def by linarith+
  have "uint (bindex_iolen r * 4096) = 4096 * uint (bindex_iolen r)"
    using l uint_word_of_int_u64[of "4096 * uint (bindex_iolen r)"] by (simp add: mult.commute)
  moreover have "uint (word_of_int (D - req_iofrom r) :: u64) = D - req_iofrom r"
    using assms by (intro uint_word_of_int_u64) (auto simp: req_ok_def req_iofrom_def)
  ultimately show *: "uint (req_length D r) = min (D - req_iofrom r) (4096 * int (unat (bindex_iolen r)))"
    unfolding req_length_def confine_iolen_within_disk_def Let_def n word_less_def by (simp add: min_def)
  have f: "0 < D - req_iofrom r" "0 \<le> req_iofrom r" using assms(1) by (auto simp: req_ok_def req_iofrom_def)
  show "0 \<le> req_iofrom r" by (rule f)
  show "0 < uint (req_length D r)" "uint (req_length D r) < 2147483632" "req_iofrom r + uint (req_length D r) \<le> D"
    unfolding * using f l n by linarith+
qed

text \<open>The bytes a request covers are those of its blocks inside the disk.\<close>

lemma req_range:
  assumes "req_ok D r" and "D < 9223372036854771712"
  shows "req_iofrom r \<le> x \<and> x < req_iofrom r + uint (req_length D r) \<longleftrightarrow> 0 \<le> x \<and> x < D \<and> nat (x div 4096) \<in> req_blocks r"
proof -
  let ?f = "bindex_iofrom r" and ?l = "int (unat (bindex_iolen r))"
  have f: "0 \<le> ?f" using assms(1) by (simp add: req_ok_def)
  have "req_iofrom r \<le> x \<and> x < req_iofrom r + uint (req_length D r) \<longleftrightarrow> ?f * 4096 \<le> x \<and> x < D \<and> x < (?f + ?l - 1 + 1) * 4096"
    unfolding req_length_ok(1)[OF assms] req_iofrom_def by (auto simp: min_def algebra_simps)
  also have "\<dots> \<longleftrightarrow> ?f \<le> x div 4096 \<and> x < D \<and> x div 4096 \<le> ?f + ?l - 1" by (simp only: div_4096_le_iff)
  also have "\<dots> \<longleftrightarrow> 0 \<le> x \<and> x < D \<and> nat (x div 4096) \<in> req_blocks r"
  proof (cases "0 \<le> x")
    case True
    then have d: "0 \<le> x div 4096" by simp
    define L where "L = unat (bindex_iolen r)"
    have "nat (x div 4096) \<in> {nat ?f..<nat ?f + L} \<longleftrightarrow> ?f \<le> x div 4096 \<and> x div 4096 \<le> ?f + int L - 1"
      unfolding atLeastLessThan_iff using f d by linarith
    with True show ?thesis unfolding req_blocks_def L_def by blast
  next
    case False
    then have "x div 4096 < 0" by simp
    with f False show ?thesis by auto
  qed
  finally show ?thesis .
qed

text \<open>What is sent for a request, and what the remote server answers from its disk.\<close>

definition hdr :: "int \<Rightarrow> remote_read_request \<Rightarrow> bytes" where
  "hdr D r = req_header NBD_CMD_READ (htonll myhandle) (req_iofrom r) (req_length D r)"

definition answer :: "int \<Rightarrow> mem \<Rightarrow> remote_read_request \<Rightarrow> bytes" where
  "answer D R r = fst (serve_spec R (ReadReq (htonll myhandle) (req_iofrom r) (req_length D r)))"

lemma length_hdr [simp]: "length (hdr D r) = 28"
  by (simp add: hdr_def req_header_def)

lemma send_reads_ok:
  "writable fd \<Longrightarrow> (\<And>r. r \<in> set rs \<Longrightarrow> req_ok D r) \<Longrightarrow> D < 9223372036854771712 \<Longrightarrow>
   \<exists>fd'. send_reads D rs fd = Inr (True, fd') \<and> writable fd' \<and> rx_part fd' = rx_part fd \<and>
     tx fd' = tx fd @ concat (map (hdr D) rs)"
proof (induction rs arbitrary: fd)
  case (Cons r rs)
  have ok: "req_ok D r" using Cons.prems(2) by simp
  note len = req_length_ok[OF ok Cons.prems(3)]
  have "req_length D r \<le> 0xFFFFFFFF" using len(3) by (simp add: word_le_def)
  then obtain fd1 where fd1: "nbd_client_send_read_request fd (req_iofrom r) (req_length D r) = Inr (0, fd1)" "writable fd1"
      "rx_part fd1 = rx_part fd" "tx fd1 = tx fd @ hdr D r"
    using send_request_header_ok[OF Cons.prems(1), of "req_length D r" "req_iofrom r" NBD_CMD_READ myhandle] len Cons.prems(3)
    by (auto simp: nbd_client_send_read_request_def hdr_def req_header_def)
  with Cons.IH[of fd1] Cons.prems show ?case by auto
qed simp

lemma recv_one_answer:
  assumes "wf_sock fd" and "req_ok D r" and "D < 9223372036854771712" and "pending fd = answer D R r @ rest"
  shows "\<exists>fd'. nbd_client_recv_read_reply m fd (Some a) (req_length D r) =
      Inr (0, poke m a (peek R (req_iofrom r) (unat (req_length D r))), fd') \<and>
    wf_sock fd' \<and> pending fd' = rest \<and> tx_part fd' = tx_part fd"
proof -
  let ?n = "unat (req_length D r)" and ?bs = "peek R (req_iofrom r) (unat (req_length D r))"
  note len = req_length_ok[OF assms(2,3)]
  have "int ?n = uint (req_length D r)" by simp
  then have n: "?n < 2147483648" using len(3) by linarith
  have p: "pending fd = enc_reply (ok_reply (htonll myhandle)) @ ?bs @ rest" using assms(4) by (simp add: answer_def)
  obtain fd1 where fd1: "nbd_client_recv_reply_header fd myhandle = (0, fd1)" "wf_sock fd1" "pending fd1 = ?bs @ rest"
      "tx_part fd1 = tx_part fd"
    using recv_reply_header_full[OF assms(1) p, of myhandle] by (auto simp: ok_reply_def ntohll_htonll)
  obtain segs where "net_iov_all True [\<lparr>iov_base = a, iov_len = ?n\<rparr>] 0 m fd1 0 =
      (int ?n, scatter m [\<lparr>iov_base = a, iov_len = ?n\<rparr>] (pending fd1), fd1\<lparr>rx := segs\<rparr>, 0)"
    and "concat segs = drop ?n (pending fd1)" and "[] \<notin> set segs"
    using net_iov_all_read_full[of "[\<lparr>iov_base = a, iov_len = ?n\<rparr>]" fd1 0 m 0] fd1 n by auto
  then have r: "net_readv_all_or_error m fd1 [\<lparr>iov_base = a, iov_len = ?n\<rparr>] 0 = (int ?n, poke m a ?bs, fd1\<lparr>rx := segs\<rparr>, 0)"
    and s: "wf_sock (fd1\<lparr>rx := segs\<rparr>)" "pending (fd1\<lparr>rx := segs\<rparr>) = rest" "tx_part (fd1\<lparr>rx := segs\<rparr>) = tx_part fd1"
    using fd1(3) n len(2,3) by (simp_all add: net_readv_all_or_error_def int32_id wf_sock_def pending_def tx_part_def)
  have "req_length D r \<le> 0xFFFFFFFF" using len(3) by (simp add: word_le_def)
  with fd1 r s show ?thesis
    by (intro exI[of _ "fd1\<lparr>rx := segs\<rparr>"]) (simp add: nbd_client_recv_read_reply_def nbd_client_recv_read_reply_iov_def)
qed

text \<open>Receiving all replies copies the fetched blocks of \<open>R\<close> into the cache.\<close>

definition fetch_into :: "int \<Rightarrow> mem \<Rightarrow> nat set \<Rightarrow> mem \<Rightarrow> mem" where
  "fetch_into D R F m = (\<lambda>x. if 0 \<le> x \<and> x < D \<and> nat (x div 4096) \<in> F then R x else m x)"

lemma poke_peek_fetch:
  assumes "req_ok D r" and "D < 9223372036854771712"
  shows "poke m (req_iofrom r) (peek R (req_iofrom r) (unat (req_length D r))) = fetch_into D R (req_blocks r) m"
proof
  fix x
  have "int (unat (req_length D r)) = uint (req_length D r)" by simp
  then have "nat (x - req_iofrom r) < unat (req_length D r)" if "req_iofrom r \<le> x" "x < req_iofrom r + uint (req_length D r)"
    using that by linarith
  with req_range[OF assms, of x]
  show "poke m (req_iofrom r) (peek R (req_iofrom r) (unat (req_length D r))) x = fetch_into D R (req_blocks r) m x"
    by (auto simp: poke_def fetch_into_def)
qed

lemma fetch_into_comp: "fetch_into D R F (fetch_into D R G m) = fetch_into D R (G \<union> F) m"
  by (auto simp: fetch_into_def fun_eq_iff)

lemma recv_reads_ok:
  "wf_sock fd \<Longrightarrow> (\<And>r. r \<in> set rs \<Longrightarrow> req_ok D r) \<Longrightarrow> D < 9223372036854771712 \<Longrightarrow> ba_iobuf mbr = Some (ba_iofrom mbr) \<Longrightarrow>
   pending fd = concat (map (answer D R) rs) @ rest \<Longrightarrow>
   \<exists>fd'. recv_reads D mbr rs m fd = Inr (True, fetch_into D R (fetched rs) m, fd') \<and> wf_sock fd' \<and> pending fd' = rest \<and>
     tx_part fd' = tx_part fd"
proof (induction rs arbitrary: fd m)
  case Nil
  then show ?case by (simp add: fetch_into_def)
next
  case (Cons r rs)
  have ok: "req_ok D r" using Cons.prems(2) by simp
  have p: "pending fd = answer D R r @ concat (map (answer D R) rs) @ rest" using Cons.prems(5) by simp
  obtain fd1 where fd1: "nbd_client_recv_read_reply m fd (Some (req_iofrom r)) (req_length D r) =
      Inr (0, fetch_into D R (req_blocks r) m, fd1)" "wf_sock fd1" "pending fd1 = concat (map (answer D R) rs) @ rest"
      "tx_part fd1 = tx_part fd"
    using recv_one_answer[OF Cons.prems(1) ok Cons.prems(3) p, of m "req_iofrom r"] poke_peek_fetch[OF ok Cons.prems(3)] by auto
  with Cons.IH[of fd1 "fetch_into D R (req_blocks r) m"] Cons.prems show ?case by (auto simp: fetch_into_comp)
qed

section \<open>Requests in the queues\<close>

text \<open>What a session enqueues: the end of the session, a request inside the disk, or a flush.\<close>

definition shape :: "int \<Rightarrow> proxy_priv \<Rightarrow> bool" where
  "shape D p \<longleftrightarrow> need_exit p \<or>
     iotype p \<in> {NBD_CMD_READ, NBD_CMD_WRITE, NBD_CMD_CACHE, NBD_CMD_TRIM} \<and> 0 \<le> iofrom p \<and> 0 < uint (iolen p) \<and>
       uint (iolen p) < 1073741824 \<and> iofrom p + uint (iolen p) \<le> D \<and>
       block_index_start p = get_bindex_sta 4096 (iofrom p) \<and> block_index_end p = get_bindex_end 4096 (iofrom p + uint (iolen p)) \<and>
       (iotype p = NBD_CMD_WRITE \<longrightarrow> (\<exists>b. write_buff p = Some b \<and> length b = unat (iolen p))) \<and>
       (iotype p = NBD_CMD_READ \<longrightarrow> read_buff p \<noteq> None) \<or>
     iotype p = NBD_CMD_FLUSH \<and> iofrom p = 0 \<and> iolen p = 0"

definition fresh_ok :: "int \<Rightarrow> proxy_priv \<Rightarrow> bool" where
  "fresh_ok D p \<longleftrightarrow> shape D p \<and> req p = [] \<and> \<not> prepare_done p \<and> \<not> need_retry p"

definition caches :: "proxy_priv \<Rightarrow> bool" where
  "caches p \<longleftrightarrow> \<not> need_exit p \<and> iotype p \<in> {NBD_CMD_READ, NBD_CMD_WRITE, NBD_CMD_CACHE}"

text \<open>The blocks that are valid in the cache once the request is completed.\<close>

definition touched :: "proxy_priv \<Rightarrow> nat set" where
  "touched p = (if caches p then {unat (block_index_start p)..unat (block_index_end p)} else {})"

text \<open>
  A prepared request, given the blocks \<open>V\<close> that are valid when it is completed: it fetches only blocks that are
  not valid, and the blocks it does not fetch are valid or completely overwritten.
\<close>

definition ok_priv :: "int \<Rightarrow> nat set \<Rightarrow> proxy_priv \<Rightarrow> bool" where
  "ok_priv D V p \<longleftrightarrow> shape D p \<and> \<not> need_retry p \<and> (\<forall>r \<in> set (req p). req_ok D r) \<and> fetched (req p) \<subseteq> touched p - V \<and>
     (\<not> caches p \<longrightarrow> req p = []) \<and> (caches p \<and> iotype p \<noteq> NBD_CMD_WRITE \<longrightarrow> fetched (req p) = touched p - V) \<and>
     (caches p \<and> iotype p = NBD_CMD_WRITE \<longrightarrow> (\<forall>x. 0 \<le> x \<and> x < D \<and> nat (x div 4096) \<in> touched p - V - fetched (req p) \<longrightarrow>
       iofrom p \<le> x \<and> x < iofrom p + uint (iolen p)))"

lemma shape_blocks:
  assumes "shape D p" and "caches p" and "D < 9223372036854771712"
  shows "unat (block_index_start p) = nat (iofrom p div 4096)"
    and "unat (block_index_end p) = nat ((iofrom p + uint (iolen p) - 1) div 4096)"
    and "unat (block_index_start p) \<le> unat (block_index_end p)"
    and "unat (block_index_end p) < unat (get_disk_nblocks D)"
    and "unat (block_index_end p) < 9223372036854775806"
    and "unat (block_index_end p) - unat (block_index_start p) \<le> 262145"
    and "int (unat (block_index_end p)) * 4096 < D"
proof -
  have p: "0 \<le> iofrom p" "0 < uint (iolen p)" "uint (iolen p) < 1073741824" "iofrom p + uint (iolen p) \<le> D"
    and i: "block_index_start p = get_bindex_sta 4096 (iofrom p)" "block_index_end p = get_bindex_end 4096 (iofrom p + uint (iolen p))"
    using assms(1,2) by (auto simp: shape_def caches_def)
  let ?e = "iofrom p + uint (iolen p)"
  show s: "unat (block_index_start p) = nat (iofrom p div 4096)" and e: "unat (block_index_end p) = nat ((?e - 1) div 4096)"
    using p assms(3) by (simp_all add: i bindex_sta_nat bindex_end_nat)
  show "unat (block_index_start p) \<le> unat (block_index_end p)" unfolding i using p assms(3) by (intro bindex_sta_le_end) auto
  show "unat (block_index_end p) < unat (get_disk_nblocks D)" unfolding i using p assms(3) by (intro bindex_end_bound) auto
  have d: "4096 * ((?e - 1) div 4096) \<le> ?e - 1" "0 \<le> (?e - 1) div 4096" "iofrom p < 4096 * (iofrom p div 4096) + 4096"
    using div_4096_bounds[of "?e - 1"] div_4096_bounds[of "iofrom p"] p by auto
  show "int (unat (block_index_end p)) * 4096 < D" "unat (block_index_end p) < 9223372036854775806"
    "unat (block_index_end p) - unat (block_index_start p) \<le> 262145"
    unfolding e s using d p assms(3) by linarith+
qed

lemma req_in_ok:
  assumes "shape D p" and "caches p" and "D < 9223372036854771712"
    and "req_in (unat (block_index_start p)) (Suc (unat (block_index_end p))) r"
  shows "req_ok D r"
proof -
  note b = shape_blocks[OF assms(1-3)]
  have "0 \<le> bindex_iofrom r" "0 < unat (bindex_iolen r)" "unat (block_index_start p) \<le> nat (bindex_iofrom r)"
    "nat (bindex_iofrom r) + unat (bindex_iolen r) \<le> Suc (unat (block_index_end p))" using assms(4) by (auto simp: req_in_def)
  with b(3,6,7) show ?thesis unfolding req_ok_def by linarith
qed

lemma req_in_fetched: "\<forall>r \<in> set rs. req_in a (Suc b) r \<Longrightarrow> fetched rs \<subseteq> {a..b}"
  by (force simp: fetched_def req_blocks_def req_in_def)

text \<open>A write that does not fetch a block covers it, or the block is marked.\<close>

lemma write_covers:
  assumes "shape D p" and "caches p" and "D < 9223372036854771712" and "0 \<le> x" and "x < D"
    and "nat (x div 4096) \<in> touched p - M - edge_fetches M p"
  shows "iofrom p \<le> x \<and> x < iofrom p + uint (iolen p)"
proof -
  note b = shape_blocks[OF assms(1-3)]
  let ?e = "iofrom p + uint (iolen p)"
  have p: "0 \<le> iofrom p" "0 < uint (iolen p)" using assms(1,2) by (auto simp: shape_def caches_def)
  have x0: "0 \<le> x div 4096" "0 \<le> iofrom p div 4096" "0 \<le> (?e - 1) div 4096" using assms(4) p by simp_all
  have lo: "iofrom p div 4096 \<le> x div 4096" and hi: "x div 4096 \<le> (?e - 1) div 4096"
    using assms(6) b(1,2) x0 by (auto simp: touched_def nat_le_eq_zle split: if_splits)
  have "iofrom p \<le> x"
  proof (rule ccontr)
    assume "\<not> iofrom p \<le> x"
    then have eq: "x div 4096 = iofrom p div 4096" using lo by (simp add: zdiv_mono1 order_antisym)
    then have "iofrom p mod 4096 \<noteq> 0" using \<open>\<not> iofrom p \<le> x\<close> div_4096_bounds[of x] mult_div_mod_eq[of 4096 "iofrom p"] by linarith
    with assms(6) eq b(1) show False by (auto simp: edge_fetches_def)
  qed
  moreover have "x < ?e"
  proof (rule ccontr)
    assume "\<not> x < ?e"
    then have eq: "x div 4096 = (?e - 1) div 4096" using hi by (simp add: zdiv_mono1 order_antisym)
    have "?e mod 4096 \<noteq> 0"
    proof
      assume "?e mod 4096 = 0"
      then have "(?e - 1) div 4096 = ?e div 4096 - 1" "?e = 4096 * (?e div 4096)" using div_4096_pred[of ?e] by auto
      with eq \<open>\<not> x < ?e\<close> div_4096_bounds[of x] show False by linarith
    qed
    with assms(6) eq b(2) show False by (auto simp: edge_fetches_def)
  qed
  ultimately show ?thesis ..
qed

lemma ok_priv_cong:
  "shape D (p\<lparr>seqnum := n, prepare_done := d, req := rs\<rparr>) = shape D p" "touched (p\<lparr>seqnum := n, prepare_done := d, req := rs\<rparr>) = touched p"
  "caches (p\<lparr>seqnum := n, prepare_done := d, req := rs\<rparr>) = caches p"
  by (simp_all add: shape_def touched_def caches_def)

lemma prepare_priv_ok:
  assumes "fresh_ok D p" and "\<not> need_exit p" and "0 \<le> D" and "D < 9223372036854771712"
    and "unat (get_disk_nblocks D) \<le> 64 * length (cbitmap proxy)" and "prepare_priv proxy p = Inr (proxy', p')"
  shows "\<exists>bm' st' n rs. proxy' = proxy\<lparr>cbitmap := bm', stat := st', fwd_counter := fwd_counter proxy + 1\<rparr> \<and>
    p' = p\<lparr>seqnum := n, prepare_done := True, req := rs\<rparr> \<and> length bm' = length (cbitmap proxy) \<and>
    marked bm' = marked (cbitmap proxy) \<union> touched p \<and> ok_priv D (marked (cbitmap proxy)) p'"
proof -
  have sh: "shape D p" "req p = []" "\<not> prepare_done p" "\<not> need_retry p" using assms(1) by (auto simp: fresh_ok_def)
  let ?bm = "cbitmap proxy" and ?st = "stat proxy"
  show ?thesis
  proof (cases "caches p")
    case False
    then have "iotype p \<noteq> 0" "iotype p \<noteq> 1" "iotype p \<noteq> 5" using assms(2) by (auto simp: caches_def)
    then have "proxy' = proxy\<lparr>cbitmap := ?bm, stat := ?st, fwd_counter := fwd_counter proxy + 1\<rparr>"
      "p' = p\<lparr>seqnum := fwd_counter proxy, prepare_done := True, req := []\<rparr>" using assms(6) sh by (auto simp: prepare_priv_def)
    with False sh show ?thesis
      by (intro exI[of _ ?bm] exI[of _ ?st] exI[of _ "fwd_counter proxy"] exI[of _ "[]"]) (simp add: ok_priv_def ok_priv_cong touched_def)
  next
    case True
    note b = shape_blocks[OF sh(1) True assms(4)]
    have cap: "unat (block_index_end p) < 64 * length ?bm" using b(4) assms(5) by simp
    have t: "touched p = {unat (block_index_start p)..unat (block_index_end p)}" using True by (simp add: touched_def)
    obtain bm' q st' where prep: "(if iotype p = 1 then prepare_write_priv (?bm, p, ?st) else prepare_read_priv (?bm, p, ?st)) = Inr (bm', q, st')"
      and res: "proxy' = proxy\<lparr>cbitmap := bm', stat := st', fwd_counter := fwd_counter proxy + 1\<rparr>"
      "p' = q\<lparr>seqnum := fwd_counter proxy, prepare_done := True\<rparr>"
      using assms(6) sh(3) True by (auto simp: prepare_priv_def caches_def bindE_eq_Inr split: if_splits)
    have plan: "length bm' = length ?bm \<and> marked bm' = marked ?bm \<union> touched p \<and> q = p\<lparr>req := req q\<rparr> \<and>
      (\<forall>r \<in> set (req q). req_in (unat (block_index_start p)) (Suc (unat (block_index_end p))) r) \<and>
      fetched (req q) = (if iotype p = 1 then edge_fetches (marked ?bm) p else touched p - marked ?bm)"
    proof (cases "iotype p = 1")
      case True
      have "iofrom p + uint (iolen p) < 9223372036854775808" "0 \<le> iofrom p"
        using sh(1) \<open>caches p\<close> assms(4) by (auto simp: shape_def caches_def)
      from write_plan[OF sh(2) cap b(5,3) this(2,1), of ?st] prep True t show ?thesis by auto
    next
      case False
      with prep have "prepare_read_priv (?bm, p, ?st) = Inr (bm', q, st')" by simp
      from read_plan_sound[OF sh(2) cap b(5,3) this] False t show ?thesis
        by (simp add: plan_inv_def atLeastLessThanSuc_atLeastAtMost)
    qed
    have reqs: "\<forall>r \<in> set (req q). req_ok D r" using plan req_in_ok[OF sh(1) True assms(4)] by blast
    have sub: "fetched (req q) \<subseteq> touched p - marked ?bm"
      using plan b(3) t by (auto simp: edge_fetches_def split: if_splits)
    have p': "p' = p\<lparr>seqnum := fwd_counter proxy, prepare_done := True, req := req q\<rparr>" using res(2) plan by (metis proxy_priv.update_convs(3,13,14) proxy_priv.surjective)
    have cov: "\<forall>x. 0 \<le> x \<and> x < D \<and> nat (x div 4096) \<in> touched p - marked ?bm - edge_fetches (marked ?bm) p \<longrightarrow>
        iofrom p \<le> x \<and> x < iofrom p + uint (iolen p)" using write_covers[OF sh(1) True assms(4)] by blast
    have "ok_priv D (marked ?bm) p'"
      unfolding p' ok_priv_def ok_priv_cong using sh True reqs sub plan cov by simp
    with plan res(1) p' show ?thesis by blast
  qed
qed

text \<open>Preparing a request keeps what it asks for.\<close>

definition same_request :: "proxy_priv \<Rightarrow> proxy_priv \<Rightarrow> bool" where
  "same_request p p' \<longleftrightarrow> sid p' = sid p \<and> need_exit p' = need_exit p \<and> iotype p' = iotype p \<and> iofrom p' = iofrom p \<and> iolen p' = iolen p \<and>
     reply p' = reply p \<and> write_buff p' = write_buff p"

lemma tx_round_ok:
  assumes "fwd_tx_queue proxy = Priv p # xs" and "fresh_ok D p" and "disksize proxy = D" and "0 \<le> D" and "D < 9223372036854771712"
    and "unat (get_disk_nblocks D) \<le> 64 * length (cbitmap proxy)" and "writable (remotefd proxy)" and "\<not> sending_failed proxy"
    and "forwarder_tx_round proxy = Inr (go, proxy')"
  shows "\<exists>bm' st' c' fd' p'. go \<and> proxy' = proxy\<lparr>fwd_tx_queue := xs, fwd_rx_queue := fwd_rx_queue proxy @ [Priv p'], cbitmap := bm', stat := st',
      fwd_counter := c', remotefd := fd'\<rparr> \<and> length bm' = length (cbitmap proxy) \<and> marked bm' = marked (cbitmap proxy) \<union> touched p' \<and>
    ok_priv D (marked (cbitmap proxy)) p' \<and> writable fd' \<and> rx_part fd' = rx_part (remotefd proxy) \<and>
    tx fd' = tx (remotefd proxy) @ concat (map (hdr D) (req p')) \<and> same_request p p'"
proof (cases "need_exit p")
  case True
  then have "go" "proxy' = proxy\<lparr>fwd_tx_queue := xs, fwd_rx_queue := fwd_rx_queue proxy @ [Priv p], cbitmap := cbitmap proxy, stat := stat proxy,
      fwd_counter := fwd_counter proxy, remotefd := remotefd proxy\<rparr>"
    using assms(1,9) by (auto simp: forwarder_tx_round_def Let_def)
  moreover have "ok_priv D (marked (cbitmap proxy)) p" "touched p = {}" "req p = []"
    using True assms(2) by (auto simp: ok_priv_def fresh_ok_def touched_def caches_def shape_def)
  ultimately show ?thesis using assms(7)
    by (intro exI[of _ "cbitmap proxy"] exI[of _ "stat proxy"] exI[of _ "fwd_counter proxy"] exI[of _ "remotefd proxy"] exI[of _ p]) (auto simp: same_request_def)
next
  case False
  let ?px = "proxy\<lparr>fwd_tx_queue := xs\<rparr>"
  obtain px1 p' where prep: "prepare_priv ?px p = Inr (px1, p')"
    using assms(1,9) False by (auto simp: forwarder_tx_round_def Let_def bindE_eq_Inr)
  from prepare_priv_ok[OF assms(2) False assms(4,5) _ prep] assms(6) obtain bm' st' n rs where
    px1: "px1 = ?px\<lparr>cbitmap := bm', stat := st', fwd_counter := fwd_counter ?px + 1\<rparr>"
    and p': "p' = p\<lparr>seqnum := n, prepare_done := True, req := rs\<rparr>" and bm': "length bm' = length (cbitmap proxy)"
    "marked bm' = marked (cbitmap proxy) \<union> touched p" and ok: "ok_priv D (marked (cbitmap proxy)) p'" by auto
  have "\<And>r. r \<in> set (req p') \<Longrightarrow> req_ok D r" using ok by (simp add: ok_priv_def)
  then obtain fd' where fd': "send_reads D (req p') (remotefd proxy) = Inr (True, fd')" "writable fd'"
      "rx_part fd' = rx_part (remotefd proxy)" "tx fd' = tx (remotefd proxy) @ concat (map (hdr D) (req p'))"
    using send_reads_ok[OF assms(7), of "req p'" D] assms(5) by auto
  have t: "touched p' = touched p" "same_request p p'" using p' by (simp_all add: ok_priv_cong same_request_def)
  have "go \<and> proxy' = proxy\<lparr>fwd_tx_queue := xs, fwd_rx_queue := fwd_rx_queue proxy @ [Priv p'], cbitmap := bm', stat := st',
      fwd_counter := fwd_counter proxy + 1, remotefd := fd'\<rparr>"
    using assms(1,3,8,9) False prep px1 fd'(1) by (auto simp: forwarder_tx_round_def Let_def bindE_eq_Inr)
  with bm' ok fd' t show ?thesis by blast
qed

end
