(* ===== verification/Proxy_Machine.thy ===== *)
theory Proxy_Machine
  imports Proxy_Refinement
begin

text \<open>
  The receive thread completes requests on the disk the client sees, and the machine of all
  interleavings of sessions, forwarder threads and remote server keeps this: its invariant and the
  refinement of a sequential disk.
\<close>

section \<open>The disk the clients see\<close>

definition view :: "int \<Rightarrow> mem \<Rightarrow> nat set \<Rightarrow> mem \<Rightarrow> mem" where
  "view D R V c = (\<lambda>x. if 0 \<le> x \<and> x < D then if nat (x div 4096) \<in> V then c x else R x else 0)"

text \<open>
  What completing a request means for a sequential disk \<open>A\<close>: a read returns its bytes, a write replaces
  them, a trim may zero bytes of its range, and the other requests change nothing.
\<close>

definition completes :: "proxy_priv \<Rightarrow> proxy_priv \<Rightarrow> mem \<Rightarrow> mem \<Rightarrow> bool" where
  "completes p p' A A' \<longleftrightarrow>
     (if need_exit p then p' = p \<and> A' = A
      else if iotype p = NBD_CMD_READ then p' = p\<lparr>read_buff := Some (peek A (iofrom p) (unat (iolen p)))\<rparr> \<and> A' = A
      else if iotype p = NBD_CMD_WRITE then p' = p \<and> (\<exists>b. write_buff p = Some b \<and> A' = poke A (iofrom p) b)
      else if iotype p = NBD_CMD_TRIM then p' = p \<and> (\<forall>x. A' x = A x \<or> iofrom p \<le> x \<and> x < iofrom p + uint (iolen p) \<and> A' x = 0)
      else p' = p \<and> A' = A)"

lemma in_touched:
  assumes "shape D p" and "caches p" and "D < 9223372036854771712" and "iofrom p \<le> x" and "x < iofrom p + uint (iolen p)"
  shows "nat (x div 4096) \<in> touched p" and "0 \<le> x" and "x < D"
proof -
  have p: "0 \<le> iofrom p" "0 < uint (iolen p)" "iofrom p + uint (iolen p) \<le> D" using assms(1,2) by (auto simp: shape_def caches_def)
  show "0 \<le> x" "x < D" using p assms(4,5) by auto
  have "iofrom p div 4096 \<le> x div 4096" "x div 4096 \<le> (iofrom p + uint (iolen p) - 1) div 4096"
    using assms(4,5) by (auto intro: zdiv_mono1)
  with shape_blocks(1,2)[OF assms(1-3)] assms(2) show "nat (x div 4096) \<in> touched p" by (auto simp: touched_def nat_mono)
qed

lemma view_fetch:
  assumes "F \<subseteq> T - V" and "\<And>x. 0 \<le> x \<Longrightarrow> x < D \<Longrightarrow> nat (x div 4096) \<in> T - V - F \<Longrightarrow> c' x = A x"
    and "\<And>x. 0 \<le> x \<Longrightarrow> x < D \<Longrightarrow> nat (x div 4096) \<in> V \<union> F \<Longrightarrow> c' x = A x"
    and "\<And>x. 0 \<le> x \<Longrightarrow> x < D \<Longrightarrow> nat (x div 4096) \<notin> V \<union> T \<Longrightarrow> R x = A x" and "\<And>x. \<not> (0 \<le> x \<and> x < D) \<Longrightarrow> A x = 0"
  shows "view D R (V \<union> T) c' = A"
proof
  fix x
  show "view D R (V \<union> T) c' x = A x"
    using assms(2-5)[of x] by (cases "0 \<le> x \<and> x < D") (auto simp: view_def)
qed

lemma read_completes:
  assumes "ok_priv D V p" and "caches p" and "iotype p \<noteq> NBD_CMD_WRITE" and "D < 9223372036854771712"
  shows "view D R (V \<union> touched p) (fetch_into D R (fetched (req p)) c) = view D R V c"
    and "peek (fetch_into D R (fetched (req p)) c) (iofrom p) (unat (iolen p)) = peek (view D R V c) (iofrom p) (unat (iolen p))"
proof -
  have f: "fetched (req p) = touched p - V" and sh: "shape D p" using assms(1-3) by (auto simp: ok_priv_def)
  show "view D R (V \<union> touched p) (fetch_into D R (fetched (req p)) c) = view D R V c"
    by (rule view_fetch[of "fetched (req p)"]) (auto simp: f fetch_into_def view_def)
  show "peek (fetch_into D R (fetched (req p)) c) (iofrom p) (unat (iolen p)) = peek (view D R V c) (iofrom p) (unat (iolen p))"
    using in_touched[OF sh assms(2,4)] f by (intro peek_cong) (auto simp: fetch_into_def view_def)
qed

lemma write_completes:
  assumes "ok_priv D V p" and "caches p" and "iotype p = NBD_CMD_WRITE" and "D < 9223372036854771712" and "write_buff p = Some b"
    and "length b = unat (iolen p)"
  shows "view D R (V \<union> touched p) (poke (fetch_into D R (fetched (req p)) c) (iofrom p) b) = poke (view D R V c) (iofrom p) b"
proof (rule view_fetch[of "fetched (req p)"])
  have sh: "shape D p" and sub: "fetched (req p) \<subseteq> touched p - V"
    and cov: "\<And>x. 0 \<le> x \<Longrightarrow> x < D \<Longrightarrow> nat (x div 4096) \<in> touched p - V - fetched (req p) \<Longrightarrow> iofrom p \<le> x \<and> x < iofrom p + uint (iolen p)"
    using assms(1-3) by (auto simp: ok_priv_def)
  have len: "int (length b) = uint (iolen p)" using assms(6) by simp
  have p: "0 \<le> iofrom p" "iofrom p + uint (iolen p) \<le> D" using sh assms(2) by (auto simp: shape_def caches_def)
  show "fetched (req p) \<subseteq> touched p - V" by (rule sub)
  fix x
  show "poke (fetch_into D R (fetched (req p)) c) (iofrom p) b x = poke (view D R V c) (iofrom p) b x"
    if "0 \<le> x" "x < D" "nat (x div 4096) \<in> touched p - V - fetched (req p)"
    using cov[OF that] len by (auto simp: poke_def)
  show "poke (fetch_into D R (fetched (req p)) c) (iofrom p) b x = poke (view D R V c) (iofrom p) b x"
    if "0 \<le> x" "x < D" "nat (x div 4096) \<in> V \<union> fetched (req p)"
    using that sub by (auto simp: poke_def fetch_into_def view_def)
  show "R x = poke (view D R V c) (iofrom p) b x" if "0 \<le> x" "x < D" "nat (x div 4096) \<notin> V \<union> touched p"
    using that in_touched(1)[OF sh assms(2,4), of x] len by (auto simp: poke_def view_def)
  show "poke (view D R V c) (iofrom p) b x = 0" if "\<not> (0 \<le> x \<and> x < D)"
    using that p len by (auto simp: poke_def view_def)
qed

lemma trim_completes:
  "\<forall>x. view D R V (punch_hole ok c f (uint len)) x = view D R V c x \<or>
     f \<le> x \<and> x < f + uint len \<and> view D R V (punch_hole ok c f (uint len)) x = 0"
proof
  fix x
  have "poke c f (replicate (nat (uint len)) 0) x = c x \<or> f \<le> x \<and> x < f + uint len \<and> poke c f (replicate (nat (uint len)) 0) x = 0"
  proof -
    have "nat (x - f) < nat (uint len)" if "f \<le> x" "x < f + uint len" using that by linarith
    then show ?thesis by (auto simp: poke_def)
  qed
  then show "view D R V (punch_hole ok c f (uint len)) x = view D R V c x \<or>
     f \<le> x \<and> x < f + uint len \<and> view D R V (punch_hole ok c f (uint len)) x = 0"
    by (auto simp: view_def punch_hole_def)
qed

section \<open>A round of the receive thread\<close>

definition rx_kernel_ok :: "int \<Rightarrow> rxkern \<Rightarrow> bool" where
  "rx_kernel_ok D k \<longleftrightarrow> mmap_works (rk_mmap k) D False \<and> rk_munmap k \<and> rk_fsync k \<and> rk_msync k"

lemma mmap_empty: "0 \<le> D \<Longrightarrow> mmap_block_region_create kern D 0 0 ro =
    Inr \<lparr>mbr_mr = \<lparr>mmap_buf = None, mmap_len = 0, mr_iobuf = None\<rparr>, ba_iobuf = None, mbr_iobuf = None, ba_iofrom = 0\<rparr>"
proof -
  have "and 4095 (- 4096) = (0 :: u64)" using and_not_4095_word[of 4095] by simp
  then show "0 \<le> D \<Longrightarrow> ?thesis" by (simp add: mmap_block_region_create_def mmap_region_create_def Let_def)
qed

lemma mapped_region:
  assumes "ok_priv D V p" and "\<not> need_exit p" and "0 \<le> D" and "D < 9223372036854771712" and "rx_kernel_ok D k"
  obtains mbr where "mmap_block_region_create (rk_mmap k) D (iofrom p) (iolen p) False = Inr mbr"
    and "req p \<noteq> [] \<longrightarrow> ba_iobuf mbr = Some (ba_iofrom mbr)" and "iotype p \<noteq> NBD_CMD_FLUSH \<longrightarrow> mbr_iobuf mbr = Some (iofrom p)"
    and "\<exists>u. mmap_block_region_free (rk_munmap k) mbr = Inr u"
proof (cases "iotype p = NBD_CMD_FLUSH")
  case True
  then have "iofrom p = 0" "iolen p = 0" "req p = []" using assms(1,2) by (auto simp: ok_priv_def shape_def caches_def)
  with True that show thesis by (simp add: mmap_empty[OF assms(3)] mmap_block_region_free_def mmap_region_free_def)
next
  case False
  then have "0 \<le> iofrom p" "0 < uint (iolen p)" "iofrom p + uint (iolen p) \<le> D"
    using assms(1,2) by (auto simp: ok_priv_def shape_def)
  with mmap_block_region_create_ok[of "rk_mmap k" D False "iofrom p" "iolen p"] assms(4,5) that False show thesis
    by (auto simp: rx_kernel_ok_def mmap_block_region_free_def mmap_region_free_def)
qed

lemma complete_priv_ok:
  assumes "ok_priv D V p" and "\<not> need_exit p" and "D < 9223372036854771712" and "rx_kernel_ok D k"
    and "iotype p \<noteq> NBD_CMD_FLUSH \<longrightarrow> a = iofrom p"
  shows "\<exists>p' m'. complete_priv k a p (fetch_into D R (fetched (req p)) c) = Inr (p', m') \<and> need_retry p' = need_retry p \<and> sid p' = sid p \<and>
    completes p p' (view D R V c) (view D R (V \<union> touched p) m')"
proof -
  have sh: "shape D p" using assms(1) by (simp add: ok_priv_def)
  have nocache: "fetch_into D R (fetched (req p)) c = c" "touched p = {}" if "\<not> caches p"
    using that assms(1) by (auto simp: ok_priv_def fetch_into_def touched_def)
  from sh assms(2) consider "iotype p = 0" | "iotype p = 1" | "iotype p = 5" | "iotype p = 4" | "iotype p = 3" by (auto simp: shape_def)
  then show ?thesis
  proof cases
    case 1
    then have c: "caches p" using assms(2) by (simp add: caches_def)
    obtain b where "read_buff p = Some b" using 1 sh assms(2) by (auto simp: shape_def)
    with 1 read_completes[OF assms(1) c _ assms(3), of R c] assms(2,5) show ?thesis by (simp add: complete_priv_def completes_def)
  next
    case 2
    then have c: "caches p" using assms(2) by (simp add: caches_def)
    obtain b where b: "write_buff p = Some b" "length b = unat (iolen p)" using 2 sh assms(2) by (auto simp: shape_def)
    with 2 write_completes[OF assms(1) c _ assms(3), of b R c] assms(2,5) show ?thesis by (simp add: complete_priv_def completes_def)
  next
    case 3
    then have c: "caches p" using assms(2) by (simp add: caches_def)
    with 3 read_completes[OF assms(1) c _ assms(3), of R c] assms(2) show ?thesis by (simp add: complete_priv_def completes_def)
  next
    case 4
    then have "\<not> caches p" by (simp add: caches_def)
    with 4 nocache trim_completes[of D R V "rk_fallocate k" c "iofrom p" "iolen p"] assms(2) show ?thesis
      by (simp add: complete_priv_def completes_def)
  next
    case 5
    then have "\<not> caches p" by (simp add: caches_def)
    with 5 nocache assms(2,4) show ?thesis by (simp add: complete_priv_def completes_def rx_kernel_ok_def)
  qed
qed

lemma rx_round_ok:
  assumes "fwd_rx_queue proxy = Priv p # xs" and "ok_priv D V p" and "disksize proxy = D" and "0 \<le> D" and "D < 9223372036854771712"
    and "wf_sock (remotefd proxy)" and "pending (remotefd proxy) = concat (map (answer D R) (req p)) @ rest"
    and "\<not> receiving_failed proxy" and "rx_kernel_ok D k"
  shows "\<exists>fd' m' p'. forwarder_rx_thread_mainloop k proxy = Inr (0, proxy\<lparr>fwd_rx_queue := xs, remotefd := fd', cache := m', receiving_failed := False,
      reply_queue := (reply_queue proxy)(sid p := reply_queue proxy (sid p) @ [p'])\<rparr>) \<and> wf_sock fd' \<and> pending fd' = rest \<and>
    tx_part fd' = tx_part (remotefd proxy) \<and> completes p p' (view D R V (cache proxy)) (view D R (V \<union> touched p) m')"
proof (cases "need_exit p")
  case True
  then have "req p = []" "touched p = {}" using assms(2) by (auto simp: ok_priv_def touched_def caches_def)
  with True assms show ?thesis
    by (intro exI[of _ "remotefd proxy"] exI[of _ "cache proxy"] exI[of _ p]) (simp add: forwarder_rx_thread_mainloop_def Let_def completes_def)
next
  case False
  obtain mbr where mbr: "mmap_block_region_create (rk_mmap k) D (iofrom p) (iolen p) False = Inr mbr"
    "req p \<noteq> [] \<longrightarrow> ba_iobuf mbr = Some (ba_iofrom mbr)" "iotype p \<noteq> 3 \<longrightarrow> mbr_iobuf mbr = Some (iofrom p)"
    "\<exists>u. mmap_block_region_free (rk_munmap k) mbr = Inr u"
    using mapped_region[OF assms(2) False assms(4,5,9)] by blast
  have ok: "\<And>r. r \<in> set (req p) \<Longrightarrow> req_ok D r" and nr: "\<not> need_retry p" using assms(2) by (auto simp: ok_priv_def)
  have "\<exists>fd'. recv_reads D mbr (req p) (cache proxy) (remotefd proxy) = Inr (True, fetch_into D R (fetched (req p)) (cache proxy), fd') \<and>
      wf_sock fd' \<and> pending fd' = rest \<and> tx_part fd' = tx_part (remotefd proxy)"
  proof (cases "req p = []")
    case True
    with assms(6,7) show ?thesis by (simp add: fetch_into_def)
  next
    case False
    with mbr(2) show ?thesis by (intro recv_reads_ok[OF assms(6) ok assms(5) _ assms(7)]) auto
  qed
  then obtain fd' where fd': "recv_reads D mbr (req p) (cache proxy) (remotefd proxy) = Inr (True, fetch_into D R (fetched (req p)) (cache proxy), fd')"
    "wf_sock fd'" "pending fd' = rest" "tx_part fd' = tx_part (remotefd proxy)" by blast
  have "iotype p \<noteq> 3 \<longrightarrow> (case mbr_iobuf mbr of None \<Rightarrow> 0 | Some a \<Rightarrow> a) = iofrom p" using mbr(3) by auto
  from complete_priv_ok[OF assms(2) False assms(5,9) this, of R "cache proxy"] obtain p' m' where
    c: "complete_priv k (case mbr_iobuf mbr of None \<Rightarrow> 0 | Some a \<Rightarrow> a) p (fetch_into D R (fetched (req p)) (cache proxy)) = Inr (p', m')"
    "need_retry p' = need_retry p" "sid p' = sid p" "completes p p' (view D R V (cache proxy)) (view D R (V \<union> touched p) m')" by blast
  then show ?thesis using assms(1,3,8) False mbr(1,4) fd' nr
    by (intro exI[of _ fd'] exI[of _ m'] exI[of _ p']) (auto simp: forwarder_rx_thread_mainloop_def Let_def)
qed

section \<open>The machine\<close>

text \<open>
  The proxy together with two history variables: the blocks whose cached data is valid for the next
  request the receive thread takes, and how many read requests the remote server has answered.
\<close>

record machine =
  px :: xnbd_proxy
  valid :: "nat set"
  answered :: nat

datatype event = Enqueue proxy_priv | TxRound | RemoteAnswer | RxRound proxy_priv

text \<open>The remote server reads the next header of what the proxy sent and answers from its disk.\<close>

definition remote_answer :: "mem \<Rightarrow> machine \<Rightarrow> bytes" where
  "remote_answer R g =
     (let q = dec_request (take 28 (drop (28 * answered g) (tx (remotefd (px g)))))
      in fst (serve_spec R (ReadReq (rq_handle q) (sint (ntohll (rq_from q))) (ucast (ntohl (rq_len q))))))"

text \<open>
  A round of the receive thread is taken when the replies it waits for have arrived: \<open>readv\<close> blocks until then.
\<close>

definition replies_arrived :: "xnbd_proxy \<Rightarrow> proxy_priv \<Rightarrow> bool" where
  "replies_arrived x p \<longleftrightarrow>
     (\<Sum>r\<leftarrow>req p. 16 + unat (req_length (disksize x) r)) \<le> length (pending (remotefd x))"

inductive step :: "mem \<Rightarrow> machine \<Rightarrow> event \<Rightarrow> machine \<Rightarrow> bool" for R where
  enqueue: "fresh_ok (disksize (px g)) p \<Longrightarrow>
    step R g (Enqueue p) (g\<lparr>px := (px g)\<lparr>fwd_tx_queue := fwd_tx_queue (px g) @ [Priv p]\<rparr>\<rparr>)"
| tx_round: "fwd_tx_queue (px g) \<noteq> [] \<Longrightarrow> forwarder_tx_round (px g) = Inr (go, x) \<Longrightarrow>
    step R g TxRound (g\<lparr>px := x\<rparr>)"
| remote: "28 * Suc (answered g) \<le> length (tx (remotefd (px g))) \<Longrightarrow>
    step R g RemoteAnswer (g\<lparr>px := (px g)\<lparr>remotefd := (remotefd (px g))\<lparr>rx := rx (remotefd (px g)) @ [remote_answer R g]\<rparr>\<rparr>,
      answered := Suc (answered g)\<rparr>)"
| rx_round: "fwd_rx_queue (px g) = Priv p # xs \<Longrightarrow> replies_arrived (px g) p \<Longrightarrow> rx_kernel_ok (disksize (px g)) k \<Longrightarrow>
    forwarder_rx_thread_mainloop k (px g) = Inr (ret, x) \<Longrightarrow>
    step R g (RxRound p) (g\<lparr>px := x, valid := valid g \<union> touched p\<rparr>)"

inductive_cases enqueueE: "step R g (Enqueue p) g'"
inductive_cases tx_roundE: "step R g TxRound g'"
inductive_cases remoteE: "step R g RemoteAnswer g'"
inductive_cases rx_roundE: "step R g (RxRound p) g'"

section \<open>The invariant\<close>

text \<open>The prepared requests, each against the blocks valid when its turn comes.\<close>

fun ok_queue :: "int \<Rightarrow> nat set \<Rightarrow> proxy_priv list \<Rightarrow> bool" where
  "ok_queue D V [] = True"
| "ok_queue D V (p # ps) = (ok_priv D V p \<and> ok_queue D (V \<union> touched p) ps)"

definition all_touched :: "proxy_priv list \<Rightarrow> nat set" where
  "all_touched ps = (\<Union>p \<in> set ps. touched p)"

lemma all_touched_simps [simp]: "all_touched [] = {}" "all_touched (p # ps) = touched p \<union> all_touched ps"
    "all_touched (ps @ qs) = all_touched ps \<union> all_touched qs"
  by (auto simp: all_touched_def)

lemma ok_queue_append: "ok_queue D V (ps @ [p]) \<longleftrightarrow> ok_queue D V ps \<and> ok_priv D (V \<union> all_touched ps) p"
  by (induction ps arbitrary: V) (auto simp: Un_assoc)

lemma ok_queue_reqs: "ok_queue D V ps \<Longrightarrow> r \<in> set (concat (map req ps)) \<Longrightarrow> req_ok D r"
  by (induction ps arbitrary: V) (auto simp: ok_priv_def)

text \<open>
  \<open>outs\<close> are the read requests that were sent and whose replies the receive thread has not taken; the
  first \<open>k\<close> of them are answered and their answers are what is pending on the connection.
\<close>

definition remote_inv :: "mem \<Rightarrow> int \<Rightarrow> sock \<Rightarrow> nat \<Rightarrow> remote_read_request list \<Rightarrow> bool" where
  "remote_inv R D fd n outs \<longleftrightarrow> wf_sock fd \<and> writable fd \<and>
     (\<exists>before k. tx fd = concat (map (hdr D) (before @ outs)) \<and> n = length before + k \<and> k \<le> length outs \<and>
       pending fd = concat (map (answer D R) (take k outs)))"

definition machine_inv :: "mem \<Rightarrow> int \<Rightarrow> machine \<Rightarrow> bool" where
  "machine_inv R D g \<longleftrightarrow> disksize (px g) = D \<and> \<not> sending_failed (px g) \<and> \<not> receiving_failed (px g) \<and>
     unat (get_disk_nblocks D) \<le> 64 * length (cbitmap (px g)) \<and>
     (\<exists>fs ps. fwd_tx_queue (px g) = map Priv fs \<and> list_all (fresh_ok D) fs \<and> fwd_rx_queue (px g) = map Priv ps \<and>
       ok_queue D (valid g) ps \<and> marked (cbitmap (px g)) = valid g \<union> all_touched ps \<and>
       remote_inv R D (remotefd (px g)) (answered g) (concat (map req ps)))"

lemma nth_header: "n < length rs \<Longrightarrow> take 28 (drop (28 * n) (concat (map (hdr D) rs))) = hdr D (rs ! n)"
proof (induction rs arbitrary: n)
  case (Cons r rs)
  show ?case
  proof (cases n)
    case (Suc m)
    with Cons show ?thesis by simp
  qed simp
qed simp

lemma length_headers: "length (concat (map (hdr D) rs)) = 28 * length rs"
  by (induction rs) auto

lemma length_answer: "length (answer D R r) = 16 + unat (req_length D r)"
  by (simp add: answer_def)

lemma answer_of_header:
  assumes "req_ok D r" and "D < 9223372036854771712"
  shows "(let q = dec_request (hdr D r) in
      fst (serve_spec R (ReadReq (rq_handle q) (sint (ntohll (rq_from q))) (ucast (ntohl (rq_len q)))))) = answer D R r"
proof -
  note len = req_length_ok[OF assms]
  have "req_length D r \<le> 0xFFFFFFFF" using len(3) by (simp add: word_le_def)
  moreover have "sint (word_of_int (req_iofrom r) :: u64) = req_iofrom r" using len assms(2) by (intro sint_of_small) linarith+
  ultimately show ?thesis by (simp add: hdr_def req_header_def answer_def ucast_ucast_u32)
qed

lemma remote_inv_tx:
  assumes "remote_inv R D fd n outs" and "writable fd'" and "rx_part fd' = rx_part fd" and "tx fd' = tx fd @ concat (map (hdr D) rs)"
  shows "remote_inv R D fd' n (outs @ rs)"
proof -
  from assms(1) obtain bef k where i: "tx fd = concat (map (hdr D) (bef @ outs))" "n = length bef + k" "k \<le> length outs"
    "pending fd = concat (map (answer D R) (take k outs))" "wf_sock fd" by (auto simp: remote_inv_def)
  have "wf_sock fd'" "pending fd' = pending fd" using assms(3) i(5) by (auto simp: wf_sock_def pending_def rx_part_def)
  moreover have "take k (outs @ rs) = take k outs" using i(3) by simp
  ultimately show ?thesis unfolding remote_inv_def using assms(2,4) i
    by (intro conjI exI[of _ bef] exI[of _ k]) (simp_all del: take_append)
qed

lemma remote_inv_answer:
  assumes "remote_inv R D fd n outs" and "28 * Suc n \<le> length (tx fd)" and "\<And>r. r \<in> set outs \<Longrightarrow> req_ok D r" and "D < 9223372036854771712"
  defines "q \<equiv> dec_request (take 28 (drop (28 * n) (tx fd)))"
  shows "remote_inv R D (fd\<lparr>rx := rx fd @ [fst (serve_spec R (ReadReq (rq_handle q) (sint (ntohll (rq_from q))) (ucast (ntohl (rq_len q)))))]\<rparr>)
    (Suc n) outs"
proof -
  from assms(1) obtain bef k where i: "tx fd = concat (map (hdr D) (bef @ outs))" "n = length bef + k" "k \<le> length outs"
    "pending fd = concat (map (answer D R) (take k outs))" "wf_sock fd" "writable fd" by (auto simp: remote_inv_def)
  have k: "k < length outs" using assms(2) i(1,2) by (simp add: length_headers)
  then have "take 28 (drop (28 * n) (tx fd)) = hdr D (outs ! k)"
    unfolding i(1) using nth_header[of n "bef @ outs" D] i(2) by (simp add: nth_append)
  then have a: "fst (serve_spec R (ReadReq (rq_handle q) (sint (ntohll (rq_from q))) (ucast (ntohl (rq_len q))))) = answer D R (outs ! k)"
    unfolding q_def using answer_of_header[OF assms(3)[OF nth_mem[OF k]] assms(4), of R] by (simp add: Let_def)
  have "answer D R (outs ! k) \<noteq> []" using length_answer[of D R "outs ! k"] by (metis add_is_0 list.size(3) zero_neq_numeral)
  then show ?thesis unfolding remote_inv_def a using i k
    by (intro conjI exI[of _ bef] exI[of _ "Suc k"]) (auto simp: wf_sock_def writable_def pending_def take_Suc_conv_app_nth)
qed

lemma remote_inv_rx:
  assumes "remote_inv R D fd n (rs @ outs)" and "(\<Sum>r\<leftarrow>rs. 16 + unat (req_length D r)) \<le> length (pending fd)"
  obtains rest where "pending fd = concat (map (answer D R) rs) @ rest" and "wf_sock fd"
    and "\<And>fd'. wf_sock fd' \<Longrightarrow> pending fd' = rest \<Longrightarrow> tx_part fd' = tx_part fd \<Longrightarrow> remote_inv R D fd' n outs"
proof -
  from assms(1) obtain bef k where i: "tx fd = concat (map (hdr D) (bef @ rs @ outs))" "n = length bef + k" "k \<le> length (rs @ outs)"
    "pending fd = concat (map (answer D R) (take k (rs @ outs)))" "wf_sock fd" "writable fd" by (auto simp: remote_inv_def)
  let ?sz = "\<lambda>xs. length (concat (map (answer D R) xs))"
  have sz: "?sz xs = (\<Sum>r\<leftarrow>xs. 16 + unat (req_length D r))" for xs
    by (induction xs) (simp_all add: length_answer)
  have k: "length rs \<le> k"
  proof (rule ccontr)
    assume "\<not> length rs \<le> k"
    then have lt: "k < length rs" by simp
    then have "take k (rs @ outs) = take k rs" by simp
    moreover have "rs = take k rs @ rs ! k # drop (Suc k) rs" using lt by (simp add: id_take_nth_drop)
    then have "?sz rs = ?sz (take k rs) + length (answer D R (rs ! k)) + ?sz (drop (Suc k) rs)"
      by (metis (no_types, lifting) concat.simps(2) concat_append length_append list.simps(9) map_append add.assoc)
    ultimately show False using assms(2) i(4) sz[of rs] length_answer[of D R "rs ! k"] lt by simp
  qed
  then have p: "pending fd = concat (map (answer D R) rs) @ concat (map (answer D R) (take (k - length rs) outs))" using i(4) by simp
  show thesis
  proof (rule that[OF p i(5)])
    fix fd'
    assume "wf_sock fd'" "pending fd' = concat (map (answer D R) (take (k - length rs) outs))" "tx_part fd' = tx_part fd"
    moreover from this i(6) have "writable fd'" "tx fd' = tx fd" by (auto simp: tx_part_def writable_def)
    ultimately show "remote_inv R D fd' n outs" unfolding remote_inv_def using i k
      by (intro conjI exI[of _ "bef @ rs"] exI[of _ "k - length rs"]) auto
  qed
qed

lemma map_Priv_Cons: "map Priv ps = Priv p # xs \<longleftrightarrow> (\<exists>qs. ps = p # qs \<and> xs = map Priv qs)"
  by (cases ps) auto

text \<open>Every step keeps the invariant, and what a step of the receive thread does to the view.\<close>

lemma enqueue_inv: "machine_inv R D g \<Longrightarrow> step R g (Enqueue p) g' \<Longrightarrow>
    machine_inv R D g' \<and> view D R (valid g') (cache (px g')) = view D R (valid g) (cache (px g)) \<and> reply_queue (px g') = reply_queue (px g)"
proof (erule enqueueE)
  assume inv: "machine_inv R D g" and f: "fresh_ok (disksize (px g)) p"
    and g': "g' = g\<lparr>px := (px g)\<lparr>fwd_tx_queue := fwd_tx_queue (px g) @ [Priv p]\<rparr>\<rparr>"
  from inv obtain fs ps where "fwd_tx_queue (px g) = map Priv fs" "list_all (fresh_ok D) fs" "fwd_rx_queue (px g) = map Priv ps"
    "ok_queue D (valid g) ps" "marked (cbitmap (px g)) = valid g \<union> all_touched ps"
    "remote_inv R D (remotefd (px g)) (answered g) (concat (map req ps))" by (auto simp: machine_inv_def)
  with inv f show ?thesis unfolding g' machine_inv_def
    by (intro conjI exI[of _ "fs @ [p]"] exI[of _ ps]) (auto simp: machine_inv_def)
qed

lemma tx_inv:
  assumes "machine_inv R D g" and "0 \<le> D" and "D < 9223372036854771712" and "step R g TxRound g'"
  shows "machine_inv R D g' \<and> view D R (valid g') (cache (px g')) = view D R (valid g) (cache (px g)) \<and> reply_queue (px g') = reply_queue (px g) \<and>
    (\<exists>p p' xs. same_request p p' \<and> fwd_tx_queue (px g) = Priv p # xs \<and> fwd_tx_queue (px g') = xs \<and>
      fwd_rx_queue (px g') = fwd_rx_queue (px g) @ [Priv p'])"
proof -
  from assms(4) obtain go x where ne: "fwd_tx_queue (px g) \<noteq> []" and r: "forwarder_tx_round (px g) = Inr (go, x)" and g': "g' = g\<lparr>px := x\<rparr>"
    by (elim tx_roundE)
  from assms(1) obtain fs ps where i: "disksize (px g) = D" "\<not> sending_failed (px g)" "\<not> receiving_failed (px g)"
    "unat (get_disk_nblocks D) \<le> 64 * length (cbitmap (px g))" "fwd_tx_queue (px g) = map Priv fs" "list_all (fresh_ok D) fs"
    "fwd_rx_queue (px g) = map Priv ps" "ok_queue D (valid g) ps" "marked (cbitmap (px g)) = valid g \<union> all_touched ps"
    "remote_inv R D (remotefd (px g)) (answered g) (concat (map req ps))" by (auto simp: machine_inv_def)
  from ne i(5) obtain p fs' where fs: "fs = p # fs'" by (cases fs) auto
  have w: "writable (remotefd (px g))" using i(10) by (simp add: remote_inv_def)
  obtain bm' st' c' fd' p' where t: "x = (px g)\<lparr>fwd_tx_queue := map Priv fs', fwd_rx_queue := fwd_rx_queue (px g) @ [Priv p'], cbitmap := bm', stat := st',
      fwd_counter := c', remotefd := fd'\<rparr>" "length bm' = length (cbitmap (px g))" "marked bm' = marked (cbitmap (px g)) \<union> touched p'"
    "ok_priv D (marked (cbitmap (px g))) p'" "writable fd'" "rx_part fd' = rx_part (remotefd (px g))"
    "tx fd' = tx (remotefd (px g)) @ concat (map (hdr D) (req p'))" "same_request p p'"
    using tx_round_ok[of "px g" p "map Priv fs'" D go x] i fs w assms(2,3) r by auto
  have rem: "remote_inv R D fd' (answered g) (concat (map req (ps @ [p'])))" using remote_inv_tx[OF i(10) t(5-7)] by simp
  have "ok_queue D (valid g) (ps @ [p'])" using i(8,9) t(4) by (simp add: ok_queue_append)
  then have "machine_inv R D g'" unfolding g' machine_inv_def t(1) using i fs t(2,3) rem
    by (intro conjI exI[of _ fs'] exI[of _ "ps @ [p']"]) auto
  with t(8) i(5) fs show ?thesis by (auto simp: g' t(1))
qed

lemma remote_step_inv:
  assumes "machine_inv R D g" and "D < 9223372036854771712" and "step R g RemoteAnswer g'"
  shows "machine_inv R D g' \<and> view D R (valid g') (cache (px g')) = view D R (valid g) (cache (px g)) \<and> reply_queue (px g') = reply_queue (px g)"
proof -
  from assms(3) have n: "28 * Suc (answered g) \<le> length (tx (remotefd (px g)))"
    and g': "g' = g\<lparr>px := (px g)\<lparr>remotefd := (remotefd (px g))\<lparr>rx := rx (remotefd (px g)) @ [remote_answer R g]\<rparr>\<rparr>, answered := Suc (answered g)\<rparr>"
    by (auto elim: remoteE)
  from assms(1) obtain fs ps where i: "fwd_tx_queue (px g) = map Priv fs" "list_all (fresh_ok D) fs"
    "fwd_rx_queue (px g) = map Priv ps" "ok_queue D (valid g) ps" "marked (cbitmap (px g)) = valid g \<union> all_touched ps"
    "remote_inv R D (remotefd (px g)) (answered g) (concat (map req ps))" by (auto simp: machine_inv_def)
  have "remote_inv R D ((remotefd (px g))\<lparr>rx := rx (remotefd (px g)) @ [remote_answer R g]\<rparr>) (Suc (answered g)) (concat (map req ps))"
    using remote_inv_answer[OF i(6) n ok_queue_reqs[OF i(4)] assms(2)] by (simp add: remote_answer_def Let_def)
  with i assms(1) have "machine_inv R D g'" unfolding g' machine_inv_def
    by (intro conjI exI[of _ fs] exI[of _ ps]) (auto simp: machine_inv_def)
  then show ?thesis by (simp add: g')
qed

lemma rx_inv:
  assumes "machine_inv R D g" and "0 \<le> D" and "D < 9223372036854771712" and "step R g (RxRound p) g'"
  shows "machine_inv R D g' \<and> (\<exists>p'. completes p p' (view D R (valid g) (cache (px g))) (view D R (valid g') (cache (px g'))) \<and>
    reply_queue (px g') = (reply_queue (px g))(sid p := reply_queue (px g) (sid p) @ [p']) \<and>
    fwd_tx_queue (px g') = fwd_tx_queue (px g) \<and> fwd_rx_queue (px g) = Priv p # fwd_rx_queue (px g'))"
proof -
  from assms(4) obtain xs k ret x where q: "fwd_rx_queue (px g) = Priv p # xs" "replies_arrived (px g) p" "rx_kernel_ok (disksize (px g)) k"
    "forwarder_rx_thread_mainloop k (px g) = Inr (ret, x)" and g': "g' = g\<lparr>px := x, valid := valid g \<union> touched p\<rparr>"
    by (elim rx_roundE)
  from assms(1) obtain fs ps where i: "disksize (px g) = D" "\<not> sending_failed (px g)" "\<not> receiving_failed (px g)"
    "unat (get_disk_nblocks D) \<le> 64 * length (cbitmap (px g))" "fwd_tx_queue (px g) = map Priv fs" "list_all (fresh_ok D) fs"
    "fwd_rx_queue (px g) = map Priv ps" "ok_queue D (valid g) ps" "marked (cbitmap (px g)) = valid g \<union> all_touched ps"
    "remote_inv R D (remotefd (px g)) (answered g) (concat (map req ps))" by (auto simp: machine_inv_def)
  from i(7) q(1) obtain qs where ps: "ps = p # qs" "xs = map Priv qs" by (auto simp: map_Priv_Cons)
  have rem: "remote_inv R D (remotefd (px g)) (answered g) (req p @ concat (map req qs))" using i(10) ps by simp
  have arr: "(\<Sum>r\<leftarrow>req p. 16 + unat (req_length D r)) \<le> length (pending (remotefd (px g)))" using q(2) i(1) by (simp add: replies_arrived_def)
  obtain rest where rest: "pending (remotefd (px g)) = concat (map (answer D R) (req p)) @ rest" "wf_sock (remotefd (px g))"
    and kept: "\<And>fd'. wf_sock fd' \<Longrightarrow> pending fd' = rest \<Longrightarrow> tx_part fd' = tx_part (remotefd (px g)) \<Longrightarrow>
      remote_inv R D fd' (answered g) (concat (map req qs))"
    using remote_inv_rx[OF rem arr] by blast
  have ok: "ok_priv D (valid g) p" "ok_queue D (valid g \<union> touched p) qs" using i(8) ps by auto
  obtain fd' m' p' where x: "x = (px g)\<lparr>fwd_rx_queue := xs, remotefd := fd', cache := m', receiving_failed := False,
      reply_queue := (reply_queue (px g))(sid p := reply_queue (px g) (sid p) @ [p'])\<rparr>" "wf_sock fd'" "pending fd' = rest"
    "tx_part fd' = tx_part (remotefd (px g))" "completes p p' (view D R (valid g) (cache (px g))) (view D R (valid g \<union> touched p) m')"
    using rx_round_ok[OF q(1) ok(1) i(1) assms(2,3) rest(2,1) i(3), of k] q(3,4) i(1) by auto
  have m: "marked (cbitmap (px g)) = (valid g \<union> touched p) \<union> all_touched qs" using i(9) ps(1) by (simp add: Un_assoc)
  have "machine_inv R D g'" unfolding g' machine_inv_def x(1)
    by (intro conjI exI[of _ fs] exI[of _ qs]) (simp_all add: i(1-6) ps(2) ok(2) m kept[OF x(2-4)])
  with x(1,5) g' q(1) show ?thesis by auto
qed

section \<open>Executions\<close>

inductive run :: "mem \<Rightarrow> machine \<Rightarrow> event list \<Rightarrow> machine \<Rightarrow> bool" for R where
  run_start: "run R g [] g"
| run_step: "run R g es g' \<Longrightarrow> step R g' e g'' \<Longrightarrow> run R g (es @ [e]) g''"

text \<open>A sequential disk that completes requests one after the other.\<close>

inductive disk_run :: "mem \<Rightarrow> (proxy_priv \<times> proxy_priv) list \<Rightarrow> mem \<Rightarrow> bool" where
  disk_start: "disk_run A [] A"
| disk_step: "disk_run A l A' \<Longrightarrow> completes p p' A' A'' \<Longrightarrow> disk_run A (l @ [(p, p')]) A''"

definition start :: "mem \<Rightarrow> int \<Rightarrow> machine \<Rightarrow> bool" where
  "start R D g \<longleftrightarrow> disksize (px g) = D \<and> fwd_tx_queue (px g) = [] \<and> fwd_rx_queue (px g) = [] \<and> \<not> sending_failed (px g) \<and>
     \<not> receiving_failed (px g) \<and> unat (get_disk_nblocks D) \<le> 64 * length (cbitmap (px g)) \<and> valid g = marked (cbitmap (px g)) \<and>
     answered g = 0 \<and> tx (remotefd (px g)) = [] \<and> rx (remotefd (px g)) = [] \<and> writable (remotefd (px g))"

lemma start_inv: "start R D g \<Longrightarrow> machine_inv R D g"
  unfolding machine_inv_def start_def remote_inv_def
  by (intro conjI exI[of _ "[]"]) (auto simp: wf_sock_def pending_def)

fun enqueued :: "event list \<Rightarrow> proxy_priv list" where
  "enqueued [] = []"
| "enqueued (Enqueue p # es) = p # enqueued es"
| "enqueued (_ # es) = enqueued es"

lemma enqueued_append [simp]: "enqueued (es @ es') = enqueued es @ enqueued es'"
  by (induction es rule: enqueued.induct) auto

lemma same_request_refl [simp]: "same_request p p"
  by (simp add: same_request_def)

text \<open>The state of an execution: what was completed, and what is still on the way, in the order of arrival.\<close>

lemma run_inv:
  assumes "run R g es g'" and "start R D g" and "0 \<le> D" and "D < 9223372036854771712"
  shows "machine_inv R D g' \<and> (\<exists>log fs ps. disk_run (view D R (valid g) (cache (px g))) log (view D R (valid g') (cache (px g'))) \<and>
    (\<forall>s. reply_queue (px g') s = reply_queue (px g) s @ map snd (filter (\<lambda>e. sid (fst e) = s) log)) \<and>
    fwd_tx_queue (px g') = map Priv fs \<and> fwd_rx_queue (px g') = map Priv ps \<and>
    list_all2 same_request (enqueued es) (map fst log @ ps @ fs))"
  using assms
proof (induction rule: run.induct)
  case (run_start g)
  then have "machine_inv R D g" "fwd_tx_queue (px g) = map Priv []" "fwd_rx_queue (px g) = map Priv []"
    by (auto simp: start_inv start_def)
  with disk_start[of "view D R (valid g) (cache (px g))"] show ?case
    by (intro conjI exI[of _ "[]"]) auto
next
  case (run_step g es g' e g'')
  then obtain log fs ps where inv: "machine_inv R D g'" and h: "disk_run (view D R (valid g) (cache (px g))) log (view D R (valid g') (cache (px g')))"
    "\<forall>s. reply_queue (px g') s = reply_queue (px g) s @ map snd (filter (\<lambda>e. sid (fst e) = s) log)"
    "fwd_tx_queue (px g') = map Priv fs" "fwd_rx_queue (px g') = map Priv ps"
    "list_all2 same_request (enqueued es) (map fst log @ ps @ fs)" by blast
  show ?case
  proof (cases e)
    case (Enqueue p)
    with run_step.hyps(2) have st: "step R g' (Enqueue p) g''" by simp
    then have q: "fwd_tx_queue (px g'') = map Priv (fs @ [p])" "fwd_rx_queue (px g'') = map Priv ps"
      using h(3,4) by (auto elim!: enqueueE)
    have "list_all2 same_request (enqueued (es @ [e])) (map fst log @ ps @ fs @ [p])"
      using list_all2_appendI[OF h(5), of "[p]" "[p]"] Enqueue by simp
    with enqueue_inv[OF inv st] h q show ?thesis by (intro conjI exI[of _ log] exI[of _ "fs @ [p]"] exI[of _ ps]) auto
  next
    case TxRound
    with run_step.hyps(2) have st: "step R g' TxRound g''" by simp
    from tx_inv[OF inv run_step.prems(2,3) st] h(3,4) obtain p p' fs' where t: "machine_inv R D g''"
      "view D R (valid g'') (cache (px g'')) = view D R (valid g') (cache (px g'))" "reply_queue (px g'') = reply_queue (px g')"
      "same_request p p'" "fs = p # fs'" "fwd_tx_queue (px g'') = map Priv fs'" "fwd_rx_queue (px g'') = map Priv (ps @ [p'])"
      by (auto simp: map_Priv_Cons)
    have "list_all2 same_request (enqueued (es @ [e])) (map fst log @ (ps @ [p']) @ fs')"
    proof -
      from h(5) t(5) obtain us vs where u: "enqueued es = us @ vs" "list_all2 same_request us (map fst log @ ps)" "list_all2 same_request vs (p # fs')"
        by (auto simp: list_all2_append2 append_assoc[symmetric] simp del: append_assoc)
      then obtain v vs' where "vs = v # vs'" "same_request v p" "list_all2 same_request vs' fs'" by (auto simp: list_all2_Cons2)
      moreover from this t(4) have "same_request v p'" by (auto simp: same_request_def)
      ultimately show ?thesis using u TxRound list_all2_appendI[of same_request us "map fst log @ ps" "v # vs'" "p' # fs'"] by simp
    qed
    with t h show ?thesis by (intro conjI exI[of _ log] exI[of _ fs'] exI[of _ "ps @ [p']"]) auto
  next
    case RemoteAnswer
    with run_step.hyps(2) have st: "step R g' RemoteAnswer g''" by simp
    then have "fwd_tx_queue (px g'') = map Priv fs" "fwd_rx_queue (px g'') = map Priv ps" using h(3,4) by (auto elim!: remoteE)
    with remote_step_inv[OF inv run_step.prems(3) st] h RemoteAnswer show ?thesis by (intro conjI exI[of _ log] exI[of _ fs] exI[of _ ps]) auto
  next
    case (RxRound p)
    with run_step.hyps(2) have st: "step R g' (RxRound p) g''" by simp
    from rx_inv[OF inv run_step.prems(2,3) st] obtain p' where t: "machine_inv R D g''"
      "completes p p' (view D R (valid g') (cache (px g'))) (view D R (valid g'') (cache (px g'')))"
      "reply_queue (px g'') = (reply_queue (px g'))(sid p := reply_queue (px g') (sid p) @ [p'])"
      "fwd_tx_queue (px g'') = fwd_tx_queue (px g')" "fwd_rx_queue (px g') = Priv p # fwd_rx_queue (px g'')" by blast
    then obtain qs where qs: "ps = p # qs" and q: "fwd_tx_queue (px g'') = map Priv fs" "fwd_rx_queue (px g'') = map Priv qs"
      using h(3,4) by (auto simp: map_Priv_Cons)
    from disk_step[OF h(1) t(2)] t(1,3) h q qs RxRound show ?thesis
      by (intro conjI exI[of _ "log @ [(p, p')]"] exI[of _ fs] exI[of _ qs]) auto
  qed
qed

lemma tx_round_total:
  assumes "fwd_tx_queue proxy = Priv p # xs" and "fresh_ok D p" and "disksize proxy = D" and "0 \<le> D" and "D < 9223372036854771712"
    and "unat (get_disk_nblocks D) \<le> 64 * length (cbitmap proxy)" and "writable (remotefd proxy)"
    and "caches p \<longrightarrow> unat (block_index_end p) - unat (block_index_start p) < 62"
  shows "\<exists>x. forwarder_tx_round proxy = Inr (True, x)"
proof (cases "need_exit p")
  case True
  with assms(1) show ?thesis by (simp add: forwarder_tx_round_def Let_def)
next
  case False
  let ?px = "proxy\<lparr>fwd_tx_queue := xs\<rparr>"
  have sh: "shape D p" "req p = []" "\<not> prepare_done p" using assms(2) by (auto simp: fresh_ok_def)
  have "\<exists>px1 p'. prepare_priv ?px p = Inr (px1, p')"
  proof (cases "caches p")
    case True
    note b = shape_blocks[OF sh(1) True assms(5)]
    have cap: "unat (block_index_end p) < 64 * length (cbitmap proxy)" using b(4) assms(6) by simp
    have "iofrom p + uint (iolen p) < 9223372036854775808" "0 \<le> iofrom p" using sh(1) True assms(5) by (auto simp: shape_def caches_def)
    then show ?thesis using read_plan_total[OF sh(2) cap b(5,3) mp[OF assms(8) True], of "stat proxy"] write_plan[OF sh(2) cap b(5,3), of "stat proxy"] sh(3)
      by (auto simp: prepare_priv_def)
  qed (use sh False in \<open>auto simp: prepare_priv_def caches_def\<close>)
  then obtain px1 p' where prep: "prepare_priv ?px p = Inr (px1, p')" by blast
  from prepare_priv_ok[OF assms(2) False assms(4,5) _ prep] assms(6)
  have ok: "ok_priv D (marked (cbitmap proxy)) p'" and px1: "disksize px1 = D" "remotefd px1 = remotefd proxy"
    using assms(3) by auto
  from ok have "\<And>r. r \<in> set (req p') \<Longrightarrow> req_ok D r" by (simp add: ok_priv_def)
  then obtain fd' where "send_reads D (req p') (remotefd proxy) = Inr (True, fd')"
    using send_reads_ok[OF assms(7), of "req p'" D] assms(5) by auto
  with assms(1) False prep px1 show ?thesis by (simp add: forwarder_tx_round_def Let_def)
qed

section \<open>Properties\<close>

text \<open>
  C1. The proxy is a disk. In every interleaving of its threads with the sessions and the remote server,
  the requests completed so far are the first ones that arrived, in the order of arrival over all
  sessions; each was completed as a sequential disk does whose initial contents are the marked blocks of
  the cache disk and the remote disk for the rest; and every session has got exactly the results of its own
  requests, in order.
\<close>

theorem proxy_refines_disk:
  assumes "run R g es g'" and "start R D g" and "0 \<le> D" and "D < 9223372036854771712"
  shows "\<exists>log pending. list_all2 same_request (enqueued es) (map fst log @ pending) \<and>
    disk_run (view D R (marked (cbitmap (px g))) (cache (px g))) log (view D R (valid g') (cache (px g'))) \<and>
    (\<forall>s. reply_queue (px g') s = reply_queue (px g) s @ map snd (filter (\<lambda>e. sid (fst e) = s) log))"
proof -
  have "valid g = marked (cbitmap (px g))" using assms(2) by (simp add: start_def)
  with run_inv[OF assms] show ?thesis by metis
qed

definition demo_machine :: machine where
  "demo_machine = \<lparr>px = \<lparr>fwd_tx_queue = [], fwd_rx_queue = [], fwd_retry_queue = [], reply_queue = \<lambda>_. [],
     remotefd = \<lparr>rx = [], rx_end = None, tx = [], tx_plan = []\<rparr>, cache = \<lambda>_. 0, cbitmap = [1], disksize = 8192,
     stat = zero_stat, fwd_counter = 0, sending_failed = False, receiving_failed = False\<rparr>, valid = marked [1], answered = 0\<rparr>"

definition works_rx :: rxkern where
  "works_rx = \<lparr>rk_mmap = \<lambda>_ _ _. True, rk_munmap = True, rk_fsync = True, rk_msync = True, rk_fallocate = True\<rparr>"

definition flush_priv :: proxy_priv where
  "flush_priv = demo_priv NBD_CMD_FLUSH 0 0"

lemma demo_start: "start R 8192 demo_machine"
  by (simp add: start_def demo_machine_def nblocks_nat writable_def)

lemma demo_run: "\<exists>g'. run R demo_machine [Enqueue flush_priv, TxRound] g'"
proof -
  let ?g1 = "demo_machine\<lparr>px := (px demo_machine)\<lparr>fwd_tx_queue := fwd_tx_queue (px demo_machine) @ [Priv flush_priv]\<rparr>\<rparr>"
  have "fresh_ok (disksize (px demo_machine)) flush_priv"
    by (simp add: fresh_ok_def shape_def flush_priv_def demo_priv_def)
  then have 1: "run R demo_machine ([] @ [Enqueue flush_priv]) ?g1"
    by (intro run_step[OF run_start] step.enqueue)
  have "\<exists>go x. forwarder_tx_round (px ?g1) = Inr (go, x)"
    by (auto simp: forwarder_tx_round_def demo_machine_def flush_priv_def demo_priv_def prepare_priv_def Let_def)
  then obtain go x where "forwarder_tx_round (px ?g1) = Inr (go, x)" by blast
  then have "step R ?g1 TxRound (?g1\<lparr>px := x\<rparr>)" by (intro step.tx_round) (auto simp: demo_machine_def)
  from run_step[OF 1 this] show ?thesis by auto
qed

theorem proxy_refines_disk_witness:
  "\<exists>g' log pending. run (\<lambda>_. 7) demo_machine [Enqueue flush_priv, TxRound] g' \<and>
     list_all2 same_request [flush_priv] (map fst log @ pending) \<and>
     disk_run (view 8192 (\<lambda>_. 7) (marked [1]) (\<lambda>_. 0)) log (view 8192 (\<lambda>_. 7) (valid g') (cache (px g')))"
proof -
  obtain g' where r: "run (\<lambda>_. 7) demo_machine [Enqueue flush_priv, TxRound] g'" using demo_run by blast
  from proxy_refines_disk[OF r demo_start] r show ?thesis by (auto simp: demo_machine_def)
qed

text \<open>
  Once every block is marked and no prepared request is under way, the cache disk holds the disk the
  clients see: it can be served without the remote server from then on.
\<close>

lemma complete_cache_is_disk:
  assumes "run R g es g'" and "start R D g" and "0 \<le> D" and "D < 9223372036854771712"
    and "fwd_rx_queue (px g') = []" and "{..<unat (get_disk_nblocks D)} \<subseteq> marked (cbitmap (px g'))" and "0 \<le> x" and "x < D"
  shows "cache (px g') x = view D R (valid g') (cache (px g')) x"
proof -
  have "marked (cbitmap (px g')) = valid g'" using run_inv[OF assms(1-4)] assms(5) by (auto simp: machine_inv_def)
  moreover have "nat (x div 4096) < unat (get_disk_nblocks D)"
    using assms(3,4,7,8) div_4096_bounds[of x] div_4096_bounds[of "D + 4095"] by (simp add: nblocks_nat)
  ultimately show ?thesis using assms(6-8) by (auto simp: view_def)
qed

lemma complete_cache_is_disk_witness:
  "cache (px (demo_machine\<lparr>px := (px demo_machine)\<lparr>cbitmap := [3]\<rparr>, valid := marked [3]\<rparr>)) 5000 =
    view 8192 (\<lambda>_. 7) (marked [3]) (\<lambda>_. 0) 5000"
proof -
  let ?g = "demo_machine\<lparr>px := (px demo_machine)\<lparr>cbitmap := [3]\<rparr>, valid := marked [3]\<rparr>"
  have s: "start (\<lambda>_. 7) 8192 ?g" by (simp add: start_def demo_machine_def nblocks_nat writable_def)
  have "bit (3 :: u64) 0" "bit (3 :: u64) 1" by simp_all
  then have "{..<unat (get_disk_nblocks 8192)} \<subseteq> marked (cbitmap (px ?g))"
    by (auto simp: nblocks_nat marked_def less_Suc_eq numeral_2_eq_2)
  from complete_cache_is_disk[OF run_start s _ _ _ this, of 5000] show ?thesis by (simp add: demo_machine_def)
qed

text \<open>
  The forwarder threads do not get stuck or stop: in every reachable state of the machine the
  receive thread completes its next request as soon as the replies for it have arrived, and the transmit
  thread prepares its next request unless that is a read, write or cache request over more than 62 blocks.
\<close>

lemma forwarders_progress:
  assumes "run R g es g'" and "start R D g" and "0 \<le> D" and "D < 9223372036854771712" and "rx_kernel_ok D k"
  shows "(\<forall>p xs. fwd_rx_queue (px g') = Priv p # xs \<and> replies_arrived (px g') p \<longrightarrow>
      (\<exists>x. forwarder_rx_thread_mainloop k (px g') = Inr (0, x))) \<and>
    (\<forall>p xs. fwd_tx_queue (px g') = Priv p # xs \<and> (caches p \<longrightarrow> unat (block_index_end p) - unat (block_index_start p) < 62) \<longrightarrow>
      (\<exists>x. forwarder_tx_round (px g') = Inr (True, x)))"
proof -
  from run_inv[OF assms(1-4)] obtain fs ps where i: "disksize (px g') = D" "\<not> receiving_failed (px g')" "\<not> sending_failed (px g')"
    "unat (get_disk_nblocks D) \<le> 64 * length (cbitmap (px g'))" "fwd_tx_queue (px g') = map Priv fs" "list_all (fresh_ok D) fs"
    "fwd_rx_queue (px g') = map Priv ps" "ok_queue D (valid g') ps" "remote_inv R D (remotefd (px g')) (answered g') (concat (map req ps))"
    by (auto simp: machine_inv_def)
  have "\<exists>x. forwarder_rx_thread_mainloop k (px g') = Inr (0, x)" if q: "fwd_rx_queue (px g') = Priv p # xs" "replies_arrived (px g') p" for p xs
  proof -
    from q(1) i(7) obtain qs where ps: "ps = p # qs" by (auto simp: map_Priv_Cons)
    have rem: "remote_inv R D (remotefd (px g')) (answered g') (req p @ concat (map req qs))" using i(9) ps by simp
    obtain rest where "pending (remotefd (px g')) = concat (map (answer D R) (req p)) @ rest" "wf_sock (remotefd (px g'))"
      using remote_inv_rx[OF rem] q(2) i(1) by (auto simp: replies_arrived_def)
    with rx_round_ok[OF q(1) _ i(1) assms(3,4) _ _ i(2) assms(5), of "valid g'" R rest] i(8) ps show ?thesis by auto
  qed
  moreover have "\<exists>x. forwarder_tx_round (px g') = Inr (True, x)"
    if q: "fwd_tx_queue (px g') = Priv p # xs" "caches p \<longrightarrow> unat (block_index_end p) - unat (block_index_start p) < 62" for p xs
    using tx_round_total[OF q(1) _ i(1) assms(3,4) i(4) _ q(2)] i(5,6,9) q(1) by (auto simp: map_Priv_Cons remote_inv_def)
  ultimately show ?thesis by blast
qed

end
