(* ===== verification/Proxy_Progress.thy ===== *)
theory Proxy_Progress
  imports Proxy_Machine
begin

text \<open>
  The forwarder does not deadlock: from every reachable state there is a schedule of its threads and the
  remote server that completes everything queued.
\<close>

lemma map_Priv_eq [simp]: "map Priv xs = map Priv ys \<longleftrightarrow> xs = ys"
  by (rule inj_map_eq_map) (simp add: inj_def)

lemma run_append: "run R g' es' g'' \<Longrightarrow> run R g es g' \<Longrightarrow> run R g (es @ es') g''"
proof (induction rule: run.induct)
  case (run_step g1 es1 g2 e g3)
  then show ?case using run.run_step[of R g "es @ es1" g2 e g3] by simp
qed simp

lemma run_Cons: "step R g e g' \<Longrightarrow> run R g' es g'' \<Longrightarrow> run R g (e # es) g''"
  using run_append[of R g' es g'' g "[e]"] run_step[OF run_start, of R g e g'] by simp

text \<open>A request whose data spans at most 62 blocks.\<close>

definition short :: "proxy_priv \<Rightarrow> bool" where
  "short p \<longleftrightarrow> (caches p \<longrightarrow> unat (block_index_end p) - unat (block_index_start p) < 62)"

lemma enqueue_all:
  "list_all (fresh_ok (disksize (px g))) ps \<Longrightarrow>
   \<exists>g'. run R g (map Enqueue ps) g' \<and> fwd_tx_queue (px g') = fwd_tx_queue (px g) @ map Priv ps"
proof (induction ps arbitrary: g)
  case Nil
  then show ?case by (auto intro: run_start)
next
  case (Cons p ps)
  let ?g = "g\<lparr>px := (px g)\<lparr>fwd_tx_queue := fwd_tx_queue (px g) @ [Priv p]\<rparr>\<rparr>"
  have st: "step R g (Enqueue p) ?g" using Cons.prems by (intro step.enqueue) simp
  from Cons.IH[of ?g] Cons.prems obtain g' where "run R ?g (map Enqueue ps) g'" "fwd_tx_queue (px g') = fwd_tx_queue (px ?g) @ map Priv ps" by auto
  with run_Cons[OF st] show ?case by (intro exI[of _ g']) simp
qed

lemma enqueued_map [simp]: "enqueued (map Enqueue ps) = ps"
  by (induction ps) auto

text \<open>Queued requests that satisfy the conditions can be queued and completed.\<close>

lemma drain_tx:
  assumes "machine_inv R D g" and "0 \<le> D" and "D < 9223372036854771712" and "fwd_tx_queue (px g) = map Priv fs" and "list_all short fs"
  shows "\<exists>es g'. run R g es g' \<and> enqueued es = [] \<and> machine_inv R D g' \<and> fwd_tx_queue (px g') = []"
  using assms
proof (induction fs arbitrary: g)
  case Nil
  then show ?case by (intro exI[of _ "[]"] exI[of _ g]) (simp add: run_start)
next
  case (Cons p fs)
  from Cons.prems(1) have i: "disksize (px g) = D" "unat (get_disk_nblocks D) \<le> 64 * length (cbitmap (px g))" "fresh_ok D p"
    "writable (remotefd (px g))" using Cons.prems(4) by (auto simp: machine_inv_def remote_inv_def map_Priv_Cons)
  obtain x where "forwarder_tx_round (px g) = Inr (True, x)"
    using tx_round_total[of "px g" p "map Priv fs" D] Cons.prems i by (auto simp: short_def)
  then have st: "step R g TxRound (g\<lparr>px := x\<rparr>)" by (intro step.tx_round) (auto simp: Cons.prems(4))
  from tx_inv[OF Cons.prems(1-3) st] Cons.prems(4) have "machine_inv R D (g\<lparr>px := x\<rparr>)" "fwd_tx_queue (px (g\<lparr>px := x\<rparr>)) = map Priv fs" by auto
  from Cons.IH[OF this(1) Cons.prems(2,3) this(2)] Cons.prems(5) obtain es g' where
    "run R (g\<lparr>px := x\<rparr>) es g'" "enqueued es = []" "machine_inv R D g'" "fwd_tx_queue (px g') = []" by auto
  with run_Cons[OF st] show ?case by (intro exI[of _ "TxRound # es"] exI[of _ g']) simp
qed

definition all_answered :: "machine \<Rightarrow> bool" where
  "all_answered g \<longleftrightarrow> length (tx (remotefd (px g))) < 28 * Suc (answered g)"

lemma drain_remote:
  assumes "machine_inv R D g" and "D < 9223372036854771712"
  shows "\<exists>es g'. run R g es g' \<and> enqueued es = [] \<and> machine_inv R D g' \<and> fwd_tx_queue (px g') = fwd_tx_queue (px g) \<and> all_answered g'"
  using assms
proof (induction "length (tx (remotefd (px g))) - 28 * answered g" arbitrary: g rule: less_induct)
  case less
  show ?case
  proof (cases "all_answered g")
    case True
    with less.prems show ?thesis by (intro exI[of _ "[]"] exI[of _ g]) (simp add: run_start)
  next
    case False
    then have le: "28 * Suc (answered g) \<le> length (tx (remotefd (px g)))" by (simp add: all_answered_def)
    let ?g = "g\<lparr>px := (px g)\<lparr>remotefd := (remotefd (px g))\<lparr>rx := rx (remotefd (px g)) @ [remote_answer R g]\<rparr>\<rparr>, answered := Suc (answered g)\<rparr>"
    have st: "step R g RemoteAnswer ?g" by (rule step.remote[OF le])
    have inv: "machine_inv R D ?g" using remote_step_inv[OF less.prems(1,2) st] by blast
    have "length (tx (remotefd (px ?g))) - 28 * answered ?g < length (tx (remotefd (px g))) - 28 * answered g" using le by simp
    from less.hyps[OF this inv less.prems(2)] obtain es g' where "run R ?g es g'" "enqueued es = []" "machine_inv R D g'"
      "fwd_tx_queue (px g') = fwd_tx_queue (px g)" "all_answered g'" by auto
    with run_Cons[OF st] show ?thesis by (intro exI[of _ "RemoteAnswer # es"] exI[of _ g']) simp
  qed
qed

lemma all_answered_arrived:
  assumes "remote_inv R D fd n (rs @ outs)" and "length (tx fd) < 28 * Suc n"
  shows "(\<Sum>r\<leftarrow>rs. 16 + unat (req_length D r)) \<le> length (pending fd)"
proof -
  from assms(1) obtain bef k where i: "tx fd = concat (map (hdr D) (bef @ rs @ outs))" "n = length bef + k" "k \<le> length (rs @ outs)"
    "pending fd = concat (map (answer D R) (take k (rs @ outs)))" by (auto simp: remote_inv_def)
  have "length (tx fd) = 28 * length (bef @ rs @ outs)" unfolding i(1) by (rule length_headers)
  then have "k = length (rs @ outs)" using assms(2) i(2,3) by simp
  moreover have "length (concat (map (answer D R) xs)) = (\<Sum>r\<leftarrow>xs. 16 + unat (req_length D r))" for xs
    by (induction xs) (simp_all add: length_answer)
  ultimately show ?thesis using i(4) by simp
qed

lemma drain_rx:
  assumes "machine_inv R D g" and "0 \<le> D" and "D < 9223372036854771712" and "fwd_rx_queue (px g) = map Priv ps" and "all_answered g"
    and "rx_kernel_ok D k"
  shows "\<exists>es g'. run R g es g' \<and> enqueued es = [] \<and> fwd_tx_queue (px g') = fwd_tx_queue (px g) \<and> fwd_rx_queue (px g') = []"
  using assms
proof (induction ps arbitrary: g)
  case Nil
  then show ?case by (intro exI[of _ "[]"] exI[of _ g]) (simp add: run_start)
next
  case (Cons p ps)
  from Cons.prems(1,4) have i: "disksize (px g) = D" "\<not> receiving_failed (px g)" "ok_priv D (valid g) p"
    "remote_inv R D (remotefd (px g)) (answered g) (req p @ concat (map req ps))"
    by (auto simp: machine_inv_def map_Priv_Cons)
  have arr: "(\<Sum>r\<leftarrow>req p. 16 + unat (req_length D r)) \<le> length (pending (remotefd (px g)))"
    using all_answered_arrived[OF i(4)] Cons.prems(5) by (simp add: all_answered_def)
  obtain rest where rest: "pending (remotefd (px g)) = concat (map (answer D R) (req p)) @ rest" "wf_sock (remotefd (px g))"
    using remote_inv_rx[OF i(4) arr] by blast
  have q: "fwd_rx_queue (px g) = Priv p # map Priv ps" using Cons.prems(4) by simp
  obtain fd' m' p' where r: "forwarder_rx_thread_mainloop k (px g) = Inr (0, (px g)\<lparr>fwd_rx_queue := map Priv ps, remotefd := fd', cache := m',
      receiving_failed := False, reply_queue := (reply_queue (px g))(sid p := reply_queue (px g) (sid p) @ [p'])\<rparr>)" "tx_part fd' = tx_part (remotefd (px g))"
    using rx_round_ok[OF q i(3,1) Cons.prems(2,3) rest(2,1) i(2) Cons.prems(6)] by blast
  let ?x = "(px g)\<lparr>fwd_rx_queue := map Priv ps, remotefd := fd', cache := m', receiving_failed := False,
    reply_queue := (reply_queue (px g))(sid p := reply_queue (px g) (sid p) @ [p'])\<rparr>"
  have st: "step R g (RxRound p) (g\<lparr>px := ?x, valid := valid g \<union> touched p\<rparr>)"
    using arr i(1) Cons.prems(6) by (intro step.rx_round[OF q _ _ r(1)]) (auto simp: replies_arrived_def)
  have "machine_inv R D (g\<lparr>px := ?x, valid := valid g \<union> touched p\<rparr>)" using rx_inv[OF Cons.prems(1-3) st] by blast
  moreover have "all_answered (g\<lparr>px := ?x, valid := valid g \<union> touched p\<rparr>)" using Cons.prems(5) r(2) by (simp add: all_answered_def tx_part_def)
  ultimately obtain es g' where "run R (g\<lparr>px := ?x, valid := valid g \<union> touched p\<rparr>) es g'" "enqueued es = []"
    "fwd_tx_queue (px g') = fwd_tx_queue (px g)" "fwd_rx_queue (px g') = []"
    using Cons.IH[of "g\<lparr>px := ?x, valid := valid g \<union> touched p\<rparr>"] Cons.prems by auto
  with run_Cons[OF st] show ?case by (intro exI[of _ "RxRound p # es"] exI[of _ g']) simp
qed

lemma drain:
  assumes "machine_inv R D g" and "0 \<le> D" and "D < 9223372036854771712" and "\<forall>p. Priv p \<in> set (fwd_tx_queue (px g)) \<longrightarrow> short p"
  shows "\<exists>es g'. run R g es g' \<and> enqueued es = [] \<and> fwd_tx_queue (px g') = [] \<and> fwd_rx_queue (px g') = []"
proof -
  from assms(1) obtain fs where fs: "fwd_tx_queue (px g) = map Priv fs" by (auto simp: machine_inv_def)
  then have "list_all short fs" using assms(4) by (auto simp: list_all_iff)
  from drain_tx[OF assms(1-3) fs this] obtain es1 g1 where 1: "run R g es1 g1" "enqueued es1 = []" "machine_inv R D g1" "fwd_tx_queue (px g1) = []"
    by blast
  from drain_remote[OF 1(3) assms(3)] 1(4) obtain es2 g2 where 2: "run R g1 es2 g2" "enqueued es2 = []" "machine_inv R D g2" "fwd_tx_queue (px g2) = []"
    "all_answered g2" by auto
  from 2(3) obtain ps where "fwd_rx_queue (px g2) = map Priv ps" by (auto simp: machine_inv_def)
  moreover have "rx_kernel_ok D works_rx" by (simp add: rx_kernel_ok_def works_rx_def mmap_works_def)
  ultimately obtain es3 g3 where 3: "run R g2 es3 g3" "enqueued es3 = []" "fwd_tx_queue (px g3) = []" "fwd_rx_queue (px g3) = []"
    using drain_rx[OF 2(3) assms(2,3) _ 2(5)] 2(4) by metis
  from run_append[OF 2(1) 1(1)] have "run R g (es1 @ es2) g2" .
  from run_append[OF 3(1) this] 1(2) 2(2) 3 show ?thesis by (intro exI[of _ "(es1 @ es2) @ es3"] exI[of _ g3]) simp
qed



end
