(* ===== verification/Proxy.thy ===== *)
theory Proxy
  imports Proxy_Progress Target
begin

text \<open>
  \<open>xnbd_proxy.c\<close>: the sessions of the proxy. The rx thread of a session receives the client's
  requests and queues them for the forwarder, the tx thread takes completed requests from the session's
  queue and sends the replies; both account for the memory of the requests in the proxy.
\<close>

section \<open>Accounting\<close>

text \<open>\<open>struct xnbd_proxy\<close> with the counters, and the members of \<open>struct xnbd_info\<close> the sessions look at.\<close>

record proxy_server =
  prx :: xnbd_proxy
  cur_use_buf :: u64
  cur_use_que :: u64
  proxy_max_buf_size :: u64
  proxy_max_que_size :: u64
  px_readonly :: bool

text \<open>\<open>sizeof(struct proxy_priv)\<close> on a 64-bit machine.\<close>

definition sizeof_proxy_priv :: u64 where "sizeof_proxy_priv = 624"

definition buf_use :: "proxy_priv \<Rightarrow> u64" where
  "buf_use priv = sizeof_proxy_priv + (if write_buff priv \<noteq> None \<or> read_buff priv \<noteq> None then iolen priv else 0)"

definition mem_usage_add :: "proxy_server \<Rightarrow> proxy_priv \<Rightarrow> stop + proxy_server" where
  "mem_usage_add proxy priv =
     bindE (assertE ''both buffers are allocated'' (\<not> (write_buff priv \<noteq> None \<and> read_buff priv \<noteq> None))) (\<lambda>_.
       let proxy = (if proxy_max_buf_size proxy \<noteq> 0 then proxy\<lparr>cur_use_buf := cur_use_buf proxy + buf_use priv\<rparr> else proxy)
       in Inr (if proxy_max_que_size proxy \<noteq> 0 then proxy\<lparr>cur_use_que := cur_use_que proxy + 1\<rparr> else proxy))"

definition mem_usage_del :: "proxy_server \<Rightarrow> proxy_priv \<Rightarrow> proxy_server" where
  "mem_usage_del proxy priv =
     (let proxy = (if proxy_max_buf_size proxy \<noteq> 0 then proxy\<lparr>cur_use_buf := cur_use_buf proxy - buf_use priv\<rparr> else proxy)
      in if proxy_max_que_size proxy \<noteq> 0 then proxy\<lparr>cur_use_que := cur_use_que proxy - 1\<rparr> else proxy)"

lemma prx_mem_usage_del [simp]: "prx (mem_usage_del proxy priv) = prx proxy"
  by (simp add: mem_usage_del_def Let_def)

text \<open>
  The loop of \<open>mem_usage_wait\<close>: it looks at the state again and again until neither limit is exceeded. The
  list is what it sees, and the result the state in which it goes on.
\<close>

fun mem_usage_wait :: "proxy_server list \<Rightarrow> proxy_server option" where
  "mem_usage_wait [] = None"
| "mem_usage_wait (proxy # later) =
     (let mem_is_full = (proxy_max_buf_size proxy \<noteq> 0 \<and> cur_use_buf proxy > proxy_max_buf_size proxy);
          queue_is_full = (proxy_max_que_size proxy \<noteq> 0 \<and> cur_use_que proxy > proxy_max_que_size proxy)
      in if \<not> mem_is_full \<and> \<not> queue_is_full then Some proxy else mem_usage_wait later)"

section \<open>The rx thread of a session\<close>

text \<open>\<open>struct proxy_session\<close>; the local \<open>need_skip\<close> of the tx thread is kept with it, and \<open>errno\<close>.\<close>

record proxy_session =
  ps_id :: nat
  nbd_fd :: sock
  ps_errno :: nat
  need_skip :: bool

definition new_priv :: "nat \<Rightarrow> proxy_priv" where
  "new_priv s = \<lparr>sid = s, iotype = 0, req = [], iofrom = 0, iolen = 0, block_index_start = 0, block_index_end = 0,
     reply = fresh_reply, write_buff = None, read_buff = None, need_exit = False, need_retry = False, prepare_done = False, seqnum = 0\<rparr>"

text \<open>\<open>g_malloc(0)\<close> is NULL; the contents of a new buffer are never read before they are written.\<close>

definition g_malloc :: "u64 \<Rightarrow> bytes option" where
  "g_malloc n = (if n = 0 then None else Some (replicate (unat n) 0))"

text \<open>\<open>recv_request\<close> up to the point where it waits for memory; the flag is False for \<open>err_handle\<close>.\<close>

definition receive_priv :: "poll_result \<Rightarrow> int \<Rightarrow> bool \<Rightarrow> proxy_session \<Rightarrow> stop + bool \<times> proxy_priv \<times> proxy_session" where
  "receive_priv poll dsize readonly ps =
     (let priv = new_priv (ps_id ps) in
      bindE (wait_until_readable poll) (\<lambda>ret.
        if ret < 0 then Inr (False, priv, ps)
        else case nbd_server_recv_request (nbd_fd ps) dsize fresh_out of (ret, q, s) \<Rightarrow>
          let ps = ps\<lparr>nbd_fd := s\<rparr>; priv = priv\<lparr>reply := reply_arg q\<rparr>; ty = iotype_arg q; from = iofrom_arg q; len = iolen_arg q in
          if ret = NBD_SERVER_RECV__BAD_REQUEST \<or> ret = NBD_SERVER_RECV__MAGIC_MISMATCH \<or> ret = NBD_SERVER_RECV__TERMINATE then
            Inr (False, priv, ps)
          else if readonly \<and> (ty = NBD_CMD_WRITE \<or> ty = NBD_CMD_TRIM) then Inr (False, priv, ps)
          else
            let priv = priv\<lparr>iotype := ty, iofrom := from, iolen := len, block_index_start := get_bindex_sta 4096 from,
                  block_index_end := get_bindex_end 4096 (sint (word_of_int from + len))\<rparr> in
            if ty = NBD_CMD_WRITE then
              (case net_recv_all_or_error s (case g_malloc len of None \<Rightarrow> [] | Some b \<Rightarrow> b) (ps_errno ps) of (ret, b, s', e') \<Rightarrow>
                 let priv = priv\<lparr>write_buff := map_option (\<lambda>_. b) (g_malloc len)\<rparr>; ps = ps\<lparr>nbd_fd := s', ps_errno := e'\<rparr> in
                 Inr (\<not> ret < 0, priv, ps))
            else if ty = NBD_CMD_READ then Inr (True, priv\<lparr>read_buff := g_malloc len\<rparr>, ps)
            else if ty = NBD_CMD_CACHE \<or> ty = NBD_CMD_FLUSH \<or> ty = NBD_CMD_TRIM then Inr (True, priv, ps)
            else Inr (False, priv, ps)))"

definition push_fwd_tx :: "proxy_priv \<Rightarrow> proxy_server \<Rightarrow> proxy_server" where
  "push_fwd_tx priv proxy = proxy\<lparr>prx := (prx proxy)\<lparr>fwd_tx_queue := fwd_tx_queue (prx proxy) @ [Priv priv]\<rparr>\<rparr>"

text \<open>
  \<open>recv_request\<close>: \<open>later\<close> are the states of the proxy seen while waiting for memory. \<^const>\<open>None\<close>: it is
  still waiting. The request that ends the session does not wait.
\<close>

definition recv_request :: "poll_result \<Rightarrow> proxy_server list \<Rightarrow> proxy_server \<Rightarrow> proxy_session \<Rightarrow>
    (stop + int \<times> proxy_server \<times> proxy_session) option" where
  "recv_request poll later proxy ps =
     (case receive_priv poll (disksize (prx proxy)) (px_readonly proxy) ps of
        Inl e \<Rightarrow> Some (Inl e)
      | Inr (True, priv, ps') \<Rightarrow>
          (case mem_usage_wait (proxy # later) of
             None \<Rightarrow> None
           | Some proxy \<Rightarrow> Some (bindE (mem_usage_add proxy priv) (\<lambda>proxy. Inr (0, push_fwd_tx priv proxy, ps'))))
      | Inr (False, priv, ps') \<Rightarrow>
          let priv = priv\<lparr>need_exit := True, iotype := NBD_CMD_UNDEFINED\<rparr> in
          Some (bindE (mem_usage_add proxy priv) (\<lambda>proxy. Inr (-1, push_fwd_tx priv proxy, ps'))))"

section \<open>The tx thread of a session\<close>

text \<open>The reply of a completed request; the reply structure and the buffer lie at 0 and 16.\<close>

definition send_reply :: "proxy_session \<Rightarrow> proxy_priv \<Rightarrow> int \<times> proxy_session" where
  "send_reply ps priv =
     (let buf = (case read_buff priv of None \<Rightarrow> [] | Some b \<Rightarrow> b);
          iov0 = \<lparr>iov_base = 0, iov_len = 16\<rparr>;
          iov = (if iotype priv = NBD_CMD_READ then [iov0, \<lparr>iov_base = 16, iov_len = unat (iolen priv)\<rparr>] else [iov0])
      in case net_writev_all_or_error (mem_of (enc_reply (reply priv) @ buf)) (nbd_fd ps) iov (ps_errno ps) of (ret, s, e) \<Rightarrow>
        (ret, ps\<lparr>nbd_fd := s, ps_errno := e\<rparr>))"

text \<open>
  One round of the loop of \<open>tx_thread_main\<close>, on a non-empty queue of the session; the result is
  \<open>need_exit\<close>, after which the thread notifies the main thread and ends.
\<close>

definition tx_thread_round :: "proxy_server \<Rightarrow> proxy_session \<Rightarrow> bool \<times> proxy_server \<times> proxy_session" where
  "tx_thread_round proxy ps =
     (case reply_queue (prx proxy) (ps_id ps) of
        [] \<Rightarrow> (False, proxy, ps)
      | priv # rest \<Rightarrow>
          let proxy = proxy\<lparr>prx := (prx proxy)\<lparr>reply_queue := (reply_queue (prx proxy))(ps_id ps := rest)\<rparr>\<rparr>;
              ps = (if need_exit priv \<or> need_skip ps then ps
                    else case send_reply ps priv of (ret, ps') \<Rightarrow> if ret < 0 then ps'\<lparr>need_skip := True\<rparr> else ps')
          in (need_exit priv, mem_usage_del proxy priv, ps))"

fun tx_thread_main :: "nat \<Rightarrow> proxy_server \<Rightarrow> proxy_session \<Rightarrow> bool \<times> proxy_server \<times> proxy_session" where
  "tx_thread_main 0 proxy ps = (False, proxy, ps)"
| "tx_thread_main (Suc n) proxy ps =
     (case tx_thread_round proxy ps of (ex, proxy', ps') \<Rightarrow> if ex then (True, proxy', ps') else tx_thread_main n proxy' ps')"

section \<open>What a session queues\<close>

fun priv_of :: "nat \<Rightarrow> req \<Rightarrow> proxy_priv" where
  "priv_of s (ReadReq h f len) = (new_priv s)\<lparr>reply := ok_reply h, iotype := NBD_CMD_READ, iofrom := f, iolen := len,
     block_index_start := get_bindex_sta 4096 f, block_index_end := get_bindex_end 4096 (f + uint len), read_buff := Some (replicate (unat len) 0)\<rparr>"
| "priv_of s (WriteReq h f bs) = (new_priv s)\<lparr>reply := ok_reply h, iotype := NBD_CMD_WRITE, iofrom := f, iolen := of_nat (length bs),
     block_index_start := get_bindex_sta 4096 f, block_index_end := get_bindex_end 4096 (f + int (length bs)), write_buff := Some bs\<rparr>"
| "priv_of s (FlushReq h) = (new_priv s)\<lparr>reply := ok_reply h, iotype := NBD_CMD_FLUSH,
     block_index_start := get_bindex_sta 4096 0, block_index_end := get_bindex_end 4096 0\<rparr>"

text \<open>Requests of less than 1 GiB, the limit of the forwarder's analysis.\<close>

fun moderate :: "req \<Rightarrow> bool" where
  "moderate (ReadReq h f len) \<longleftrightarrow> uint len < 1073741824"
| "moderate (WriteReq h f bs) \<longleftrightarrow> length bs < 1073741824"
| "moderate (FlushReq h) \<longleftrightarrow> True"

lemma priv_of_fresh: "sane D r \<Longrightarrow> moderate r \<Longrightarrow> fresh_ok D (priv_of s r)"
  by (cases r) (auto simp: fresh_ok_def shape_def new_priv_def of_nat_len)

lemma sint_end: "0 \<le> f \<Longrightarrow> f + uint len \<le> D \<Longrightarrow> D \<le> 0x7FFFFFFFFFFFFFFF \<Longrightarrow> sint (word_of_int f + len :: u64) = f + uint len"
  using sint_of_small[of "f + uint len"] uint_ge_0[of len] by (simp add: word_of_int_uint wi_hom_add[symmetric] del: wi_hom_add)

definition ready :: poll_result where "ready = PollReady True False"

lemma ready_readable [simp]: "wait_until_readable ready = Inr 0"
  by (simp add: ready_def wait_until_readable_def)

lemma receive_priv_req:
  assumes "sane D r" and "D \<le> 0x7FFFFFFFFFFFFFFF" and "readonly \<longrightarrow> \<not> writes r" and "wf_sock (nbd_fd ps)"
    and "pending (nbd_fd ps) = enc_req r @ rest"
  shows "\<exists>s'. receive_priv ready D readonly ps = Inr (True, priv_of (ps_id ps) r, ps\<lparr>nbd_fd := s'\<rparr>) \<and> wf_sock s' \<and> pending s' = rest \<and>
    tx_part s' = tx_part (nbd_fd ps)"
proof (cases r)
  case (ReadReq h f len)
  then obtain s1 where "nbd_server_recv_request (nbd_fd ps) D fresh_out =
      (0, \<lparr>iotype_arg = 0, iofrom_arg = f, iolen_arg = len, reply_arg = ok_reply h\<rparr>, s1)"
      "wf_sock s1" "pending s1 = rest" "tx_part s1 = tx_part (nbd_fd ps)"
    using recv_req_header[of "nbd_fd ps" f len D 0 h rest] assms by auto
  moreover have "len \<noteq> 0" "sint (word_of_int f + len) = f + uint len" using ReadReq assms(1,2) sint_end[of f len D] by auto
  ultimately show ?thesis using ReadReq by (intro exI[of _ s1]) (simp add: receive_priv_def Let_def g_malloc_def)
next
  case (WriteReq h f bs)
  then have len: "uint (of_nat (length bs) :: u64) = int (length bs)" "unat (of_nat (length bs) :: u64) = length bs"
    using assms(1) of_nat_len by auto
  obtain s1 where s1: "nbd_server_recv_request (nbd_fd ps) D fresh_out =
      (0, \<lparr>iotype_arg = 1, iofrom_arg = f, iolen_arg = of_nat (length bs), reply_arg = ok_reply h\<rparr>, s1)"
      "wf_sock s1" "pending s1 = bs @ rest" "tx_part s1 = tx_part (nbd_fd ps)"
    using recv_req_header[of "nbd_fd ps" f "of_nat (length bs)" D 1 h "bs @ rest"] assms WriteReq len by auto
  have ne: "(of_nat (length bs) :: u64) \<noteq> 0" using WriteReq assms(1) len(2) by force
  have se: "sint (word_of_int f + of_nat (length bs) :: u64) = f + int (length bs)"
    using sint_end[of f "of_nat (length bs)" D] assms(1,2) WriteReq len(1) by auto
  obtain s2 where "net_recv_all_or_error s1 (replicate (length bs) 0) (ps_errno ps) = (int (length bs), bs, s2, ps_errno ps)"
      "wf_sock s2" "pending s2 = rest" "tx_part s2 = tx_part s1"
    using net_recv_all_or_error_full[OF s1(2), of "replicate (length bs) 0" "ps_errno ps"] s1(3) assms(1) WriteReq by auto
  with s1 ne se len assms(3) WriteReq show ?thesis by (intro exI[of _ s2]) (auto simp: receive_priv_def Let_def g_malloc_def)
next
  case (FlushReq h)
  then obtain s1 where "nbd_server_recv_request (nbd_fd ps) D fresh_out =
      (0, \<lparr>iotype_arg = 3, iofrom_arg = 0, iolen_arg = 0, reply_arg = ok_reply h\<rparr>, s1)"
      "wf_sock s1" "pending s1 = rest" "tx_part s1 = tx_part (nbd_fd ps)"
    using recv_req_header[of "nbd_fd ps" 0 0 D 3 h rest] assms by auto
  then show ?thesis using FlushReq by (intro exI[of _ s1]) (simp add: receive_priv_def Let_def new_priv_def)
qed

text \<open>The requests the loop of \<open>rx_thread_main\<close> queues, one per call of \<open>recv_request\<close>, with the one that ends it.\<close>

fun rx_requests :: "poll_result list \<Rightarrow> int \<Rightarrow> bool \<Rightarrow> proxy_session \<Rightarrow> stop + proxy_priv list \<times> proxy_session" where
  "rx_requests [] dsize readonly ps = Inr ([], ps)"
| "rx_requests (p # polls) dsize readonly ps =
     bindE (receive_priv p dsize readonly ps) (\<lambda>(ok, priv, ps').
       if ok then bindE (rx_requests polls dsize readonly ps') (\<lambda>(privs, ps''). Inr (priv # privs, ps''))
       else Inr ([priv\<lparr>need_exit := True, iotype := NBD_CMD_UNDEFINED\<rparr>], ps'))"

abbreviation disc_bytes :: bytes where
  "disc_bytes \<equiv> enc_request \<lparr>rq_magic = htonl NBD_REQUEST_MAGIC, rq_type = htonl NBD_CMD_DISC, rq_handle = 0, rq_from = 0, rq_len = 0\<rparr>"

definition exit_priv :: "nat \<Rightarrow> proxy_priv" where
  "exit_priv s = (new_priv s)\<lparr>need_exit := True, iotype := NBD_CMD_UNDEFINED\<rparr>"

lemma rx_requests_reqs:
  assumes "list_all (sane D) rs" and "D \<le> 0x7FFFFFFFFFFFFFFF" and "wf_sock (nbd_fd ps)"
    and "pending (nbd_fd ps) = concat (map enc_req rs) @ disc_bytes"
  shows "\<exists>s'. rx_requests (replicate (Suc (length rs)) ready) D False ps =
      Inr (map (priv_of (ps_id ps)) rs @ [exit_priv (ps_id ps)], ps\<lparr>nbd_fd := s'\<rparr>) \<and> tx_part s' = tx_part (nbd_fd ps)"
  using assms
proof (induction rs arbitrary: ps)
  case Nil
  from recv_disc[OF Nil(3), of 0 0 0 "[]" D fresh_out] Nil(4) obtain s' where
    "nbd_server_recv_request (nbd_fd ps) D fresh_out = (NBD_SERVER_RECV__TERMINATE, fresh_out, s')" "tx_part s' = tx_part (nbd_fd ps)" by auto
  then show ?case by (intro exI[of _ s']) (simp add: receive_priv_def Let_def exit_priv_def new_priv_def fresh_out_def)
next
  case (Cons r rs)
  obtain s1 where s1: "receive_priv ready D False ps = Inr (True, priv_of (ps_id ps) r, ps\<lparr>nbd_fd := s1\<rparr>)" "wf_sock s1"
    "pending s1 = concat (map enc_req rs) @ disc_bytes" "tx_part s1 = tx_part (nbd_fd ps)"
    using receive_priv_req[of D r False ps "concat (map enc_req rs) @ disc_bytes"] Cons.prems by auto
  from Cons.IH[of "ps\<lparr>nbd_fd := s1\<rparr>"] Cons.prems s1 obtain s' where
    "rx_requests (replicate (Suc (length rs)) ready) D False (ps\<lparr>nbd_fd := s1\<rparr>) =
      Inr (map (priv_of (ps_id ps)) rs @ [exit_priv (ps_id ps)], ps\<lparr>nbd_fd := s'\<rparr>)" "tx_part s' = tx_part (nbd_fd ps)" by auto
  with s1(1) show ?case by (intro exI[of _ s']) simp
qed

section \<open>What a session sends\<close>

definition reply_bytes :: "proxy_priv \<Rightarrow> bytes" where
  "reply_bytes p = enc_reply (reply p) @ (if iotype p = NBD_CMD_READ then (case read_buff p of None \<Rightarrow> [] | Some b \<Rightarrow> b) else [])"

definition sendable :: "proxy_priv \<Rightarrow> bool" where
  "sendable p \<longleftrightarrow> \<not> need_exit p \<and> uint (iolen p) < 1073741824 \<and>
     (iotype p = NBD_CMD_READ \<longrightarrow> (\<exists>b. read_buff p = Some b \<and> length b = unat (iolen p)))"

lemma net_writev_all_or_error_full:
  assumes "writable s" and "iov_total iov < 2147483648"
  shows "\<exists>s'. net_writev_all_or_error m s iov e = (int (iov_total iov), s', e) \<and> writable s' \<and> tx s' = tx s @ gather m iov"
proof -
  obtain plan where "net_iov_all False iov 0 m s e = (int (iov_total iov), m, s\<lparr>tx := tx s @ gather m iov, tx_plan := plan\<rparr>, e)"
    and "\<forall>x \<in> set plan. \<not> isl x"
    using net_iov_all_write_full[OF assms(2,1), of 0 m e] by auto
  then show ?thesis using assms(2)
    by (intro exI[of _ "s\<lparr>tx := tx s @ gather m iov, tx_plan := plan\<rparr>"])
      (simp add: net_writev_all_or_error_def int32_of_nat writable_def)
qed

lemma gather_header: "gather (mem_of (enc_reply r @ buf)) [\<lparr>iov_base = 0, iov_len = 16\<rparr>] = enc_reply r"
proof -
  have "peek (mem_of (enc_reply r @ buf)) 0 (16 + length buf) = enc_reply r @ buf" by (simp add: peek_mem_of)
  then show ?thesis by (simp add: gather_def peek_add)
qed

lemma send_reply_ok:
  assumes "sendable p" and "writable (nbd_fd ps)"
  shows "\<exists>ret s'. send_reply ps p = (ret, ps\<lparr>nbd_fd := s'\<rparr>) \<and> 0 \<le> ret \<and> writable s' \<and> tx s' = tx (nbd_fd ps) @ reply_bytes p"
proof -
  let ?buf = "case read_buff p of None \<Rightarrow> [] | Some b \<Rightarrow> b"
  let ?iov0 = "\<lparr>iov_base = 0, iov_len = 16\<rparr>"
  let ?iov = "if iotype p = NBD_CMD_READ then [?iov0, \<lparr>iov_base = 16, iov_len = unat (iolen p)\<rparr>] else [?iov0]"
  have "int (unat (iolen p)) = uint (iolen p)" by simp
  then have "unat (iolen p) < 1073741824" using assms(1) unfolding sendable_def by linarith
  then have "iov_total ?iov < 2147483648" by auto
  from net_writev_all_or_error_full[OF assms(2) this, of "mem_of (enc_reply (reply p) @ ?buf)" "ps_errno ps"] obtain s' where
    "net_writev_all_or_error (mem_of (enc_reply (reply p) @ ?buf)) (nbd_fd ps) ?iov (ps_errno ps) = (int (iov_total ?iov), s', ps_errno ps)"
    "writable s'" "tx s' = tx (nbd_fd ps) @ gather (mem_of (enc_reply (reply p) @ ?buf)) ?iov" by blast
  moreover have "gather (mem_of (enc_reply (reply p) @ ?buf)) ?iov = reply_bytes p"
    using assms(1) by (auto simp: reply_bytes_def sendable_def gather_reply gather_header)
  ultimately show ?thesis by (intro exI[of _ "int (iov_total ?iov)"] exI[of _ s']) (simp add: send_reply_def Let_def)
qed

lemma tx_thread_main_sends:
  assumes "reply_queue (prx proxy) (ps_id ps) = qs @ [e]" and "list_all sendable qs" and "need_exit e" and "writable (nbd_fd ps)" and "\<not> need_skip ps"
  shows "\<exists>proxy' s'. tx_thread_main (Suc (length qs)) proxy ps = (True, proxy', ps\<lparr>nbd_fd := s'\<rparr>) \<and>
    tx s' = tx (nbd_fd ps) @ concat (map reply_bytes qs) \<and> reply_queue (prx proxy') (ps_id ps) = []"
  using assms
proof (induction qs arbitrary: proxy ps)
  case Nil
  then have "tx_thread_main (Suc 0) proxy ps =
      (True, mem_usage_del (proxy\<lparr>prx := (prx proxy)\<lparr>reply_queue := (reply_queue (prx proxy))(ps_id ps := [])\<rparr>\<rparr>) e, ps\<lparr>nbd_fd := nbd_fd ps\<rparr>)"
    by (simp add: tx_thread_round_def Let_def)
  then show ?case by (intro exI[of _ "nbd_fd ps"] exI) (auto simp: prx_mem_usage_del)
next
  case (Cons q qs)
  obtain ret s1 where s1: "send_reply ps q = (ret, ps\<lparr>nbd_fd := s1\<rparr>)" "0 \<le> ret" "writable s1" "tx s1 = tx (nbd_fd ps) @ reply_bytes q"
    using send_reply_ok[of q ps] Cons.prems by auto
  let ?px = "mem_usage_del (proxy\<lparr>prx := (prx proxy)\<lparr>reply_queue := (reply_queue (prx proxy))(ps_id ps := qs @ [e])\<rparr>\<rparr>) q"
  have "tx_thread_round proxy ps = (False, ?px, ps\<lparr>nbd_fd := s1\<rparr>)"
    using s1 Cons.prems by (simp add: tx_thread_round_def Let_def sendable_def)
  moreover have "reply_queue (prx ?px) (ps_id ps) = qs @ [e]" by simp
  ultimately show ?case using Cons.IH[of ?px "ps\<lparr>nbd_fd := s1\<rparr>"] Cons.prems s1 by auto
qed

section \<open>A session end to end\<close>

lemma completes_serve:
  assumes "same_request (priv_of s r) p" and "completes p p' A A'" and "sane D r" and "moderate r"
  shows "sendable p'" and "reply_bytes p' = fst (serve_spec A r)" and "A' = snd (serve_spec A r)" and "sid p = s"
  using assms by (cases r; auto simp: same_request_def completes_def new_priv_def sendable_def reply_bytes_def of_nat_len)+

lemma run_spec_snoc: "run_spec d (rs @ [r]) =
    (fst (run_spec d rs) @ fst (serve_spec (snd (run_spec d rs)) r), snd (serve_spec (snd (run_spec d rs)) r))"
  by (induction rs arbitrary: d) (auto split: prod.splits)

lemma disk_run_serves:
  assumes "disk_run A log A'" and "list_all2 same_request (map (priv_of s) rs) (map fst log)" and "list_all (sane D) rs" and "list_all moderate rs"
  shows "list_all sendable (map snd log) \<and> concat (map (\<lambda>e. reply_bytes (snd e)) log) = fst (run_spec A rs) \<and> A' = snd (run_spec A rs) \<and>
    (\<forall>e \<in> set log. sid (fst e) = s)"
  using assms
proof (induction arbitrary: rs rule: disk_run.induct)
  case (disk_step A log A' p p' A'')
  then obtain rs' r where rs: "rs = rs' @ [r]" by (cases rs rule: rev_cases) auto
  then have l: "list_all2 same_request (map (priv_of s) rs') (map fst log)" "same_request (priv_of s r) p"
    using disk_step.prems(1) list_all2_lengthD[OF disk_step.prems(1)] by (auto simp: list_all2_append)
  from completes_serve[OF l(2) disk_step.hyps(2), of D] disk_step.IH[OF l(1)] disk_step.prems rs
  show ?case by (auto simp: run_spec_snoc)
qed auto

lemma disk_run_snoc: "disk_run A (log @ [(p, p')]) A'' \<Longrightarrow> \<exists>A'. disk_run A log A' \<and> completes p p' A' A''"
  by (erule disk_run.cases) auto

text \<open>
  C2. The proxy as an NBD server. A client sends requests and disconnects, and its rx thread queues what it
  receives; after any interleaving of the forwarder threads with the remote server in which all that was queued
  has been completed, the tx thread sends exactly the replies of the abstract server, on the disk whose initial contents are
  the marked blocks of the cache disk and the remote disk for the rest, and ends; the disk then
  seen through the proxy is the one the abstract server leaves.
\<close>

theorem proxy_session_refines:
  assumes "run R g es g'" and "start R D g" and "0 \<le> D" and "D < 9223372036854771712"
    and "wf_sock (nbd_fd ps)" and "writable (nbd_fd ps)" and "\<not> need_skip ps" and "reply_queue (px g) (ps_id ps) = []"
    and "list_all (sane D) rs" and "list_all moderate rs" and "pending (nbd_fd ps) = concat (map enc_req rs) @ disc_bytes"
    and "rx_requests (replicate (Suc (length rs)) ready) D False ps = Inr (enqueued es, ps1)"
    and "fwd_tx_queue (px g') = []" and "fwd_rx_queue (px g') = []" and "prx proxy = px g'"
  shows "\<exists>proxy' ps'. tx_thread_main (Suc (length rs)) proxy ps1 = (True, proxy', ps') \<and>
    tx (nbd_fd ps') = tx (nbd_fd ps) @ fst (run_spec (view D R (marked (cbitmap (px g))) (cache (px g))) rs) \<and>
    view D R (valid g') (cache (px g')) = snd (run_spec (view D R (marked (cbitmap (px g))) (cache (px g))) rs)"
proof -
  let ?s = "ps_id ps" and ?A = "view D R (marked (cbitmap (px g))) (cache (px g))" and ?A' = "view D R (valid g') (cache (px g'))"
  obtain s1 where q: "enqueued es = map (priv_of ?s) rs @ [exit_priv ?s]" and ps1: "ps1 = ps\<lparr>nbd_fd := s1\<rparr>" and tp: "tx_part s1 = tx_part (nbd_fd ps)"
    using rx_requests_reqs[OF assms(9) _ assms(5,11)] assms(4,12) by auto
  have "valid g = marked (cbitmap (px g))" using assms(2) by (simp add: start_def)
  with run_inv[OF assms(1-4)] assms(13,14) obtain log where log: "disk_run ?A log ?A'"
    "\<forall>s. reply_queue (px g') s = reply_queue (px g) s @ map snd (filter (\<lambda>e. sid (fst e) = s) log)"
    "list_all2 same_request (map (priv_of ?s) rs @ [exit_priv ?s]) (map fst log)" by (auto simp: q)
  then obtain log1 p p' where l1: "log = log1 @ [(p, p')]" by (cases log rule: rev_cases) auto
  with log(3) have l2: "list_all2 same_request (map (priv_of ?s) rs) (map fst log1)" "same_request (exit_priv ?s) p"
    using list_all2_lengthD[OF log(3)] by (auto simp: list_all2_append)
  obtain A1 where A1: "disk_run ?A log1 A1" "completes p p' A1 ?A'" using disk_run_snoc log(1) l1 by blast
  have e: "need_exit p'" "sid p = ?s" "?A' = A1" using l2(2) A1(2) by (auto simp: same_request_def exit_priv_def new_priv_def completes_def)
  note sv = disk_run_serves[OF A1(1) l2(1) assms(9,10)]
  then have "filter (\<lambda>e. sid (fst e) = ?s) log1 = log1" by (auto simp: filter_id_conv)
  with log(2) l1 e(2) assms(8,15) have "reply_queue (prx proxy) (ps_id ps1) = map snd log1 @ [p']" by (simp add: ps1)
  from tx_thread_main_sends[OF this _ e(1)] sv assms(6,7) tp sock_part_simps(1)[OF tp]
  have "\<exists>proxy' s'. tx_thread_main (Suc (length log1)) proxy ps1 = (True, proxy', ps1\<lparr>nbd_fd := s'\<rparr>) \<and>
    tx s' = tx s1 @ concat (map reply_bytes (map snd log1))" by (auto simp: ps1)
  moreover have "length log1 = length rs" using list_all2_lengthD[OF l2(1)] by simp
  ultimately show ?thesis using sv e(3) sock_part_simps(1)[OF tp] by (auto simp: o_def)
qed

lemma drain_session:
  assumes "start R D g" and "0 \<le> D" and "D < 9223372036854771712" and "list_all (fresh_ok D) ps" and "list_all short ps"
  shows "\<exists>es g'. run R g es g' \<and> enqueued es = ps \<and> fwd_tx_queue (px g') = [] \<and> fwd_rx_queue (px g') = []"
proof -
  have "disksize (px g) = D" "fwd_tx_queue (px g) = []" using assms(1) by (auto simp: start_def)
  with enqueue_all[of g ps R] assms(4) obtain g1 where g1: "run R g (map Enqueue ps) g1" "fwd_tx_queue (px g1) = map Priv ps" by auto
  from run_inv[OF g1(1) assms(1-3)] have "machine_inv R D g1" by blast
  moreover have "\<forall>p. Priv p \<in> set (fwd_tx_queue (px g1)) \<longrightarrow> short p" using g1(2) assms(5) by (auto simp: list_all_iff)
  ultimately obtain es g' where "run R g1 es g'" "enqueued es = []" "fwd_tx_queue (px g') = []" "fwd_rx_queue (px g') = []"
    using drain[OF _ assms(2,3)] by blast
  with run_append[OF this(1) g1(1)] show ?thesis by (intro exI[of _ "map Enqueue ps @ es"] exI[of _ g']) simp
qed

definition demo_session :: proxy_session where
  "demo_session = \<lparr>ps_id = 0, nbd_fd = \<lparr>rx = [enc_req (WriteReq 1 10 [8, 9]) @ enc_req (ReadReq 2 9 4) @ disc_bytes], rx_end = None, tx = [],
     tx_plan = []\<rparr>, ps_errno = 0, need_skip = False\<rparr>"

theorem proxy_session_refines_witness:
  "\<exists>es g' ps1 proxy' ps'. run (\<lambda>_. 7) demo_machine es g' \<and> rx_requests [ready, ready, ready] 8192 False demo_session = Inr (enqueued es, ps1) \<and>
     tx_thread_main 3 \<lparr>prx = px g', cur_use_buf = 0, cur_use_que = 0, proxy_max_buf_size = 0, proxy_max_que_size = 0, px_readonly = False\<rparr> ps1 =
       (True, proxy', ps') \<and> tx (nbd_fd ps') = enc_reply (ok_reply 1) @ enc_reply (ok_reply 2) @ [0, 8, 9, 0]"
proof -
  let ?rs = "[WriteReq 1 10 [8, 9], ReadReq 2 9 4]" and ?A = "view 8192 (\<lambda>_. 7) (marked [1]) (\<lambda>_. 0)"
  have ne: "enc_req (WriteReq 1 10 [8, 9]) \<noteq> []" by simp
  then have s: "wf_sock (nbd_fd demo_session)" "writable (nbd_fd demo_session)" "pending (nbd_fd demo_session) = concat (map enc_req ?rs) @ disc_bytes"
    by (auto simp: demo_session_def wf_sock_def writable_def pending_def)
  have sane: "list_all (sane 8192) ?rs" "list_all moderate ?rs" by simp_all
  let ?ps = "map (priv_of 0) ?rs @ [exit_priv 0]"
  obtain ps1 where rx: "rx_requests (replicate 3 ready) 8192 False demo_session = Inr (?ps, ps1)"
    using rx_requests_reqs[OF sane(1) _ s(1,3)] by (auto simp: demo_session_def numeral_3_eq_3)
  have "list_all (fresh_ok 8192) ?ps" using priv_of_fresh sane by (auto simp: fresh_ok_def shape_def exit_priv_def new_priv_def)
  moreover have "list_all short ?ps" by (simp add: short_def caches_def exit_priv_def new_priv_def get_bindex_end_def get_bindex_sta_def)
  ultimately obtain es g' where r: "run (\<lambda>_. 7) demo_machine es g'" "enqueued es = ?ps" "fwd_tx_queue (px g') = []" "fwd_rx_queue (px g') = []"
    using drain_session[OF demo_start] by fastforce
  have "0 \<in> marked [1]" by (simp add: marked_def)
  then have "peek (poke ?A 10 [8, 9]) 9 4 = [0, 8, 9, 0 :: u8]"
    by (simp add: peek_def poke_def upt_rec numeral_eq_Suc view_def)
  then have out: "fst (run_spec ?A ?rs) = enc_reply (ok_reply 1) @ enc_reply (ok_reply 2) @ [0, 8, 9, 0]" by simp
  have "replicate (Suc (length ?rs)) ready = replicate 3 ready" by (simp add: numeral_3_eq_3)
  with rx r(2) have rx': "rx_requests (replicate (Suc (length ?rs)) ready) 8192 False demo_session = Inr (enqueued es, ps1)" by simp
  let ?px = "\<lparr>prx = px g', cur_use_buf = 0, cur_use_que = 0, proxy_max_buf_size = 0, proxy_max_que_size = 0, px_readonly = False\<rparr>"
  have d: "\<not> need_skip demo_session" "reply_queue (px demo_machine) (ps_id demo_session) = []" "tx (nbd_fd demo_session) = []"
    "cbitmap (px demo_machine) = [1]" "cache (px demo_machine) = (\<lambda>_. 0)" by (simp_all add: demo_session_def demo_machine_def)
  from proxy_session_refines[OF r(1) demo_start _ _ s(1,2) d(1,2) sane s(3) rx' r(3,4), of ?px] obtain proxy' ps' where
    "tx_thread_main (Suc (length ?rs)) ?px ps1 = (True, proxy', ps')" "tx (nbd_fd ps') = fst (run_spec ?A ?rs)" by (auto simp: d simp del: tx_thread_main.simps)
  moreover have "Suc (length ?rs) = 3" "[ready, ready, ready] = replicate 3 ready" by (simp_all add: numeral_3_eq_3)
  ultimately show ?thesis using r(1,2) rx unfolding out by (intro exI[of _ es] exI[of _ g'] exI[of _ ps1]) metis
qed

end
