(* ===== verification/Proxy_Main.thy ===== *)
theory Proxy_Main
  imports Proxy
begin

text \<open>
  The main thread of the proxy (\<open>main_loop\<close> of \<open>xnbd_proxy.c\<close>): sessions that come and go, queries, and the
  replacement of the connection to the remote server with its retry queue. Then the memory accounting over all
  threads, and what the retry queue does to the order of requests.
\<close>

section \<open>Replacing the remote connection\<close>

text \<open>
  \<open>g_async_queue_push_sorted\<close> is glib's and a parameter: comparison function, queue, new element. Its
  documentation: a negative value means that the first argument is to be higher in the queue than the second.
\<close>

type_synonym push_sorted = "(elem \<Rightarrow> elem \<Rightarrow> int) \<Rightarrow> elem list \<Rightarrow> elem \<Rightarrow> elem list"

definition keeps_order :: "push_sorted \<Rightarrow> bool" where
  "keeps_order push \<longleftrightarrow> (\<forall>cmp q x. (\<forall>y \<in> set q. cmp y x < 0) \<longrightarrow> push cmp q x = q @ [x])"

definition unshift_func :: "elem \<Rightarrow> elem \<Rightarrow> int" where
  "unshift_func a b = -1"

definition g_async_queue_push_unshift :: "push_sorted \<Rightarrow> elem list \<Rightarrow> elem \<Rightarrow> elem list" where
  "g_async_queue_push_unshift push queue data = push unshift_func queue data"

fun requeue :: "push_sorted \<Rightarrow> proxy_priv list \<Rightarrow> elem list \<Rightarrow> elem list" where
  "requeue push [] q = q"
| "requeue push (priv # retry) q = requeue push retry (g_async_queue_push_unshift push q (Priv (priv\<lparr>need_retry := False\<rparr>)))"

definition proxy_initialize_forwarder :: "xnbd_proxy \<Rightarrow> sock \<Rightarrow> xnbd_proxy" where
  "proxy_initialize_forwarder proxy fd = proxy\<lparr>remotefd := fd, receiving_failed := False, sending_failed := False\<rparr>"

text \<open>\<open>join\<close> is what the forwarder threads do until both have ended.\<close>

definition proxy_shutdown_forwarder :: "(xnbd_proxy \<Rightarrow> xnbd_proxy) \<Rightarrow> xnbd_proxy \<Rightarrow> xnbd_proxy" where
  "proxy_shutdown_forwarder join proxy = join (proxy\<lparr>fwd_tx_queue := fwd_tx_queue proxy @ [Stop]\<rparr>)"

text \<open>What happens between the end of the threads and the start of the new ones.\<close>

definition replace_forwarder :: "push_sorted \<Rightarrow> sock \<Rightarrow> xnbd_proxy \<Rightarrow> xnbd_proxy" where
  "replace_forwarder push fwd_fd proxy =
     (let proxy = proxy\<lparr>remotefd := nbd_client_send_disc_request (remotefd proxy)\<rparr>;
          proxy = proxy\<lparr>fwd_tx_queue := requeue push (fwd_retry_queue proxy) (fwd_tx_queue proxy), fwd_retry_queue := []\<rparr>
      in proxy_initialize_forwarder proxy fwd_fd)"

definition register_forwarder_fd :: "push_sorted \<Rightarrow> (xnbd_proxy \<Rightarrow> xnbd_proxy) \<Rightarrow> sock \<Rightarrow> xnbd_proxy \<Rightarrow> xnbd_proxy" where
  "register_forwarder_fd push join fwd_fd proxy = replace_forwarder push fwd_fd (proxy_shutdown_forwarder join proxy)"

section \<open>The main loop\<close>

record xnbd_proxy_query =
  q_disksize :: int
  q_diskpath :: string
  q_bmpath :: string
  q_master_pid :: int
  q_rhost :: string
  q_rport :: string
  q_max_use_buf :: u64
  q_max_use_que :: u64
  q_cur_use_buf :: u64
  q_cur_use_que :: u64

record proxy_main =
  srv :: proxy_server
  conn_list :: "proxy_session list"
  shared_buff :: bool
  proxy_diskpath :: string
  proxy_bmpath :: string
  proxy_rhost :: string
  proxy_rport :: string
  answers :: "xnbd_proxy_query list"

text \<open>
  What a call of \<open>main_loop\<close> meets: the outcome of \<open>poll\<close>, which descriptors are ready (the pipes by
  session), the accepted connection and the descriptor received over it, the outcome of \<open>mmap\<close>, the parent's process
  id, a name for a new session, and what the forwarder threads do until they end.
\<close>

record main_in =
  mi_poll_errno :: "nat option"
  mi_listen :: bool
  mi_master :: bool
  mi_pipes :: "nat list"
  mi_wrk :: "sock option"
  mi_fd :: sock
  mi_mmap :: bool
  mi_ppid :: int
  mi_new_id :: nat
  mi_join :: "xnbd_proxy \<Rightarrow> xnbd_proxy"

abbreviation (input) XNBD_PROXY_CMD_UNKNOWN :: u32 where "XNBD_PROXY_CMD_UNKNOWN \<equiv> 0"
abbreviation (input) XNBD_PROXY_CMD_QUERY_STATUS :: u32 where "XNBD_PROXY_CMD_QUERY_STATUS \<equiv> 1"
abbreviation (input) XNBD_PROXY_CMD_REGISTER_FD :: u32 where "XNBD_PROXY_CMD_REGISTER_FD \<equiv> 2"
abbreviation (input) XNBD_PROXY_CMD_REGISTER_FORWARDER_FD :: u32 where "XNBD_PROXY_CMD_REGISTER_FORWARDER_FD \<equiv> 3"
abbreviation (input) XNBD_PROXY_CMD_REGISTER_SHARED_BUFFER_FD :: u32 where "XNBD_PROXY_CMD_REGISTER_SHARED_BUFFER_FD \<equiv> 4"
abbreviation (input) XNBD_PROXY_CMD_DETECT_SWITCH :: u32 where "XNBD_PROXY_CMD_DETECT_SWITCH \<equiv> 5"

definition g_strlcpy :: "string \<Rightarrow> nat \<Rightarrow> string" where
  "g_strlcpy src n = take (n - 1) src"

definition query_status :: "main_in \<Rightarrow> proxy_main \<Rightarrow> xnbd_proxy_query" where
  "query_status i m = \<lparr>q_disksize = disksize (prx (srv m)), q_diskpath = g_strlcpy (proxy_diskpath m) 4096,
     q_bmpath = g_strlcpy (proxy_bmpath m) 4096, q_master_pid = mi_ppid i, q_rhost = g_strlcpy (proxy_rhost m) 4096,
     q_rport = g_strlcpy (proxy_rport m) 4096, q_max_use_buf = proxy_max_buf_size (srv m), q_max_use_que = proxy_max_que_size (srv m),
     q_cur_use_buf = cur_use_buf (srv m), q_cur_use_que = cur_use_que (srv m)\<rparr>"

definition get_session_from_read_fd :: "proxy_session list \<Rightarrow> nat \<Rightarrow> proxy_session option" where
  "get_session_from_read_fd conns fd = find (\<lambda>ps. ps_id ps = fd) conns"

text \<open>The \<open>switch\<close> on the command; the flag is \<open>close_wrk_fd\<close>.\<close>

definition run_command :: "push_sorted \<Rightarrow> main_in \<Rightarrow> u32 \<Rightarrow> proxy_main \<Rightarrow> stop + bool \<times> proxy_main" where
  "run_command push i cmd m =
     (if cmd = XNBD_PROXY_CMD_QUERY_STATUS then Inr (True, m\<lparr>answers := answers m @ [query_status i m]\<rparr>)
      else if cmd = XNBD_PROXY_CMD_REGISTER_FD then
        Inr (False, m\<lparr>conn_list := conn_list m @ [\<lparr>ps_id = mi_new_id i, nbd_fd = mi_fd i, ps_errno = 0, need_skip = False\<rparr>]\<rparr>)
      else if cmd = XNBD_PROXY_CMD_REGISTER_FORWARDER_FD then
        Inr (True, m\<lparr>srv := (srv m)\<lparr>prx := register_forwarder_fd push (mi_join i) (mi_fd i) (prx (srv m))\<rparr>\<rparr>)
      else if cmd = XNBD_PROXY_CMD_REGISTER_SHARED_BUFFER_FD then
        (if shared_buff m then Inr (True, m)
         else if \<not> mi_mmap i then Inl (Err ''mmap'') else Inr (True, m\<lparr>shared_buff := True\<rparr>))
      else if cmd = XNBD_PROXY_CMD_DETECT_SWITCH then Inr (False, m)
      else Inr (True, m))"

text \<open>Cleaning up the session whose tx thread has announced its end.\<close>

definition cleanup_session :: "nat \<Rightarrow> proxy_main \<Rightarrow> stop + proxy_main" where
  "cleanup_session fd m =
     (case get_session_from_read_fd (conn_list m) fd of
        None \<Rightarrow> Inl (Assert ''ps'')
      | Some ps \<Rightarrow>
          bindE (assertE ''g_async_queue_length(ps->tx_queue) == 0'' (reply_queue (prx (srv m)) (ps_id ps) = [])) (\<lambda>_.
            Inr (m\<lparr>conn_list := remove1 ps (conn_list m)\<rparr>)))"

definition main_loop :: "push_sorted \<Rightarrow> main_in \<Rightarrow> proxy_main \<Rightarrow> stop + int \<times> proxy_main" where
  "main_loop push i m =
     (case mi_poll_errno i of
        Some e \<Rightarrow> if e = EINTR then Inr (-1, m) else Inl (Err ''polling'')
      | None \<Rightarrow>
          bindE (if mi_listen i then
                   (case mi_wrk i of
                      None \<Rightarrow> Inl (Err ''accept'')
                    | Some wrk \<Rightarrow>
                        (case net_recv_all_or_error wrk (replicate 4 0) 0 of (ret, b, _, _) \<Rightarrow>
                           let cmd = (if ret < 0 then XNBD_PROXY_CMD_UNKNOWN else un_le b)
                           in bindE (run_command push i cmd m) (\<lambda>(_, m'). Inr m')))
                 else Inr m) (\<lambda>m.
            if mi_master i then Inr (-1, m)
            else bindE (foldE cleanup_session (mi_pipes i) m) (\<lambda>m. Inr (0, m))))"

section \<open>All threads of the proxy\<close>

text \<open>
  The steps of the proxy process with all its threads: a session receives a request or sends a reply, a
  forwarder thread makes a round, the main thread serves a command or replaces the forwarder (it tells the
  threads to stop, and goes on when they have ended), and the peers of the sockets do anything. The sessions
  ever created are among \<open>S\<close>.
\<close>

inductive pstep :: "push_sorted \<Rightarrow> nat list \<Rightarrow> proxy_main \<Rightarrow> proxy_main \<Rightarrow> bool" for push S where
  p_receive: "ps \<in> set (conn_list m) \<Longrightarrow> recv_request poll [] (srv m) ps = Some (Inr (ret, sv, ps')) \<Longrightarrow>
    pstep push S m (m\<lparr>srv := sv, conn_list := map (\<lambda>q. if q = ps then ps' else q) (conn_list m)\<rparr>)"
| p_reply: "ps \<in> set (conn_list m) \<Longrightarrow> tx_thread_round (srv m) ps = (ex, sv, ps') \<Longrightarrow>
    pstep push S m (m\<lparr>srv := sv, conn_list := map (\<lambda>q. if q = ps then ps' else q) (conn_list m)\<rparr>)"
| p_forward: "forwarder_tx_round (prx (srv m)) = Inr (go, x) \<Longrightarrow> pstep push S m (m\<lparr>srv := (srv m)\<lparr>prx := x\<rparr>\<rparr>)"
| p_complete: "forwarder_rx_thread_mainloop k (prx (srv m)) = Inr (ret, x) \<Longrightarrow> pstep push S m (m\<lparr>srv := (srv m)\<lparr>prx := x\<rparr>\<rparr>)"
| p_command: "cmd \<noteq> XNBD_PROXY_CMD_REGISTER_FORWARDER_FD \<Longrightarrow> mi_new_id i \<in> set S \<Longrightarrow> run_command push i cmd m = Inr (cl, m') \<Longrightarrow> pstep push S m m'"
| p_cleanup: "cleanup_session fd m = Inr m' \<Longrightarrow> pstep push S m m'"
| p_stop: "pstep push S m (m\<lparr>srv := (srv m)\<lparr>prx := proxy_shutdown_forwarder (\<lambda>x. x) (prx (srv m))\<rparr>\<rparr>)"
| p_replace: "pstep push S m (m\<lparr>srv := (srv m)\<lparr>prx := replace_forwarder push fd (prx (srv m))\<rparr>\<rparr>)"
| p_remote: "pstep push S m (m\<lparr>srv := (srv m)\<lparr>prx := (prx (srv m))\<lparr>remotefd := fd\<rparr>\<rparr>\<rparr>)"
| p_client: "pstep push S m (m\<lparr>conn_list := map (\<lambda>ps. ps\<lparr>nbd_fd := f (ps_id ps)\<rparr>) (conn_list m)\<rparr>)"

fun privs :: "elem list \<Rightarrow> proxy_priv list" where
  "privs [] = []"
| "privs (Stop # xs) = privs xs"
| "privs (Priv p # xs) = p # privs xs"

lemma privs_append [simp]: "privs (xs @ ys) = privs xs @ privs ys"
  by (induction xs rule: privs.induct) auto

text \<open>All requests in the proxy.\<close>

definition in_proxy :: "nat list \<Rightarrow> xnbd_proxy \<Rightarrow> proxy_priv list" where
  "in_proxy S x = privs (fwd_tx_queue x) @ privs (fwd_rx_queue x) @ fwd_retry_queue x @ concat (map (reply_queue x) S)"

definition held :: "(proxy_priv \<Rightarrow> u64) \<Rightarrow> nat list \<Rightarrow> xnbd_proxy \<Rightarrow> u64" where
  "held f S x = sum_list (map f (in_proxy S x))"

definition same_use :: "proxy_priv \<Rightarrow> proxy_priv \<Rightarrow> bool" where
  "same_use p p' \<longleftrightarrow> sid p' = sid p \<and> iolen p' = iolen p \<and> (write_buff p' = None \<longleftrightarrow> write_buff p = None) \<and> (read_buff p' = None \<longleftrightarrow> read_buff p = None)"

lemma same_use_buf: "same_use p p' \<Longrightarrow> buf_use p' = buf_use p"
  by (auto simp: same_use_def buf_use_def)

section \<open>What a round does to the requests\<close>

lemma foldE_Inr_inv: "foldE f xs s = Inr s' \<Longrightarrow> P s \<Longrightarrow> (\<And>x t t'. P t \<Longrightarrow> f x t = Inr t' \<Longrightarrow> P t') \<Longrightarrow> P s'"
  by (induction xs arbitrary: s) (auto simp: bindE_eq_Inr)

lemma add_read_block_use: "add_read_block_to_tail p i = Inr p' \<Longrightarrow> \<exists>r. p' = p\<lparr>req := r\<rparr>"
  by (auto simp: add_read_block_to_tail_def Let_def split: if_splits)

lemma prepare_read_use: "prepare_read_priv (bm, p, st) = Inr (bm', p', st') \<Longrightarrow> same_use p p'"
proof -
  assume a: "prepare_read_priv (bm, p, st) = Inr (bm', p', st')"
  have "same_use p (fst (snd (bm', p', st')))"
  proof (rule foldE_Inr_inv[where P = "\<lambda>s. same_use p (fst (snd s))"])
    show "foldE prepare_read_block (ul_range (block_index_start p) (block_index_end p)) (bm, p, st) = Inr (bm', p', st')"
      using a by (simp add: prepare_read_priv_def)
    show "same_use p (fst (snd (bm, p, st)))" by (simp add: same_use_def)
    fix x t t'
    assume h: "same_use p (fst (snd t))" "prepare_read_block x t = Inr t'"
    obtain b q s where t: "t = (b, q, s)" by (cases t)
    from h(2) have "\<exists>r. fst (snd t') = q\<lparr>req := r\<rparr> \<or> fst (snd t') = q"
      by (auto simp: t prepare_read_block_def Let_def bindE_eq_Inr split: if_splits dest!: add_read_block_use)
    with h(1) show "same_use p (fst (snd t'))" by (auto simp: t same_use_def)
  qed
  then show ?thesis by simp
qed

lemma prepare_write_use: "prepare_write_priv (bm, p, st) = Inr (bm', p', st') \<Longrightarrow> same_use p p'"
  by (auto simp: prepare_write_priv_def add_edge_block_def Let_def bindE_eq_Inr same_use_def split: if_splits)

lemma prepare_priv_use: "prepare_priv x p = Inr (x', p') \<Longrightarrow> same_use p p' \<and>
    fwd_tx_queue x' = fwd_tx_queue x \<and> fwd_rx_queue x' = fwd_rx_queue x \<and> fwd_retry_queue x' = fwd_retry_queue x \<and> reply_queue x' = reply_queue x"
  by (auto simp: prepare_priv_def bindE_eq_Inr split: if_splits dest!: prepare_read_use prepare_write_use)
    (auto simp: same_use_def)

text \<open>A round of the transmit thread takes a request from its queue and gives it to the receive thread.\<close>

lemma tx_round_moves:
  assumes "forwarder_tx_round x = Inr (go, x')"
  shows "fwd_retry_queue x' = fwd_retry_queue x \<and> reply_queue x' = reply_queue x \<and>
    (privs (fwd_tx_queue x') = privs (fwd_tx_queue x) \<and> privs (fwd_rx_queue x') = privs (fwd_rx_queue x) \<or>
     (\<exists>p p'. same_use p p' \<and> privs (fwd_tx_queue x) = p # privs (fwd_tx_queue x') \<and> privs (fwd_rx_queue x') = privs (fwd_rx_queue x) @ [p']))"
proof (cases "fwd_tx_queue x")
  case (Cons e xs)
  show ?thesis
  proof (cases e)
    case (Priv p)
    show ?thesis
    proof (cases "need_exit p")
      case True
      moreover have "same_use p p" by (simp add: same_use_def)
      ultimately show ?thesis using assms Cons Priv by (auto simp: forwarder_tx_round_def Let_def)
    next
      case False
      with assms Cons Priv obtain y q ok fd where y: "prepare_priv (x\<lparr>fwd_tx_queue := xs\<rparr>) p = Inr (y, q)"
        "send_reads (disksize y) (req q) (remotefd y) = Inr (ok, fd)"
        and x': "x' = y\<lparr>remotefd := fd, sending_failed := sending_failed y \<or> \<not> ok,
          fwd_rx_queue := fwd_rx_queue y @ [Priv (if sending_failed y \<or> \<not> ok then q\<lparr>need_retry := True\<rparr> else q)]\<rparr>"
        by (auto simp: forwarder_tx_round_def Let_def bindE_eq_Inr)
      have "same_use p (if sending_failed y \<or> \<not> ok then q\<lparr>need_retry := True\<rparr> else q)"
        using prepare_priv_use[OF y(1)] by (auto simp: same_use_def)
      with prepare_priv_use[OF y(1)] Cons Priv show ?thesis unfolding x' by auto
    qed
  qed (use assms Cons in \<open>auto simp: forwarder_tx_round_def Let_def\<close>)
qed (use assms in \<open>auto simp: forwarder_tx_round_def\<close>)

lemma complete_priv_use: "complete_priv k a p m = Inr (p', m') \<Longrightarrow> same_use p p'"
  by (auto simp: complete_priv_def same_use_def split: if_splits option.splits)

text \<open>A round of the receive thread gives it to its session, or to the retry queue.\<close>

lemma rx_round_moves:
  assumes "forwarder_rx_thread_mainloop k x = Inr (ret, x')"
  shows "fwd_tx_queue x' = fwd_tx_queue x \<and>
    (privs (fwd_rx_queue x') = privs (fwd_rx_queue x) \<and> fwd_retry_queue x' = fwd_retry_queue x \<and> reply_queue x' = reply_queue x \<or>
     (\<exists>p p'. same_use p p' \<and> privs (fwd_rx_queue x) = p # privs (fwd_rx_queue x') \<and>
       (fwd_retry_queue x' = fwd_retry_queue x @ [p'] \<and> reply_queue x' = reply_queue x \<or>
        fwd_retry_queue x' = fwd_retry_queue x \<and> reply_queue x' = (reply_queue x)(sid p := reply_queue x (sid p) @ [p']))))"
proof (cases "fwd_rx_queue x")
  case (Cons e xs)
  show ?thesis
  proof (cases e)
    case (Priv p)
    show ?thesis
    proof (cases "need_exit p")
      case True
      moreover have "same_use p p" by (simp add: same_use_def)
      ultimately show ?thesis using assms Cons Priv by (auto simp: forwarder_rx_thread_mainloop_def Let_def)
    next
      case False
      note d = assms[unfolded forwarder_rx_thread_mainloop_def Cons Priv list.case elem.case Let_def if_not_P[OF False]]
      obtain mbr where m: "mmap_block_region_create (rk_mmap k) (disksize x) (iofrom p) (iolen p) False = Inr mbr"
        using d by (cases "mmap_block_region_create (rk_mmap k) (disksize x) (iofrom p) (iolen p) False") auto
      obtain ok c fd where r: "recv_reads (disksize x) mbr (req p) (cache x) (remotefd x) = Inr (ok, c, fd)"
        using d m by (cases "recv_reads (disksize x) mbr (req p) (cache x) (remotefd x)") auto
      let ?p1 = "if receiving_failed x \<or> \<not> ok then p\<lparr>need_retry := True\<rparr> else p"
      let ?c = "if need_retry ?p1 then Inr (?p1, c) else complete_priv k (case mbr_iobuf mbr of None \<Rightarrow> 0 | Some a \<Rightarrow> a) ?p1 c"
      have e: "bindE ?c (\<lambda>(priv2, m2). bindE (mmap_block_region_free (rk_munmap k) mbr) (\<lambda>_.
          let proxy2 = x\<lparr>fwd_rx_queue := xs, remotefd := fd, receiving_failed := receiving_failed x \<or> \<not> ok, cache := m2\<rparr> in
          if need_retry priv2 then Inr (0, proxy2\<lparr>fwd_retry_queue := fwd_retry_queue x @ [priv2]\<rparr>)
          else Inr (0, proxy2\<lparr>reply_queue := (reply_queue x)(sid priv2 := reply_queue x (sid priv2) @ [priv2])\<rparr>))) = Inr (ret, x')"
        using d by (simp add: m r Let_def cong: if_cong)
      then obtain p2 c2 where c: "?c = Inr (p2, c2)" by (cases ?c) auto
      have "same_use p p2" using c by (auto simp: same_use_def split: if_splits dest!: complete_priv_use)
      moreover have "fwd_rx_queue x' = xs" "fwd_tx_queue x' = fwd_tx_queue x"
        "fwd_retry_queue x' = fwd_retry_queue x @ [p2] \<and> reply_queue x' = reply_queue x \<or>
         fwd_retry_queue x' = fwd_retry_queue x \<and> reply_queue x' = (reply_queue x)(sid p2 := reply_queue x (sid p2) @ [p2])"
        using e unfolding c by (auto simp: bindE_eq_Inr Let_def split: if_splits)
      ultimately show ?thesis using Cons Priv by (auto simp: same_use_def)
    qed
  qed (use assms Cons in \<open>auto simp: forwarder_rx_thread_mainloop_def Let_def\<close>)
qed (use assms in \<open>auto simp: forwarder_rx_thread_mainloop_def\<close>)

section \<open>The accounting invariant\<close>

lemma sum_reply_update:
  assumes "distinct S" and "s \<in> set S"
  shows "sum_list (map f (concat (map (q(s := v)) S))) = sum_list (map f (concat (map q S))) - sum_list (map f (q s)) + (sum_list (map f v) :: u64)"
  using assms
proof (induction S)
  case (Cons a S)
  show ?case
  proof (cases "a = s")
    case True
    then have e: "map (q(s := v)) S = map q S" using Cons.prems by auto
    show ?thesis unfolding list.map concat.simps map_append sum_list.append e unfolding True by simp
  next
    case False
    with Cons show ?thesis by simp
  qed
qed simp

definition known :: "nat list \<Rightarrow> xnbd_proxy \<Rightarrow> bool" where
  "known S x \<longleftrightarrow> (\<forall>p \<in> set (in_proxy S x). sid p \<in> set S)"

lemma known_reply: "known S x \<Longrightarrow> s \<in> set S \<Longrightarrow> sid ` set (reply_queue x s) \<subseteq> set S"
  by (auto simp: known_def in_proxy_def)

text \<open>A round of a forwarder thread moves requests and does not change what they hold.\<close>

lemma tx_round_held:
  assumes "forwarder_tx_round x = Inr (go, x')" and "known S x" and "\<And>p p'. same_use p p' \<Longrightarrow> f p' = f p"
  shows "held f S x' = held f S x \<and> known S x'"
proof -
  have k: "fwd_retry_queue x' = fwd_retry_queue x" "reply_queue x' = reply_queue x" using tx_round_moves[OF assms(1)] by simp_all
  from tx_round_moves[OF assms(1)] consider
      "privs (fwd_tx_queue x') = privs (fwd_tx_queue x)" "privs (fwd_rx_queue x') = privs (fwd_rx_queue x)"
    | p p' where "same_use p p'" "privs (fwd_tx_queue x) = p # privs (fwd_tx_queue x')" "privs (fwd_rx_queue x') = privs (fwd_rx_queue x) @ [p']"
    by blast
  then show ?thesis
  proof cases
    case (2 p p')
    then have "sid p' = sid p" "f p' = f p" using assms(3)[OF 2(1)] by (simp_all add: same_use_def)
    with 2 k assms(2) show ?thesis by (simp add: held_def known_def in_proxy_def)
  qed (use k assms(2) in \<open>simp_all add: held_def known_def in_proxy_def\<close>)
qed

lemma rx_round_held:
  assumes "forwarder_rx_thread_mainloop k x = Inr (ret, x')" and "distinct S" and "known S x" and "\<And>p p'. same_use p p' \<Longrightarrow> f p' = f p"
  shows "held f S x' = held f S x \<and> known S x'"
proof -
  have m: "fwd_tx_queue x' = fwd_tx_queue x" using rx_round_moves[OF assms(1)] by simp
  from rx_round_moves[OF assms(1)] consider
      "privs (fwd_rx_queue x') = privs (fwd_rx_queue x)" "fwd_retry_queue x' = fwd_retry_queue x" "reply_queue x' = reply_queue x"
    | p p' where "same_use p p'" "privs (fwd_rx_queue x) = p # privs (fwd_rx_queue x')" "fwd_retry_queue x' = fwd_retry_queue x @ [p']" "reply_queue x' = reply_queue x"
    | p p' where "same_use p p'" "privs (fwd_rx_queue x) = p # privs (fwd_rx_queue x')" "fwd_retry_queue x' = fwd_retry_queue x"
        "reply_queue x' = (reply_queue x)(sid p := reply_queue x (sid p) @ [p'])"
    by blast
  then show ?thesis
  proof cases
    case (2 p p')
    then have "sid p' = sid p" "f p' = f p" using assms(4)[OF 2(1)] by (simp_all add: same_use_def)
    with 2 m assms(3) show ?thesis by (simp add: held_def known_def in_proxy_def)
  next
    case (3 p p')
    then have e: "sid p' = sid p" "f p' = f p" using assms(4)[OF 3(1)] by (simp_all add: same_use_def)
    have s: "sid p \<in> set S" using assms(3) 3(2) by (simp add: known_def in_proxy_def)
    have "known S x'" using assms(3) 3 m e s by (auto simp: known_def in_proxy_def)
    moreover have "held f S x' = held f S x"
      using 3 m e sum_reply_update[OF assms(2) s, of f "reply_queue x" "reply_queue x (sid p) @ [p']"] by (simp add: held_def in_proxy_def)
    ultimately show ?thesis by simp
  qed (use m assms(3) in \<open>simp_all add: held_def known_def in_proxy_def\<close>)
qed

lemma requeue_append: "keeps_order push \<Longrightarrow> requeue push ps q = q @ map (\<lambda>p. Priv (p\<lparr>need_retry := False\<rparr>)) ps"
  by (induction ps arbitrary: q) (simp_all add: g_async_queue_push_unshift_def keeps_order_def unshift_func_def)

lemma privs_map [simp]: "privs (map (\<lambda>p. Priv (g p)) ps) = map g ps"
  by (induction ps) auto

lemma replace_held:
  assumes "keeps_order push" and "known S x" and "\<And>p p'. same_use p p' \<Longrightarrow> f p' = f p"
  shows "held f S (replace_forwarder push fd x) = held f S x \<and> known S (replace_forwarder push fd x)"
proof -
  have "f (p\<lparr>need_retry := False\<rparr>) = f p" for p by (rule assms(3)) (simp add: same_use_def)
  then have "f \<circ> (\<lambda>p. p\<lparr>need_retry := False\<rparr>) = f" by (simp add: fun_eq_iff)
  with assms(2) show ?thesis
    by (simp add: replace_forwarder_def proxy_initialize_forwarder_def Let_def requeue_append[OF assms(1)] held_def known_def in_proxy_def ball_Un add.commute add.left_commute)
qed

lemma receive_priv_sid: "receive_priv poll D ro ps = Inr (ok, p, ps') \<Longrightarrow> sid p = ps_id ps \<and> ps_id ps' = ps_id ps"
  by (auto simp: receive_priv_def Let_def bindE_eq_Inr new_priv_def split: if_splits prod.splits)

lemma recv_request_queues:
  assumes "recv_request poll [] sv ps = Some (Inr (ret, sv', ps'))"
  shows "\<exists>p sv1. mem_usage_add sv p = Inr sv1 \<and> sv' = push_fwd_tx p sv1 \<and> sid p = ps_id ps \<and> ps_id ps' = ps_id ps"
proof -
  obtain ok p q where r: "receive_priv poll (disksize (prx sv)) (px_readonly sv) ps = Inr (ok, p, q)"
    using assms by (cases "receive_priv poll (disksize (prx sv)) (px_readonly sv) ps") (auto simp: recv_request_def)
  note s = receive_priv_sid[OF r]
  show ?thesis
  proof (cases ok)
    case True
    with assms r s show ?thesis by (auto simp: recv_request_def bindE_eq_Inr Let_def split: if_splits)
  next
    case False
    have "sid (p\<lparr>need_exit := True, iotype := NBD_CMD_UNDEFINED\<rparr>) = ps_id ps" using s by simp
    with False assms r s show ?thesis by (fastforce simp: recv_request_def bindE_eq_Inr Let_def)
  qed
qed

definition acct :: "nat list \<Rightarrow> proxy_main \<Rightarrow> bool" where
  "acct S m \<longleftrightarrow> known S (prx (srv m)) \<and> (\<forall>ps \<in> set (conn_list m). ps_id ps \<in> set S) \<and>
     (proxy_max_buf_size (srv m) \<noteq> 0 \<longrightarrow> cur_use_buf (srv m) = held buf_use S (prx (srv m))) \<and>
     (proxy_max_que_size (srv m) \<noteq> 0 \<longrightarrow> cur_use_que (srv m) = held (\<lambda>_. 1) S (prx (srv m)))"

text \<open>A step that only changes the forwarder's state and not what the requests in it hold.\<close>

lemma acct_prx:
  assumes "acct S m" and "\<And>f. (\<And>p p'. same_use p p' \<Longrightarrow> f p' = f p) \<Longrightarrow> held f S x = held f S (prx (srv m)) \<and> known S x"
  shows "acct S (m\<lparr>srv := (srv m)\<lparr>prx := x\<rparr>\<rparr>)"
  using assms(1) assms(2)[of buf_use] assms(2)[of "\<lambda>_. 1"] same_use_buf by (auto simp: acct_def)

lemma acct_receive:
  assumes "acct S m" and "ps \<in> set (conn_list m)" and "recv_request poll [] (srv m) ps = Some (Inr (ret, sv, ps'))"
  shows "acct S (m\<lparr>srv := sv, conn_list := map (\<lambda>q. if q = ps then ps' else q) (conn_list m)\<rparr>)"
proof -
  from recv_request_queues[OF assms(3)] obtain p sv1 where a: "mem_usage_add (srv m) p = Inr sv1" and q: "sv = push_fwd_tx p sv1"
    and s: "sid p = ps_id ps" "ps_id ps' = ps_id ps" by blast
  have h: "held f S (prx sv) = f p + held f S (prx sv1)" for f by (simp add: q push_fwd_tx_def held_def in_proxy_def add.commute add.left_commute)
  have "known S (prx sv1) \<Longrightarrow> ps_id ps \<in> set S \<Longrightarrow> known S (prx sv)" by (auto simp: q push_fwd_tx_def known_def in_proxy_def s)
  with assms(1,2) a h s show ?thesis
    by (auto simp: acct_def mem_usage_add_def bindE_eq_Inr Let_def push_fwd_tx_def q split: if_splits)
qed

lemma acct_reply:
  assumes "acct S m" and "distinct S" and "ps \<in> set (conn_list m)" and "tx_thread_round (srv m) ps = (ex, sv, ps')"
  shows "acct S (m\<lparr>srv := sv, conn_list := map (\<lambda>q. if q = ps then ps' else q) (conn_list m)\<rparr>)"
proof (cases "reply_queue (prx (srv m)) (ps_id ps)")
  case Nil
  with assms(1,3,4) show ?thesis by (auto simp: tx_thread_round_def acct_def)
next
  case (Cons p rest)
  let ?x = "(prx (srv m))\<lparr>reply_queue := (reply_queue (prx (srv m)))(ps_id ps := rest)\<rparr>"
  have s: "ps_id ps \<in> set S" using assms(1,3) by (simp add: acct_def)
  have sv: "sv = mem_usage_del ((srv m)\<lparr>prx := ?x\<rparr>) p" and id: "ps_id ps' = ps_id ps"
    using assms(4) Cons by (auto simp: tx_thread_round_def Let_def send_reply_def split: if_splits prod.splits)
  have h: "held f S ?x = held f S (prx (srv m)) - f p" for f
    using sum_reply_update[OF assms(2) s, of f "reply_queue (prx (srv m))" rest] Cons by (simp add: held_def in_proxy_def)
  have "\<And>q. q \<in> set rest \<Longrightarrow> sid q \<in> set S" using known_reply[of S "prx (srv m)" "ps_id ps"] assms(1) s Cons by (auto simp: acct_def)
  then have "known S ?x" using assms(1) by (auto simp: acct_def known_def in_proxy_def split: if_splits)
  with assms(1) h id s show ?thesis by (auto simp: acct_def sv mem_usage_del_def Let_def)
qed

lemma acct_command: "acct S m \<Longrightarrow> cmd \<noteq> XNBD_PROXY_CMD_REGISTER_FORWARDER_FD \<Longrightarrow> mi_new_id i \<in> set S \<Longrightarrow>
    run_command push i cmd m = Inr (cl, m') \<Longrightarrow> acct S m'"
  by (auto simp: run_command_def acct_def split: if_splits)

lemma acct_cleanup: "acct S m \<Longrightarrow> cleanup_session fd m = Inr m' \<Longrightarrow> acct S m'"
  by (auto simp: cleanup_session_def bindE_eq_Inr acct_def dest: notin_set_remove1 split: option.splits)

lemma pstep_acct:
  assumes "pstep push S m m'" and "keeps_order push" and "distinct S" and "acct S m"
  shows "acct S m'"
  using assms(1)
proof cases
  case (p_receive ps poll ret sv ps')
  with acct_receive assms(4) show ?thesis by blast
next
  case (p_reply ps ex sv ps')
  with acct_reply assms(3,4) show ?thesis by blast
next
  case (p_forward go x)
  with acct_prx[OF assms(4)] tx_round_held assms(4) show ?thesis unfolding acct_def by blast
next
  case (p_complete k ret x)
  with acct_prx[OF assms(4)] rx_round_held assms(3,4) show ?thesis unfolding acct_def by blast
next
  case (p_command cmd i cl)
  with acct_command assms(4) show ?thesis by blast
next
  case (p_cleanup fd)
  with acct_cleanup assms(4) show ?thesis by blast
next
  case p_stop
  with assms(4) show ?thesis by (simp add: acct_def proxy_shutdown_forwarder_def held_def known_def in_proxy_def)
next
  case (p_replace fd)
  with acct_prx[OF assms(4)] replace_held[OF assms(2)] assms(4) show ?thesis unfolding acct_def by blast
next
  case (p_remote fd)
  with assms(4) show ?thesis by (simp add: acct_def held_def known_def in_proxy_def)
next
  case (p_client f)
  with assms(4) show ?thesis by (auto simp: acct_def)
qed

section \<open>Properties\<close>

text \<open>
  C23. The memory accounting is exact. In every execution of the proxy with all its threads, whatever the clients
  and the remote server do and however often the connection is replaced, the two counters are the number of requests in the proxy
  and the memory they take, modulo the width of the counters; when no request is left they are back at 0.
\<close>

theorem usage_exact:
  assumes "(pstep push S)\<^sup>*\<^sup>* m m'" and "keeps_order push" and "distinct S" and "conn_list m = []" and "in_proxy S (prx (srv m)) = []"
    and "cur_use_buf (srv m) = 0" and "cur_use_que (srv m) = 0"
  shows "(proxy_max_buf_size (srv m') \<noteq> 0 \<longrightarrow> cur_use_buf (srv m') = sum_list (map buf_use (in_proxy S (prx (srv m'))))) \<and>
    (proxy_max_que_size (srv m') \<noteq> 0 \<longrightarrow> cur_use_que (srv m') = of_nat (length (in_proxy S (prx (srv m')))))"
proof -
  have "acct S m" using assms(4-7) by (simp add: acct_def known_def held_def)
  with assms(1) have "acct S m'" by (induction rule: rtranclp_induct) (auto intro: pstep_acct assms(2,3))
  moreover have "sum_list (map (\<lambda>_. 1) ps) = (of_nat (length ps) :: u64)" for ps :: "proxy_priv list" by (induction ps) auto
  ultimately show ?thesis by (simp add: acct_def held_def)
qed

definition insert_sorted :: push_sorted where
  "insert_sorted cmp q x = takeWhile (\<lambda>y. cmp y x < 0) q @ x # dropWhile (\<lambda>y. cmp y x < 0) q"

lemma insert_sorted_order: "keeps_order insert_sorted"
  by (auto simp: keeps_order_def insert_sorted_def takeWhile_eq_all_conv[THEN iffD2] dropWhile_eq_Nil_conv[THEN iffD2])

definition demo_main :: proxy_main where
  "demo_main = \<lparr>srv = \<lparr>prx = px demo_machine, cur_use_buf = 0, cur_use_que = 0, proxy_max_buf_size = 1000000, proxy_max_que_size = 8,
     px_readonly = False\<rparr>, conn_list = [], shared_buff = False, proxy_diskpath = ''cache'', proxy_bmpath = ''bm'', proxy_rhost = ''h'',
     proxy_rport = ''8992'', answers = []\<rparr>"

definition demo_in :: main_in where
  "demo_in = \<lparr>mi_poll_errno = None, mi_listen = True, mi_master = False, mi_pipes = [], mi_wrk = None, mi_fd = nbd_fd demo_session,
     mi_mmap = True, mi_ppid = 1, mi_new_id = 0, mi_join = \<lambda>x. x\<rparr>"

theorem usage_exact_witness:
  "\<exists>m'. (pstep insert_sorted [0])\<^sup>*\<^sup>* demo_main m' \<and> length (conn_list m') = 1 \<and>
     cur_use_que (srv m') = of_nat (length (in_proxy [0] (prx (srv m'))))"
proof -
  let ?m = "demo_main\<lparr>conn_list := conn_list demo_main @ [\<lparr>ps_id = mi_new_id demo_in, nbd_fd = mi_fd demo_in, ps_errno = 0, need_skip = False\<rparr>]\<rparr>"
  have "run_command insert_sorted demo_in XNBD_PROXY_CMD_REGISTER_FD demo_main = Inr (False, ?m)" by (simp add: run_command_def)
  then have "pstep insert_sorted [0] demo_main ?m" by (rule p_command[rotated 2]) (simp_all add: demo_in_def)
  then have r: "(pstep insert_sorted [0])\<^sup>*\<^sup>* demo_main ?m" by blast
  from usage_exact[OF r insert_sorted_order] show ?thesis
    by (intro exI[of _ ?m]) (use r in \<open>auto simp: demo_main_def demo_machine_def in_proxy_def\<close>)
qed

text \<open>
  Requests that are retried lose their place: when the remote connection is replaced, they are queued
  behind the requests that arrived while the forwarder was stopped, not in front of them.
\<close>

lemma retried_requests_queue_behind:
  assumes "keeps_order push"
  shows "fwd_tx_queue (register_forwarder_fd push join fd proxy) =
      fwd_tx_queue (proxy_shutdown_forwarder join proxy) @ map (\<lambda>p. Priv (p\<lparr>need_retry := False\<rparr>)) (fwd_retry_queue (proxy_shutdown_forwarder join proxy))"
  by (simp add: register_forwarder_fd_def replace_forwarder_def proxy_initialize_forwarder_def Let_def requeue_append[OF assms])

text \<open>
  A disk of 8 bytes, nothing cached, whose remote server holds bytes 7; the connection to it breaks when the
  proxy asks for the first block. \<open>new_link\<close> is a new connection on which the answer to a read of the disk arrives.
\<close>

definition broken_proxy :: "elem list \<Rightarrow> xnbd_proxy" where
  "broken_proxy q = \<lparr>fwd_tx_queue = q, fwd_rx_queue = [], fwd_retry_queue = [], reply_queue = \<lambda>_. [],
     remotefd = \<lparr>rx = [], rx_end = None, tx = [], tx_plan = [Inl 32]\<rparr>, cache = \<lambda>_. 0, cbitmap = [0], disksize = 8, stat = zero_stat,
     fwd_counter = 0, sending_failed = False, receiving_failed = False\<rparr>"

definition new_link :: sock where
  "new_link = \<lparr>rx = [enc_reply \<lparr>rp_magic = htonl NBD_REPLY_MAGIC, rp_error = 0, rp_handle = htonll myhandle\<rparr> @ replicate 8 7], rx_end = None, tx = [],
     tx_plan = []\<rparr>"

text \<open>A round of each thread.\<close>

definition both_rounds :: "xnbd_proxy \<Rightarrow> stop + xnbd_proxy" where
  "both_rounds x = bindE (forwarder_tx_round x) (\<lambda>(_, x). bindE (forwarder_rx_thread_mainloop works_rx x) (\<lambda>(_, x). Inr x))"

text \<open>
  Client 1 reads the disk, the connection breaks, the forwarder is stopped; client 2 writes the disk, the
  connection is replaced, and both requests are carried out.
\<close>

definition read_fails :: "stop + xnbd_proxy" where
  "read_fails = both_rounds (broken_proxy [Priv (priv_of 1 (ReadReq 1 0 8))])"

definition forwarder_stopped :: "stop + xnbd_proxy" where
  "forwarder_stopped = bindE read_fails (\<lambda>x. both_rounds (proxy_shutdown_forwarder (\<lambda>x. x) x))"

definition write_carried_out :: "push_sorted \<Rightarrow> stop + xnbd_proxy" where
  "write_carried_out push = bindE forwarder_stopped (\<lambda>x.
     let x = x\<lparr>fwd_tx_queue := fwd_tx_queue x @ [Priv (priv_of 2 (WriteReq 2 0 [1, 2, 3, 4, 5, 6, 7, 8]))]\<rparr>
     in both_rounds (replace_forwarder push new_link x))"

definition write_during_reconnect :: "push_sorted \<Rightarrow> stop + xnbd_proxy" where
  "write_during_reconnect push = bindE (write_carried_out push) both_rounds"

lemma replace_forwarder_order: "keeps_order push \<Longrightarrow> replace_forwarder push = replace_forwarder insert_sorted"
  using insert_sorted_order by (simp add: fun_eq_iff replace_forwarder_def requeue_append Let_def)

definition result_holds :: "stop + xnbd_proxy \<Rightarrow> (xnbd_proxy \<Rightarrow> bool) \<Rightarrow> bool" where
  "result_holds r P = (case r of Inl _ \<Rightarrow> False | Inr x \<Rightarrow> P x)"

lemma write_answered: "result_holds (write_during_reconnect insert_sorted) (\<lambda>x. map iotype (reply_queue x 2) = [NBD_CMD_WRITE])"
  by code_simp

lemma nothing_under_way: "result_holds (write_during_reconnect insert_sorted)
    (\<lambda>x. length (fwd_tx_queue x) = 0 \<and> length (fwd_rx_queue x) = 0 \<and> length (fwd_retry_queue x) = 0)"
  by code_simp

lemma peek_8: "peek m 0 8 = map m [0, 1, 2, 3, 4, 5, 6, 7]"
proof -
  have "[0..<8] = [0, 1, 2, 3, 4, 5, 6, 7 :: nat]" by (simp add: upt_rec)
  then show ?thesis by (simp add: peek_def)
qed

lemma block_overwritten: "case write_during_reconnect insert_sorted of Inl _ \<Rightarrow> False
    | Inr x \<Rightarrow> map (cache x) [0, 1, 2, 3, 4, 5, 6, 7] = [7, 7, 7, 7, 7, 7, 7, 7]"
  by code_simp

text \<open>
  C24. An acknowledged write can be lost. A client writes a block while the connection to the remote server
  is being replaced and another client's read of that block waits to be retried: the write is carried out and
  answered first, then the retried read fetches the block from the remote server over it. Both clients have
  their replies, nothing is under way, and the cache disk holds the old contents.
\<close>

theorem acknowledged_write_lost:
  assumes "keeps_order push"
  shows "\<exists>x. write_during_reconnect push = Inr x \<and> map iotype (reply_queue x 2) = [NBD_CMD_WRITE] \<and> fwd_tx_queue x = [] \<and> fwd_rx_queue x = [] \<and>
    fwd_retry_queue x = [] \<and> peek (cache x) 0 8 = [7, 7, 7, 7, 7, 7, 7, 7]"
proof -
  have "write_during_reconnect push = write_during_reconnect insert_sorted"
    unfolding write_during_reconnect_def write_carried_out_def replace_forwarder_order[OF assms] by simp
  moreover obtain x where x: "write_during_reconnect insert_sorted = Inr x"
    using write_answered by (cases "write_during_reconnect insert_sorted") (simp_all add: result_holds_def)
  moreover have "map iotype (reply_queue x 2) = [NBD_CMD_WRITE]" "fwd_tx_queue x = []" "fwd_rx_queue x = []" "fwd_retry_queue x = []"
    using write_answered nothing_under_way by (simp_all add: x result_holds_def)
  moreover have "peek (cache x) 0 8 = [7, 7, 7, 7, 7, 7, 7, 7]" using block_overwritten unfolding x by (simp add: peek_8)
  ultimately show ?thesis by (intro exI[of _ x] conjI) (simp_all only:)
qed

theorem acknowledged_write_lost_witness:
  "\<exists>x. write_during_reconnect insert_sorted = Inr x \<and> map iotype (reply_queue x 2) = [NBD_CMD_WRITE] \<and> peek (cache x) 0 8 = [7, 7, 7, 7, 7, 7, 7, 7]"
  using acknowledged_write_lost[OF insert_sorted_order] by (elim ex_forward) (simp only: simp_thms)

text \<open>
  The request that ends a session overtakes the session's requests that wait to be retried: the session is
  cleaned up while the forwarder still holds a request that will be put into its queue.
\<close>

definition disconnect_while_broken :: "stop + xnbd_proxy" where
  "disconnect_while_broken =
     bindE (both_rounds (broken_proxy [Priv (priv_of 1 (ReadReq 1 0 8)), Priv (exit_priv 1)])) both_rounds"

lemma exit_overtakes_retry:
  "result_holds disconnect_while_broken (\<lambda>x. map need_exit (reply_queue x 1) = [True] \<and> map (\<lambda>p. (sid p, need_exit p)) (fwd_retry_queue x) = [(1, False)])"
  by code_simp

end
