(* ===== verification/Proxy_Start.thy ===== *)
theory Proxy_Start
  imports Proxy_Main
begin

text \<open>
  The life of the proxy process (\<open>xnbd_proxy.c\<close>): connecting to the remote server, setting up the
  bitmap and the cache disk, the end, the worker process of a session, and the cache request of the tools.
\<close>

section \<open>Setting up\<close>

text \<open>The cache disk file: the outcome of its system calls, its contents, its size.\<close>

record cache_file =
  cf_open :: bool
  cf_fstat_err :: "nat option"
  cf_stat :: stat_buf
  cf_seek_end :: int
  cf_ftruncate :: "nat option"
  cf_data :: mem

text \<open>The members of \<open>struct xnbd_info\<close> the proxy uses.\<close>

record proxy_info =
  pi_disksize :: int
  pi_nblocks :: u64
  pi_clear_bitmap :: bool
  pi_max_buf_size :: u64
  pi_max_que_size :: u64
  pi_readonly :: bool

text \<open>
  \<open>proxy_initialize\<close>: the server state, the length of the mapped bitmap and the size of the cache
  disk afterwards. A disk that grows is padded with zero bytes; a larger one is kept. A NULL bitmap is the empty array.
\<close>

definition proxy_initialize :: "proxy_info \<Rightarrow> bm_file \<Rightarrow> cache_file \<Rightarrow> sock \<Rightarrow> stop + proxy_server \<times> u64 \<times> int" where
  "proxy_initialize xnbd bm cf no_fd =
     bindE (bitmap_open_file bm (pi_nblocks xnbd) False (pi_clear_bitmap xnbd)) (\<lambda>(opened, _).
     if \<not> cf_open cf then Inl (Err ''open'')
     else bindE (get_disksize (cf_fstat_err cf) (cf_stat cf) (cf_seek_end cf)) (\<lambda>local_size.
     bindE (if local_size < pi_disksize xnbd then
              (case cf_ftruncate cf of
                 Some e \<Rightarrow> if e = EINVAL then Inl (Err ''ftruncate failed (since the local cache image is not a regular file)'') else Inl (Err ''ftruncate'')
               | None \<Rightarrow> Inr (\<lambda>x. if x < local_size then cf_data cf x else 0, pi_disksize xnbd))
            else Inr (cf_data cf, local_size)) (\<lambda>(data, size).
       let (cbitmap, cbitmaplen) = (case opened of None \<Rightarrow> ([], 0) | Some (b, len) \<Rightarrow> (b, len)) in
       Inr (\<lparr>prx = \<lparr>fwd_tx_queue = [], fwd_rx_queue = [], fwd_retry_queue = [], reply_queue = \<lambda>_. [], remotefd = no_fd, cache = data,
               cbitmap = cbitmap, disksize = pi_disksize xnbd, stat = zero_stat, fwd_counter = 0, sending_failed = False, receiving_failed = False\<rparr>,
             cur_use_buf = 0, cur_use_que = 0, proxy_max_buf_size = pi_max_buf_size xnbd, proxy_max_que_size = pi_max_que_size xnbd,
             px_readonly = pi_readonly xnbd\<rparr>, cbitmaplen, size))))"

text \<open>\<open>proxy_shutdown\<close>: whether it warns about requests left, and the bitmap is written out and unmapped.\<close>

definition proxy_shutdown :: "bool \<Rightarrow> bool \<Rightarrow> bool \<Rightarrow> u64 \<Rightarrow> proxy_server \<Rightarrow> stop + bool" where
  "proxy_shutdown munmap_shared msync munmap cbitmaplen proxy =
     (let warned = (cur_use_buf proxy \<noteq> 0 \<or> cur_use_que proxy \<noteq> 0) in
      if \<not> munmap_shared then Inl (Err ''munmap'')
      else bindE (bitmap_close_file msync munmap (if cbitmap (prx proxy) = [] then None else Some (cbitmap (prx proxy))) cbitmaplen)
             (\<lambda>_. Inr warned))"

text \<open>
  The first part of \<open>xnbd_proxy_start\<close>, before the fork: the remote server's negotiation gives the size of the disk.
\<close>

definition xnbd_proxy_start_connect :: "sock option \<Rightarrow> bytes option \<Rightarrow> bytes \<Rightarrow> bytes \<Rightarrow> proxy_info \<Rightarrow> stop + proxy_info \<times> sock" where
  "xnbd_proxy_start_connect connected exportname junk0 junk2 xnbd =
     (case connected of
        None \<Rightarrow> Inl (Err ''connecting failed'')
      | Some rfd \<Rightarrow>
          (case (case exportname of
                   Some name \<Rightarrow> nbd_negotiate_v2_client_side rfd (of_nat (length name)) name junk0 junk2
                 | None \<Rightarrow> nbd_negotiate_v1_client_side rfd junk0) of
             (ret, got, fd) \<Rightarrow>
               if ret < 0 then Inl (Err ''negotiation failed'')
               else let dsize = (case got of None \<Rightarrow> pi_disksize xnbd | Some (sz, _) \<Rightarrow> sz) in
                 if dsize = 0 then Inl (Err ''the size of the remote disk is zero'')
                 else Inr (xnbd\<lparr>pi_disksize := dsize, pi_nblocks := get_disk_nblocks dsize\<rparr>, fd)))"

text \<open>What the child does before its main loop, and the byte that tells the master it is ready.\<close>

definition xnbd_proxy_start_child :: "proxy_info \<Rightarrow> bm_file \<Rightarrow> cache_file \<Rightarrow> sock \<Rightarrow> bool \<Rightarrow> bool \<Rightarrow> bool \<Rightarrow> sock \<Rightarrow> stop + proxy_server \<times> sock" where
  "xnbd_proxy_start_child xnbd bm cf rfd socket_ok bind_ok listen_ok sockpair =
     bindE (proxy_initialize xnbd bm cf rfd) (\<lambda>(proxy, _, _).
       let proxy = proxy\<lparr>prx := proxy_initialize_forwarder (prx proxy) rfd\<rparr> in
       if \<not> socket_ok then Inl (Err ''socket'')
       else if \<not> bind_ok then Inl (Err ''binding'')
       else if \<not> listen_ok then Inl (Err ''listening'')
       else bindE (net_send_all_or_abort sockpair [0] 0) (\<lambda>(s, _). Inr (proxy, s)))"

text \<open>The parent waits for that byte.\<close>

definition xnbd_proxy_start_parent :: "sock \<Rightarrow> stop + sock" where
  "xnbd_proxy_start_parent sockpair = bindE (net_recv_all_or_abort sockpair [0] 0) (\<lambda>(_, s, _). Inr s)"

text \<open>\<open>xnbd_proxy_stop\<close> of the master, when all sessions have ended.\<close>

definition xnbd_proxy_stop :: "nat \<Rightarrow> sock \<Rightarrow> bool \<Rightarrow> (stop + sock) option" where
  "xnbd_proxy_stop nsessions master_fd waitpid_ok =
     (if nsessions \<noteq> 0 then Some (Inl (Assert ''g_list_length(xnbd->sessions) == 0''))
      else case write_all master_fd [0] of
        None \<Rightarrow> None
      | Some r \<Rightarrow> Some (bindE r (\<lambda>s. if waitpid_ok then Inr s else Inl (Err ''waitpid''))))"

section \<open>The worker process of a session\<close>

record worker_in =
  wi_poll_errno :: "nat option"
  wi_unix :: bool
  wi_pipe :: bool

text \<open>
  The loop of \<open>xnbd_proxy_session_server\<close>: the proxy's byte ends it, the master's byte is passed on. The list is
  what successive calls of \<open>poll\<close> report; \<^const>\<open>None\<close>: it waits for more.
\<close>

fun session_worker_loop :: "worker_in list \<Rightarrow> sock \<Rightarrow> sock \<Rightarrow> (stop + int) option \<times> sock" where
  "session_worker_loop [] unix_fd pipe_fd = (None, unix_fd)"
| "session_worker_loop (w # ws) unix_fd pipe_fd =
     (case wi_poll_errno w of
        Some e \<Rightarrow> (Some (Inl (Err (if e = EINTR then ''catch an unexpected signal'' else ''polling''))), unix_fd)
      | None \<Rightarrow>
          if wi_unix w then (case net_recv_all_or_error unix_fd [0] 0 of (_, _, s, _) \<Rightarrow> (Some (Inr 0), s))
          else if wi_pipe w then
            (case net_recv_all_or_error pipe_fd [0] 0 of (ret, _, p, _) \<Rightarrow>
               if ret < 0 then (Some (Inl (Err ''the master server was incorrectly terminated?'')), unix_fd)
               else case net_send_all_or_error unix_fd [0] 0 of (_, s, _) \<Rightarrow> session_worker_loop ws s p)
          else (Some (Inl (Err ''not reached'')), unix_fd))"

text \<open>\<open>unix_send_fd\<close> passes the client's descriptor along with one byte; \<open>sent\<close> is the success of its \<open>sendmsg\<close>.\<close>

definition unix_send_fd :: "bool \<Rightarrow> sock \<Rightarrow> sock" where
  "unix_send_fd sent s = (if sent then s\<lparr>tx := tx s @ [0]\<rparr> else s)"

definition xnbd_proxy_session_server :: "bool \<Rightarrow> worker_in list \<Rightarrow> sock \<Rightarrow> sock \<Rightarrow> (stop + int) option \<times> sock" where
  "xnbd_proxy_session_server sent ws unix_fd pipe_fd =
     (case net_send_all_or_abort unix_fd (le 4 (XNBD_PROXY_CMD_REGISTER_FD :: u32)) 0 of
        Inl e \<Rightarrow> (Some (Inl e), unix_fd)
      | Inr (s, _) \<Rightarrow> session_worker_loop ws (unix_send_fd sent s) pipe_fd)"

section \<open>Asking for blocks to be cached\<close>

definition xnbd_proxy_control_cache_block :: "sock \<Rightarrow> int \<Rightarrow> u64 \<Rightarrow> u64 \<Rightarrow> stop + sock" where
  "xnbd_proxy_control_cache_block ctl_fd dsize index nblocks =
     (let iofrom = sint index * CBLOCKSIZE;
          iolen = confine_iolen_within_disk dsize iofrom (nblocks * 4096)
      in bindE (nbd_client_send_request_header ctl_fd NBD_CMD_CACHE iofrom iolen (- 1)) (\<lambda>(ret, s).
           if ret < 0 then Inl (Err ''send_read_request'')
           else case nbd_client_recv_reply_header s (- 1) of (ret', s') \<Rightarrow>
             if ret' < 0 then Inl (Err ''recv header'') else Inr s'))"

section \<open>Properties\<close>

lemma bitmap_open_cap:
  assumes "unat nbits \<le> 18446744073709551552" and "nbits \<noteq> 0" and "bitmap_open_file f nbits False zc = Inr (res, af)"
  shows "\<exists>bm len. res = Some (bm, len) \<and> unat nbits \<le> 64 * length bm \<and> (\<not> zc \<and> contents f = Some bs \<and> bs \<noteq> [] \<longrightarrow> bm = words_of bs) \<and>
    (zc \<or> contents f \<in> {None, Some []} \<longrightarrow> marked bm = {})"
proof -
  note cap = BITS_TO_LONGS_cap[OF assms(1)]
  have pos: "unat (BITS_TO_LONGS nbits) \<noteq> 0" using cap(1) assms(2) by (auto simp: word_unat_eq_iff)
  show ?thesis using assms(2,3) cap pos
    by (cases "contents f") (auto simp: bitmap_open_file_def Let_def words_of_zeros split: if_splits)
qed

lemma nblocks_nonzero: "0 < D \<Longrightarrow> D < 9223372036854771712 \<Longrightarrow> get_disk_nblocks D \<noteq> 0 \<and> unat (get_disk_nblocks D) \<le> 18446744073709551552"
proof -
  assume a: "0 < D" "D < 9223372036854771712"
  then have n: "unat (get_disk_nblocks D) = nat ((D + 4095) div 4096)" by (intro nblocks_nat) auto
  have "1 \<le> (D + 4095) div 4096" "(D + 4095) div 4096 \<le> D + 4095" using a by (auto simp: zdiv_mono1 int_div_less_self)
  then have "0 < unat (get_disk_nblocks D)" "unat (get_disk_nblocks D) \<le> 18446744073709551552" using a unfolding n by linarith+
  then show ?thesis by auto
qed

text \<open>
  C25. A proxy that starts is in a state from which it serves the disk: when connecting and setting up succeed
  with a remote disk of a positive size, the forwarder's queues are empty, the bitmap has a bit for every block and
  holds what its file held (nothing if the file is new, empty or to be cleared), the cache disk is at least as
  large as the remote disk and keeps its contents, and the counters are 0.
\<close>

theorem proxy_starts_ready:
  assumes "proxy_initialize xnbd bm cf fd0 = Inr (proxy, len, csize)" and "pi_nblocks xnbd = get_disk_nblocks (pi_disksize xnbd)"
    and "0 < pi_disksize xnbd" and "pi_disksize xnbd < 9223372036854771712"
    and "tx fd = []" and "rx fd = []" and "writable fd" and "get_disksize (cf_fstat_err cf) (cf_stat cf) (cf_seek_end cf) = Inr old"
  shows "start R (pi_disksize xnbd) \<lparr>px = proxy_initialize_forwarder (prx proxy) fd, valid = marked (cbitmap (prx proxy)), answered = 0\<rparr> \<and>
    (if pi_clear_bitmap xnbd \<or> contents bm \<in> {None, Some []} then marked (cbitmap (prx proxy)) = {}
     else \<exists>bs. contents bm = Some bs \<and> cbitmap (prx proxy) = words_of bs) \<and>
    pi_disksize xnbd \<le> csize \<and> (\<forall>x < old. cache (prx proxy) x = cf_data cf x) \<and> cur_use_buf proxy = 0 \<and> cur_use_que proxy = 0"
proof -
  from assms(1) obtain opened af where o: "bitmap_open_file bm (pi_nblocks xnbd) False (pi_clear_bitmap xnbd) = Inr (opened, af)"
    by (auto simp: proxy_initialize_def bindE_eq_Inr)
  note nb = nblocks_nonzero[OF assms(3,4)]
  have cap: "unat (pi_nblocks xnbd) \<le> 18446744073709551552" "pi_nblocks xnbd \<noteq> 0" using nb assms(2) by auto
  obtain b l where b: "opened = Some (b, l)" "unat (pi_nblocks xnbd) \<le> 64 * length b"
    and zero: "pi_clear_bitmap xnbd \<or> contents bm \<in> {None, Some []} \<longrightarrow> marked b = {}"
    and kept: "\<And>bs. \<not> pi_clear_bitmap xnbd \<and> contents bm = Some bs \<and> bs \<noteq> [] \<longrightarrow> b = words_of bs"
    using bitmap_open_cap[OF cap o] by blast
  have "cbitmap (prx proxy) = b" "fwd_tx_queue (prx proxy) = []" "fwd_rx_queue (prx proxy) = []" "disksize (prx proxy) = pi_disksize xnbd"
    "pi_disksize xnbd \<le> csize" "\<forall>x < old. cache (prx proxy) x = cf_data cf x" "cur_use_buf proxy = 0" "cur_use_que proxy = 0"
    using assms(1,8) o b(1) by (auto simp: proxy_initialize_def bindE_eq_Inr Let_def split: if_splits option.splits)
  then show ?thesis using assms(2,5-7) b(2) zero kept
    by (auto simp: start_def proxy_initialize_forwarder_def)
qed

definition demo_info :: proxy_info where
  "demo_info = \<lparr>pi_disksize = 8192, pi_nblocks = 2, pi_clear_bitmap = False, pi_max_buf_size = 0, pi_max_que_size = 0, pi_readonly = False\<rparr>"

definition demo_bm :: bm_file where
  "demo_bm = \<lparr>contents = None, stat_errno = ENOENT, open_ok = True, ftruncate_ok = True, mmap_ok = True, msync_ok = True\<rparr>"

definition demo_cf :: cache_file where
  "demo_cf = \<lparr>cf_open = True, cf_fstat_err = None, cf_stat = \<lparr>st_mode = S_ISREG, st_size = 0, st_rdev_major = 0\<rparr>, cf_seek_end = 0,
     cf_ftruncate = None, cf_data = \<lambda>_. 0\<rparr>"

theorem proxy_starts_ready_witness:
  "\<exists>proxy len. proxy_initialize demo_info demo_bm demo_cf new_link = Inr (proxy, len, 8192) \<and>
     start (\<lambda>_. 7) 8192 \<lparr>px = proxy_initialize_forwarder (prx proxy) \<lparr>rx = [], rx_end = None, tx = [], tx_plan = []\<rparr>,
       valid = marked (cbitmap (prx proxy)), answered = 0\<rparr> \<and> marked (cbitmap (prx proxy)) = {}"
proof -
  have "\<exists>proxy len. proxy_initialize demo_info demo_bm demo_cf new_link = Inr (proxy, len, 8192)"
    by (simp add: proxy_initialize_def demo_info_def demo_bm_def demo_cf_def bitmap_open_file_def BITS_TO_LONGS_def get_disksize_def Let_def)
  then obtain proxy len where r: "proxy_initialize demo_info demo_bm demo_cf new_link = Inr (proxy, len, 8192)" by blast
  have "get_disk_nblocks 8192 = 2" by (simp add: word_unat_eq_iff nblocks_nat)
  with proxy_starts_ready[OF r, of "\<lparr>rx = [], rx_end = None, tx = [], tx_plan = []\<rparr>" 0 "\<lambda>_. 7"] r show ?thesis
    by (auto simp: demo_info_def demo_bm_def demo_cf_def get_disksize_def writable_def)
qed

end
