(* ===== verification/Sized_Queue.thy ===== *)
theory Sized_Queue
  imports Prelude
begin

text \<open>
  The bounded queue of \<open>xnbd_bgctl.c\<close>, between the thread that requests blocks and the one that
  waits for the replies. An operation runs with the mutex held; \<^const>\<open>None\<close> stands for waiting on the
  condition variable. The locale \<open>bounded_fifo\<close> is the contract of the queue, with what a producer and a
  consumer can rely on.
\<close>

section \<open>The code\<close>

text \<open>\<open>g_queue_push_head\<close> puts an element in front of the list, \<open>g_queue_pop_tail\<close> takes the last one.\<close>

record 'a sized_queue =
  sq_queue :: "'a list"
  sq_max :: u64
  sq_size :: u64

definition sized_async_queue_new :: "u64 \<Rightarrow> 'a sized_queue" where
  "sized_async_queue_new n = \<lparr>sq_queue = [], sq_max = n, sq_size = 0\<rparr>"

definition sized_async_queue_push :: "'a sized_queue \<Rightarrow> 'a \<Rightarrow> 'a sized_queue option" where
  "sized_async_queue_push q data =
     (if \<not> (sq_size q < sq_max q) then None
      else Some (q\<lparr>sq_queue := data # sq_queue q, sq_size := sq_size q + 1\<rparr>))"

definition sized_async_queue_pop :: "'a sized_queue \<Rightarrow> ('a \<times> 'a sized_queue) option" where
  "sized_async_queue_pop q =
     (if sq_queue q = [] then None
      else Some (last (sq_queue q), q\<lparr>sq_queue := butlast (sq_queue q), sq_size := sq_size q - 1\<rparr>))"

text \<open>\<open>sized_async_queue_destroy\<close>: whether it warns about data.\<close>

definition sized_async_queue_destroy :: "'a sized_queue \<Rightarrow> bool" where
  "sized_async_queue_destroy q = (sq_size q \<noteq> 0)"

section \<open>The contract of a bounded queue\<close>

text \<open>\<open>elems\<close> are the elements, the oldest first.\<close>

locale bounded_fifo =
  fixes push :: "'q \<Rightarrow> 'a \<Rightarrow> 'q option" and pop :: "'q \<Rightarrow> ('a \<times> 'q) option"
    and elems :: "'q \<Rightarrow> 'a list" and cap :: "'q \<Rightarrow> nat" and inv :: "'q \<Rightarrow> bool"
  assumes push_waits: "inv q \<Longrightarrow> push q x = None \<longleftrightarrow> cap q \<le> length (elems q)"
    and push_elems: "inv q \<Longrightarrow> push q x = Some q' \<Longrightarrow> elems q' = elems q @ [x] \<and> cap q' = cap q \<and> inv q'"
    and pop_waits: "inv q \<Longrightarrow> pop q = None \<longleftrightarrow> elems q = []"
    and pop_elems: "inv q \<Longrightarrow> pop q = Some (x, q') \<Longrightarrow> elems q = x # elems q' \<and> cap q' = cap q \<and> inv q'"
    and bounded: "inv q \<Longrightarrow> length (elems q) \<le> cap q"
begin

text \<open>A producer and a consumer on the queue: what is still to push, the queue, what was popped.\<close>

inductive moves :: "'a list \<times> 'q \<times> 'a list \<Rightarrow> 'a list \<times> 'q \<times> 'a list \<Rightarrow> bool" where
  push_move: "push q x = Some q' \<Longrightarrow> moves (x # todo, q, got) (todo, q', got)"
| pop_move: "pop q = Some (x, q') \<Longrightarrow> moves (todo, q, got) (todo, q', got @ [x])"

definition flow :: "'a list \<times> 'q \<times> 'a list \<Rightarrow> 'a list" where
  "flow = (\<lambda>(todo, q, got). got @ elems q @ todo)"

lemma moves_flow: "moves s s' \<Longrightarrow> inv (fst (snd s)) \<Longrightarrow> flow s' = flow s \<and> inv (fst (snd s')) \<and> cap (fst (snd s')) = cap (fst (snd s))"
  by (induction rule: moves.induct) (auto simp: flow_def dest: push_elems pop_elems)

lemma order_kept: "moves\<^sup>*\<^sup>* s s' \<Longrightarrow> inv (fst (snd s)) \<Longrightarrow> flow s' = flow s \<and> inv (fst (snd s')) \<and> cap (fst (snd s')) = cap (fst (snd s))"
  by (induction rule: rtranclp_induct) (auto dest: moves_flow)

lemma no_deadlock: "inv q \<Longrightarrow> 0 < cap q \<Longrightarrow> todo \<noteq> [] \<or> elems q \<noteq> [] \<Longrightarrow> \<exists>s'. moves (todo, q, got) s'"
proof (cases "elems q = []")
  case True
  assume "inv q" "0 < cap q" "todo \<noteq> [] \<or> elems q \<noteq> []"
  then obtain x xs q' where "todo = x # xs" "push q x = Some q'" using True push_waits[of q] by (cases todo) fastforce+
  then show ?thesis using push_move by blast
next
  case False
  assume "inv q"
  then obtain x q' where "pop q = Some (x, q')" using False pop_waits[of q] by (metis not_None_eq surj_pair)
  then show ?thesis using pop_move by blast
qed

text \<open>Every element takes two moves, so a run ends after as many.\<close>

lemma moves_measure: "moves s s' \<Longrightarrow> inv (fst (snd s)) \<Longrightarrow>
    2 * length (fst s') + length (elems (fst (snd s'))) < 2 * length (fst s) + length (elems (fst (snd s)))"
  by (induction rule: moves.induct) (auto dest: push_elems pop_elems)

end

section \<open>The queue of the program fulfils the contract\<close>

definition sq_inv :: "'a sized_queue \<Rightarrow> bool" where
  "sq_inv q \<longleftrightarrow> unat (sq_size q) = length (sq_queue q) \<and> sq_size q \<le> sq_max q"

interpretation sq: bounded_fifo sized_async_queue_push sized_async_queue_pop "\<lambda>q. rev (sq_queue q)" "\<lambda>q. unat (sq_max q)" sq_inv
proof (unfold_locales, goal_cases)
  case (1 q x)
  then show ?case by (auto simp: sized_async_queue_push_def sq_inv_def word_less_nat_alt)
next
  case (2 q x q')
  then have s: "sq_size q < sq_max q" by (auto simp: sized_async_queue_push_def split: if_splits)
  then have "unat (sq_size q + 1) = Suc (unat (sq_size q))"
    using unat_u64_less[of "sq_max q"] by (simp add: word_less_nat_alt unat_word_ariths)
  with 2 s show ?case by (auto simp: sized_async_queue_push_def sq_inv_def word_less_nat_alt word_le_nat_alt)
next
  case (3 q)
  then show ?case by (simp add: sized_async_queue_pop_def)
next
  case (4 q x q')
  then have ne: "sq_queue q \<noteq> []" "q' = q\<lparr>sq_queue := butlast (sq_queue q), sq_size := sq_size q - 1\<rparr>" "x = last (sq_queue q)"
    by (auto simp: sized_async_queue_pop_def split: if_splits)
  then have "sq_size q \<noteq> 0" using 4(1) by (auto simp: sq_inv_def)
  then have "unat (sq_size q - 1) = unat (sq_size q) - 1" by (simp add: unat_minus_one)
  with 4(1) ne show ?case
    by (cases "sq_queue q" rule: rev_cases) (auto simp: sq_inv_def word_le_nat_alt)
next
  case (5 q)
  then show ?case by (auto simp: sq_inv_def word_le_nat_alt)
qed

lemma sq_new: "sq_inv (sized_async_queue_new n)" "rev (sq_queue (sized_async_queue_new n)) = []" "sq_max (sized_async_queue_new n) = n"
  by (simp_all add: sized_async_queue_new_def sq_inv_def)

end
