(* ===== verification/Bgctl.thy ===== *)
theory Bgctl
  imports Proxy_Start Sized_Queue
begin

text \<open>
  \<open>xnbd_bgctl.c\<close>: the tool that controls a running proxy. Asking the proxy to cache all blocks, in the
  asynchronous way (a thread that sends the requests and one that waits for the replies, over the bounded
  queue), one by one, or over a connection of its own; the reconnection of the proxy; the guard of the switch to target mode.
\<close>

section \<open>Connections to the proxy\<close>

definition send_cmd :: "sock \<Rightarrow> u32 \<Rightarrow> stop + sock" where
  "send_cmd fd cmd = bindE (net_send_all_or_abort fd (le 4 cmd) 0) (\<lambda>(s, _). Inr s)"

text \<open>A new connection to the control socket, or to the remote server; \<^const>\<open>None\<close>: it failed.\<close>

definition unix_connect_ok :: "sock option \<Rightarrow> stop + sock" where
  "unix_connect_ok c = (case c of None \<Rightarrow> Inl (Err ''connect'') | Some s \<Rightarrow> Inr s)"

text \<open>\<open>reconnect\<close> goes on with descriptor -1 when the remote server cannot be reached; every transfer on it fails.\<close>

abbreviation (input) EBADF :: nat where "EBADF \<equiv> 9"

definition reconnect :: "sock option \<Rightarrow> sock option \<Rightarrow> bytes option \<Rightarrow> bytes \<Rightarrow> bytes \<Rightarrow> bool \<Rightarrow> stop + sock \<times> sock" where
  "reconnect unix remote exportname junk0 junk2 sent =
     bindE (unix_connect_ok unix) (\<lambda>fd.
       let fwd_fd = (case remote of None \<Rightarrow> \<lparr>rx = [], rx_end = Some EBADF, tx = [], tx_plan = [Inl EBADF]\<rparr> | Some s \<Rightarrow> s) in
       case (case exportname of
               Some name \<Rightarrow> nbd_negotiate_v2_client_side fwd_fd (of_nat (length name)) name junk0 junk2
             | None \<Rightarrow> nbd_negotiate_v1_client_side fwd_fd junk0) of (ret, _, fwd_fd') \<Rightarrow>
         if ret \<noteq> 0 then Inl (Err ''negotiation failed'')
         else bindE (send_cmd fd XNBD_PROXY_CMD_REGISTER_FORWARDER_FD) (\<lambda>fd'. Inr (unix_send_fd sent fd', fwd_fd')))"

text \<open>\<open>start_register_fd\<close>: the connection, and the end of the socket pair for requests.\<close>

definition start_register_fd :: "sock option \<Rightarrow> (sock \<times> sock) option \<Rightarrow> bool \<Rightarrow> stop + sock \<times> sock" where
  "start_register_fd unix pair sent =
     bindE (unix_connect_ok unix) (\<lambda>fd.
       case pair of
         None \<Rightarrow> Inl (Err ''socketpair'')
       | Some (ctl_fd, proxy_fd) \<Rightarrow>
           bindE (send_cmd fd XNBD_PROXY_CMD_REGISTER_FD) (\<lambda>fd'. Inr (unix_send_fd sent fd', ctl_fd)))"

definition end_register_fd :: "sock \<Rightarrow> sock \<Rightarrow> stop + sock" where
  "end_register_fd fd ctl_fd =
     (let ctl_fd' = nbd_client_send_disc_request ctl_fd in
      bindE (net_recv_all_or_abort fd [0] 0) (\<lambda>_. Inr ctl_fd'))"

text \<open>\<open>setup_shared_buffer\<close>: the outcome of \<open>mkstemp\<close>, \<open>ftruncate\<close> and \<open>mmap\<close>; the buffer starts with zero bytes.\<close>

abbreviation (input) XNBD_SHARED_BUFF_NBLOCKS :: u64 where "XNBD_SHARED_BUFF_NBLOCKS \<equiv> 1000"

definition setup_shared_buffer :: "bool \<Rightarrow> bool \<Rightarrow> bool \<Rightarrow> sock option \<Rightarrow> bool \<Rightarrow> stop + mem" where
  "setup_shared_buffer mkstemp_ok trunc_ok map_ok unix sent =
     (if \<not> mkstemp_ok then Inl (Err ''mkstemp'')
      else if \<not> trunc_ok then Inl (Err ''ftruncate'')
      else if \<not> map_ok then Inl (Err ''mmap'')
      else bindE (unix_connect_ok unix) (\<lambda>unix_fd.
        bindE (send_cmd unix_fd XNBD_PROXY_CMD_REGISTER_SHARED_BUFFER_FD) (\<lambda>_. Inr (\<lambda>_. 0))))"

section \<open>Loops over the disk\<close>

text \<open>
  The values of the variable of \<open>for (i = a; i < n; i += d)\<close>, which wraps round at \<open>2 ^ 64\<close>;
  \<^const>\<open>None\<close>: the fuel does not suffice.
\<close>

fun for_steps :: "nat \<Rightarrow> u64 \<Rightarrow> u64 \<Rightarrow> u64 \<Rightarrow> u64 list option" where
  "for_steps 0 i n d = None"
| "for_steps (Suc fuel) i n d =
     (if i < n then map_option ((#) i) (for_steps fuel (i + d) n d) else Some [])"

text \<open>
  The bitmap is the one the proxy has mapped, and it changes while the loops run: \<open>bms t\<close> is what
  the \<open>t\<close>-th test sees.
\<close>

fun all_cached :: "(nat \<Rightarrow> bitmap) \<Rightarrow> nat \<Rightarrow> u64 list \<Rightarrow> stop + nat \<times> bool" where
  "all_cached bms t [] = Inr (t, True)"
| "all_cached bms t (i # is) =
     bindE (bitmap_test (bms t) i) (\<lambda>b. if \<not> b then Inr (Suc t, False) else all_cached bms (Suc t) is)"

record range_state =
  rs_t :: nat
  rs_remote :: sock
  rs_ctl :: sock
  rs_buf :: mem
  rs_cached :: "(u64 \<times> u64) list"

text \<open>One iteration of \<open>cache_block_range\<close>; \<open>rs_cached\<close> are the ranges handed to the proxy.\<close>

definition cache_range_step :: "(nat \<Rightarrow> bitmap) \<Rightarrow> int \<Rightarrow> u64 \<Rightarrow> u64 \<Rightarrow> range_state \<Rightarrow> stop + range_state" where
  "cache_range_step bms dsize disk_nblocks index st =
     (let nblocks = (if disk_nblocks - index < XNBD_SHARED_BUFF_NBLOCKS then disk_nblocks - index else XNBD_SHARED_BUFF_NBLOCKS) in
      bindE (all_cached bms (rs_t st) (map of_nat [unat index..<unat index + unat nblocks])) (\<lambda>(t, all).
        if all then Inr (st\<lparr>rs_t := t\<rparr>)
        else let iofrom = sint index * CBLOCKSIZE; iolen = confine_iolen_within_disk dsize iofrom (nblocks * 4096) in
          bindE (nbd_client_send_read_request (rs_remote st) iofrom iolen) (\<lambda>(ret, r).
            if ret < 0 then Inl (Err ''send_read_request'')
            else bindE (nbd_client_recv_read_reply (rs_buf st) r (Some 0) iolen) (\<lambda>(ret', buf, r').
              if ret' < 0 then Inl (Err ''recv_read_reply'')
              else bindE (xnbd_proxy_control_cache_block (rs_ctl st) dsize index nblocks) (\<lambda>ctl.
                Inr (st\<lparr>rs_t := t, rs_remote := r', rs_ctl := ctl, rs_buf := buf, rs_cached := rs_cached st @ [(index, nblocks)]\<rparr>))))))"

definition cache_block_range :: "nat \<Rightarrow> (nat \<Rightarrow> bitmap) \<Rightarrow> int \<Rightarrow> sock \<Rightarrow> range_state \<Rightarrow> (stop + range_state) option" where
  "cache_block_range fuel bms dsize unix_fd st =
     map_option (\<lambda>is.
       bindE (foldE (cache_range_step bms dsize (get_disk_nblocks dsize)) is st) (\<lambda>st'.
       bindE (end_register_fd unix_fd (rs_ctl st')) (\<lambda>ctl. Inr (st'\<lparr>rs_ctl := ctl\<rparr>))))
     (for_steps fuel 0 (get_disk_nblocks dsize) XNBD_SHARED_BUFF_NBLOCKS)"

text \<open>\<open>cache_all_blocks_with_dedicated_connection\<close>, after the connection to the remote server.\<close>

definition cache_all_blocks_with_dedicated_connection ::
  "nat \<Rightarrow> (nat \<Rightarrow> bitmap) \<Rightarrow> int \<Rightarrow> sock option \<Rightarrow> bytes \<Rightarrow> stop + mem \<Rightarrow> stop + sock \<times> sock \<Rightarrow> (stop + range_state) option" where
  "cache_all_blocks_with_dedicated_connection fuel bms query_disksize remote junk shared registered =
     (case remote of
        None \<Rightarrow> Some (Inl (Err ''connect''))
      | Some fd \<Rightarrow>
          (case nbd_negotiate_v1_client_side fd junk of (ret, r, fd') \<Rightarrow>
             if ret < 0 then Some (Inl (Err ''negotiation failed''))
             else if map_option fst r \<noteq> Some query_disksize then Some (Inl (Err ''disksize mismatch''))
             else case shared of Inl x \<Rightarrow> Some (Inl x) | Inr buf \<Rightarrow>
               (case registered of Inl x \<Rightarrow> Some (Inl x) | Inr (unix_fd, ctl_fd) \<Rightarrow>
                  map_option (\<lambda>res. bindE res (\<lambda>st. Inr (st\<lparr>rs_remote := nbd_client_send_disc_request (rs_remote st)\<rparr>)))
                    (cache_block_range fuel bms query_disksize unix_fd
                       \<lparr>rs_t = 0, rs_remote = fd', rs_ctl = ctl_fd, rs_buf = buf, rs_cached = []\<rparr>))))"

text \<open>\<open>cache_all_blocks\<close>: one request per missing block, each waiting for its reply.\<close>

fun cache_each :: "(nat \<Rightarrow> bitmap) \<Rightarrow> int \<Rightarrow> nat \<Rightarrow> u64 list \<Rightarrow> sock \<Rightarrow> stop + sock" where
  "cache_each bms dsize t [] ctl_fd = Inr ctl_fd"
| "cache_each bms dsize t (i # is) ctl_fd =
     bindE (bitmap_test (bms t) i) (\<lambda>b.
     bindE (if b then Inr ctl_fd else xnbd_proxy_control_cache_block ctl_fd dsize i 1) (cache_each bms dsize (Suc t) is))"

definition cache_all_blocks :: "(nat \<Rightarrow> bitmap) \<Rightarrow> int \<Rightarrow> stop + sock \<times> sock \<Rightarrow> stop + sock" where
  "cache_all_blocks bms dsize registered =
     bindE registered (\<lambda>(unix_fd, ctl_fd).
     bindE (cache_each bms dsize 0 (map of_nat [0..<unat (get_disk_nblocks dsize)]) ctl_fd) (end_register_fd unix_fd))"

section \<open>The asynchronous way\<close>

datatype rx_req = Eof | Remote_first | Remote_later | Cached

text \<open>What the requesting thread does: it sends a cache request for a range of bytes, or queues an entry.\<close>

datatype bg_action = Send_cache int u64 | Push rx_req

text \<open>
  \<open>for (...; bitmap_test(bm, i) == v && (i < hi); i++)\<close>: the bit is tested before the bound.
\<close>

function scan_while :: "bool \<Rightarrow> (nat \<Rightarrow> bitmap) \<Rightarrow> u64 \<Rightarrow> nat \<Rightarrow> u64 \<Rightarrow> stop + nat \<times> u64" where
  "scan_while v bms hi t i =
     (case bitmap_test (bms t) i of
        Inl x \<Rightarrow> Inl x
      | Inr b \<Rightarrow> if b = v \<and> i < hi then scan_while v bms hi (Suc t) (i + 1) else Inr (Suc t, i))"
  by pat_completeness auto
termination
proof (relation "measure (\<lambda>(v, bms, hi, t, i). unat hi - unat i)")
  fix v :: bool and hi i :: u64 and t and b and bms :: "nat \<Rightarrow> bitmap"
  assume "b = v \<and> i < hi"
  then have "unat i < unat hi" by (simp add: word_less_nat_alt)
  moreover then have "unat (i + 1) = Suc (unat i)" using unat_u64_less[of hi] by (simp add: unat_word_ariths)
  ultimately show "((v, bms, hi, Suc t, i + 1), v, bms, hi, t, i) \<in> measure (\<lambda>(v, bms, hi, t, i). unat hi - unat i)" by simp
qed simp

declare scan_while.simps [simp del]

definition request_run :: "int \<Rightarrow> u64 \<Rightarrow> u64 \<Rightarrow> bg_action list" where
  "request_run dsize first after_last =
     (if after_last > first then
        let iofrom = sint first * CBLOCKSIZE; iolen = confine_iolen_within_disk dsize iofrom ((after_last - first) * 4096) in
        Send_cache iofrom iolen # map (\<lambda>i. Push (if i = unat first then Remote_first else Remote_later)) [unat first..<unat after_last]
      else [])"

text \<open>\<open>while (first < AFTER_LAST_MAX)\<close>: the number of tests made, and what is done.\<close>

fun chunk_loop :: "nat \<Rightarrow> (nat \<Rightarrow> bitmap) \<Rightarrow> int \<Rightarrow> u64 \<Rightarrow> nat \<Rightarrow> u64 \<Rightarrow> (stop + nat \<times> bg_action list) option" where
  "chunk_loop 0 bms dsize hi t first = None"
| "chunk_loop (Suc fuel) bms dsize hi t first =
     (if first < hi then
        case scan_while False bms hi t first of
          Inl x \<Rightarrow> Some (Inl x)
        | Inr (t1, after_last) \<Rightarrow>
            case scan_while True bms hi t1 after_last of
              Inl x \<Rightarrow> Some (Inl x)
            | Inr (t2, first') \<Rightarrow>
                map_option (\<lambda>rest. bindE rest (\<lambda>(t', as).
                    Inr (t', request_run dsize first after_last @ replicate (unat first' - unat after_last) (Push Cached) @ as)))
                  (chunk_loop fuel bms dsize hi t2 first')
      else Some (Inr (t, [])))"

fun chunks :: "nat \<Rightarrow> (nat \<Rightarrow> bitmap) \<Rightarrow> int \<Rightarrow> u64 \<Rightarrow> u64 \<Rightarrow> nat \<Rightarrow> u64 list \<Rightarrow> (stop + nat \<times> bg_action list) option" where
  "chunks fuel bms dsize nblocks at_once t [] = Some (Inr (t, []))"
| "chunks fuel bms dsize nblocks at_once t (index # is) =
     (case chunk_loop fuel bms dsize (min (index + at_once) nblocks) t index of
        None \<Rightarrow> None
      | Some (Inl x) \<Rightarrow> Some (Inl x)
      | Some (Inr (t', as)) \<Rightarrow> map_option (\<lambda>rest. bindE rest (\<lambda>(t'', as'). Inr (t'', as @ as'))) (chunks fuel bms dsize nblocks at_once t' is))"

text \<open>The requesting thread of \<open>cache_all_blocks_async\<close>.\<close>

definition cache_all_actions :: "nat \<Rightarrow> (nat \<Rightarrow> bitmap) \<Rightarrow> int \<Rightarrow> u64 \<Rightarrow> (stop + nat \<times> bg_action list) option" where
  "cache_all_actions fuel bms dsize at_once =
     (let nblocks = get_disk_nblocks dsize in
      case for_steps fuel 0 nblocks at_once of
        None \<Rightarrow> None
      | Some is \<Rightarrow> map_option (\<lambda>r. bindE r (\<lambda>(t, as). Inr (t, as @ [Push Eof]))) (chunks fuel bms dsize nblocks at_once 0 is))"

section \<open>The two threads\<close>

record progress_info =
  pr_enabled :: bool
  blocks_total :: u64
  blocks_from_cache :: u64
  blocks_from_remote :: u64

definition progress_setup :: "u64 \<Rightarrow> progress_info" where
  "progress_setup nblocks = \<lparr>pr_enabled = False, blocks_total = nblocks, blocks_from_cache = 0, blocks_from_remote = 0\<rparr>"

text \<open>
  \<open>progress_refresh_draw\<close>: the width of the terminal is \<^const>\<open>None\<close> when the \<open>ioctl\<close> fails. Of \<open>refresh_progress\<close>
  the conditions on the counters are kept; the bar itself is drawn with floating point numbers.
\<close>

definition progress_refresh_draw :: "nat option \<Rightarrow> progress_info \<Rightarrow> stop + unit" where
  "progress_refresh_draw columns p =
     (if \<not> pr_enabled p then Inr ()
      else case columns of
        None \<Rightarrow> Inl (Err ''ioctl TIOCGWINSZ'')
      | Some c \<Rightarrow>
          if c < 8 then Inr ()
          else bindE (assertE ''blocks_from_remote <= blocks_total'' (blocks_from_remote p \<le> blocks_total p)) (\<lambda>_.
               bindE (assertE ''blocks_from_cache <= blocks_total'' (blocks_from_cache p \<le> blocks_total p)) (\<lambda>_.
               assertE ''blocks_processed <= blocks_total'' (blocks_from_cache p + blocks_from_remote p \<le> blocks_total p))))"

record bg_state =
  bg_todo :: "bg_action list"
  bg_ctl :: sock
  bg_q :: "rx_req sized_queue"
  bg_progress :: progress_info
  bg_rx_done :: bool

text \<open>A step of the requesting thread; \<^const>\<open>None\<close>: it waits, or is finished.\<close>

definition bg_tx :: "bg_state \<Rightarrow> (stop + bg_state) option" where
  "bg_tx st =
     (case bg_todo st of
        [] \<Rightarrow> None
      | Send_cache f len # as \<Rightarrow>
          Some (bindE (nbd_client_send_request_header (bg_ctl st) NBD_CMD_CACHE f len (- 1)) (\<lambda>(ret, s).
            if ret < 0 then Inl (Err ''send_read_request'') else Inr (st\<lparr>bg_todo := as, bg_ctl := s\<rparr>)))
      | Push x # as \<Rightarrow> map_option (\<lambda>q. Inr (st\<lparr>bg_todo := as, bg_q := q\<rparr>)) (sized_async_queue_push (bg_q st) x))"

text \<open>An iteration of \<open>cache_all_blocks_receiver_main\<close>.\<close>

definition cache_all_blocks_receiver_main :: "nat option \<Rightarrow> bg_state \<Rightarrow> (stop + bg_state) option" where
  "cache_all_blocks_receiver_main columns st =
     (if bg_rx_done st then None
      else map_option (\<lambda>(data, q).
        let st = st\<lparr>bg_q := q\<rparr>; p = bg_progress st in
        if data = Eof then Inr (st\<lparr>bg_rx_done := True\<rparr>)
        else bindE
          (if data = Remote_first then
             (case nbd_client_recv_reply_header (bg_ctl st) (- 1) of (ret, s) \<Rightarrow>
                if ret < 0 then Inl (Err ''recv header'')
                else Inr (st\<lparr>bg_ctl := s, bg_progress := p\<lparr>blocks_from_remote := blocks_from_remote p + 1\<rparr>\<rparr>))
           else if data = Remote_later then Inr (st\<lparr>bg_progress := p\<lparr>blocks_from_remote := blocks_from_remote p + 1\<rparr>\<rparr>)
           else Inr (st\<lparr>bg_progress := p\<lparr>blocks_from_cache := blocks_from_cache p + 1\<rparr>\<rparr>))
          (\<lambda>st. bindE (progress_refresh_draw columns (bg_progress st)) (\<lambda>_. Inr st)))
        (sized_async_queue_pop (bg_q st)))"

abbreviation (input) XNBD_BGCTL_DEFAULT_ASYNC_DEPTH :: u64 where "XNBD_BGCTL_DEFAULT_ASYNC_DEPTH \<equiv> 1000"

definition cache_all_start :: "bool \<Rightarrow> u64 \<Rightarrow> sock \<Rightarrow> bg_action list \<Rightarrow> bg_state" where
  "cache_all_start progress_enabled nblocks ctl_fd as =
     \<lparr>bg_todo = as, bg_ctl = ctl_fd, bg_q = sized_async_queue_new XNBD_BGCTL_DEFAULT_ASYNC_DEPTH,
      bg_progress = (progress_setup nblocks)\<lparr>pr_enabled := progress_enabled\<rparr>, bg_rx_done = False\<rparr>"

section \<open>The command line\<close>

datatype bgctl_cmd = Unknown | Query | Cache_all | Cache_all2 | Switch | Reconnect

record bgctl_opts =
  o_cmd :: bgctl_cmd
  o_exportname :: "string option"
  o_progress :: bool
  o_force :: bool
  o_at_once :: u64

text \<open>
  What \<open>getopt_long\<close> returns, one after the other, with \<open>optarg\<close>. \<open>Help\<close> is \<open>show_help_and_exit\<close>, with the
  message. The value of \<open>atol\<close> is converted to \<open>unsigned long\<close>.
\<close>

datatype bgctl_end = Help "string option" | Stopped stop

definition atol_u64 :: "string \<Rightarrow> u64" where
  "atol_u64 s = word_of_int (fst (strtol s))"

definition set_cmd :: "bgctl_cmd \<Rightarrow> bgctl_opts \<Rightarrow> bgctl_end + bgctl_opts" where
  "set_cmd c os = (if o_cmd os \<noteq> Unknown then Inl (Help (Some ''specify one mode'')) else Inr (os\<lparr>o_cmd := c\<rparr>))"

definition bgctl_option :: "char \<times> string \<Rightarrow> bgctl_opts \<Rightarrow> bgctl_end + bgctl_opts" where
  "bgctl_option = (\<lambda>(c, optarg) os.
     if c = CHR ''q'' then set_cmd Query os
     else if c = CHR ''s'' then set_cmd Switch os
     else if c = CHR ''c'' then set_cmd Cache_all os
     else if c = CHR ''C'' then set_cmd Cache_all2 os
     else if c = CHR ''r'' then set_cmd Reconnect os
     else if c = CHR ''h'' then Inl (Help None)
     else if c = CHR ''n'' then Inr (os\<lparr>o_exportname := Some optarg\<rparr>)
     else if c = CHR ''?'' then Inl (Help (Some ''unknown option''))
     else if c = CHR ''k'' then
       (if atol_u64 optarg \<le> 0 then Inl (Help (Some ''block count must be greater than zero'')) else Inr (os\<lparr>o_at_once := atol_u64 optarg\<rparr>))
     else if c = CHR ''p'' then Inr (os\<lparr>o_progress := True\<rparr>)
     else if c = CHR ''f'' then Inr (os\<lparr>o_force := True\<rparr>)
     else Inl (Stopped (Err ''getopt'')))"

abbreviation (input) XNBD_BGCTL_DEFAULT_BLOCKS_AT_ONCE :: u64 where "XNBD_BGCTL_DEFAULT_BLOCKS_AT_ONCE \<equiv> 31"

text \<open>The options and the control socket, host and port; \<open>argv\<close> are the arguments that are no options.\<close>

definition bgctl_args :: "(char \<times> string) list \<Rightarrow> string list \<Rightarrow> bgctl_end + bgctl_opts \<times> string \<times> (string \<times> string) option" where
  "bgctl_args opts argv =
     bindE (foldE bgctl_option opts \<lparr>o_cmd = Unknown, o_exportname = None, o_progress = False, o_force = False, o_at_once = XNBD_BGCTL_DEFAULT_BLOCKS_AT_ONCE\<rparr>) (\<lambda>os.
       if o_cmd os = Reconnect then
         (case argv of [unix_path, rhost, rport] \<Rightarrow> Inr (os, unix_path, Some (rhost, rport)) | _ \<Rightarrow> Inl (Help (Some ''invalid arguments'')))
       else (case argv of [unix_path] \<Rightarrow> Inr (os, unix_path, None) | _ \<Rightarrow> Inl (Help (Some ''specify a control socket file''))))"

text \<open>
  The \<open>--switch\<close> command of \<open>main\<close>: whether all blocks are cached decides, unless it is forced; then the monitor connection is
  made and the signal is sent. The result is the process SIGUSR2 is sent to.
\<close>

definition bgctl_switch :: "bitmap \<Rightarrow> u64 \<Rightarrow> bool \<Rightarrow> int \<Rightarrow> sock option \<Rightarrow> bool \<Rightarrow> stop + int" where
  "bgctl_switch bm nblocks force_enabled master_pid monitor kill_ok =
     bindE (bitmap_popcount bm nblocks) (\<lambda>cached.
       if cached \<noteq> nblocks \<and> \<not> force_enabled then Inl (Err ''refusing to switch to target mode with incomplete cache and no --force given'')
       else bindE (unix_connect_ok monitor) (\<lambda>fd.
         bindE (send_cmd fd XNBD_PROXY_CMD_DETECT_SWITCH) (\<lambda>_.
           if kill_ok then Inr master_pid else Inl (Err ''send SIGUSR2''))))"

end
