(* ===== verification/Bgctl_Cache.thy ===== *)
theory Bgctl_Cache
  imports Bgctl
begin

text \<open>
  What the asynchronous caching of \<open>xnbd-bgctl\<close> asks for: every block that is not marked when its turn
  comes, each once, in requests the proxy accepts; and the two threads over the bounded queue.
\<close>

section \<open>The loops over the disk\<close>

text \<open>The indices of the loop cut the disk into pieces of \<open>d\<close> blocks.\<close>

fun tiles :: "nat \<Rightarrow> nat \<Rightarrow> nat \<Rightarrow> u64 list \<Rightarrow> bool" where
  "tiles n d j [] \<longleftrightarrow> n \<le> j"
| "tiles n d j (i # is) \<longleftrightarrow> unat i = j \<and> j < n \<and> j + d < 18446744073709551616 \<and> tiles n d (j + d) is"

lemma for_steps_tiles:
  "unat n + unat d < 18446744073709551616 \<Longrightarrow> d \<noteq> 0 \<Longrightarrow> unat n - unat i < fuel \<Longrightarrow>
   \<exists>is. for_steps fuel i n d = Some is \<and> tiles (unat n) (unat d) (unat i) is"
proof (induction fuel arbitrary: i)
  case (Suc fuel)
  show ?case
  proof (cases "i < n")
    case True
    then have lt: "unat i < unat n" by (simp add: word_less_nat_alt)
    then have id: "unat (i + d) = unat i + unat d" using Suc.prems(1) by (simp add: unat_word_ariths)
    have "0 < unat d" using Suc.prems(2) by (simp add: unat_gt_0)
    then have "unat n - unat (i + d) < fuel" unfolding id using Suc.prems(3) lt by linarith
    then obtain js where "for_steps fuel (i + d) n d = Some js" "tiles (unat n) (unat d) (unat (i + d)) js"
      using Suc.IH[of "i + d"] Suc.prems by auto
    then show ?thesis using Suc.prems(1) lt True id by (intro exI[of _ "i # js"]) simp
  qed (simp add: word_less_nat_alt)
qed simp

lemma for_steps_from_0:
  assumes "d \<noteq> 0" and "unat n < 9223372036854775808" and "unat n < fuel"
  shows "\<exists>is. for_steps fuel 0 n d = Some is \<and> tiles (unat n) (unat d) 0 is"
proof (cases "unat n + unat d < 18446744073709551616")
  case True
  from for_steps_tiles[OF True assms(1), of 0 fuel] assms(3) show ?thesis by simp
next
  case False
  then have d: "n \<le> d" "unat d < 18446744073709551616" using assms(2) unat_u64_less[of d] by (simp_all add: word_le_nat_alt)
  show ?thesis
  proof (cases "n = 0")
    case True
    with assms(3) show ?thesis by (cases fuel) auto
  next
    case n: False
    then have "0 < unat n" by (simp add: unat_gt_0)
    then obtain f where "fuel = Suc (Suc f)" using assms(3) by (cases fuel; cases "fuel - 1") auto
    moreover have "\<not> d < n" using d(1) by simp
    ultimately show ?thesis using n d \<open>0 < unat n\<close> by (intro exI[of _ "[0]"]) (simp add: word_gt_0 word_le_nat_alt)
  qed
qed

section \<open>One scan\<close>

text \<open>Blocks only get marked, and the bitmap has a bit to spare after the last block.\<close>

definition growing :: "(nat \<Rightarrow> bitmap) \<Rightarrow> nat \<Rightarrow> bool" where
  "growing bms n \<longleftrightarrow> (\<forall>s t. s \<le> t \<longrightarrow> marked (bms s) \<subseteq> marked (bms t)) \<and> (\<forall>t. n < 64 * length (bms t))"

lemma scan_while_ok:
  assumes "growing bms n" and "unat hi \<le> n"
  shows "unat i \<le> unat hi \<Longrightarrow> \<exists>t' e. scan_while v bms hi t i = Inr (t', e) \<and> t < t' \<and> unat i \<le> unat e \<and> unat e \<le> unat hi \<and>
    (\<forall>j. unat i \<le> j \<and> j < unat e \<longrightarrow> (\<exists>s. t \<le> s \<and> s < t' \<and> (j \<in> marked (bms s)) = v)) \<and>
    (unat e < unat hi \<longrightarrow> (unat e \<in> marked (bms (t' - 1))) = (\<not> v))"
proof (induction "unat hi - unat i" arbitrary: i t)
  case 0
  then have "i = hi" by (simp add: word_unat_eq_iff)
  moreover have "unat hi < 64 * length (bms t)" using assms by (auto simp: growing_def intro: le_less_trans)
  ultimately show ?case by (subst scan_while.simps) (auto simp: bitmap_test_in)
next
  case (Suc k)
  have "unat i < 64 * length (bms t)" using assms Suc.prems by (meson growing_def le_less_trans order_trans)
  then have b: "bitmap_test (bms t) i = Inr (unat i \<in> marked (bms t))" by (rule bitmap_test_in)
  have lt: "unat i < unat hi" "i < hi" using Suc.hyps(2) by (simp_all add: word_less_nat_alt)
  show ?case
  proof (cases "(unat i \<in> marked (bms t)) = v")
    case True
    have i1: "unat (i + 1) = Suc (unat i)" using lt unat_u64_less[of hi] by (simp add: unat_word_ariths)
    have k: "k = unat hi - unat (i + 1)" "unat (i + 1) \<le> unat hi" unfolding i1 using Suc.hyps(2) lt(1) by linarith+
    obtain t' e where r: "scan_while v bms hi (Suc t) (i + 1) = Inr (t', e)" "Suc t < t'" "Suc (unat i) \<le> unat e" "unat e \<le> unat hi"
      "\<forall>j. Suc (unat i) \<le> j \<and> j < unat e \<longrightarrow> (\<exists>s. Suc t \<le> s \<and> s < t' \<and> (j \<in> marked (bms s)) = v)"
      "unat e < unat hi \<longrightarrow> (unat e \<in> marked (bms (t' - 1))) = (\<not> v)"
      using Suc.hyps(1)[OF k, of "Suc t"] unfolding i1 by blast
    have "\<exists>s. t \<le> s \<and> s < t' \<and> (j \<in> marked (bms s)) = v" if "unat i \<le> j" "j < unat e" for j
    proof (cases "j = unat i")
      case j: True
      then show ?thesis using True r(2) by (intro exI[of _ t]) auto
    next
      case False
      then have "Suc (unat i) \<le> j" using that(1) by simp
      with r(5) that(2) show ?thesis by (meson Suc_leD)
    qed
    with r b True lt show ?thesis by (subst scan_while.simps) auto
  next
    case False
    then show ?thesis using b lt by (subst scan_while.simps) auto
  qed
qed

section \<open>One piece\<close>

fun requested :: "bg_action list \<Rightarrow> nat list" where
  "requested [] = []"
| "requested (Send_cache f len # as) = [nat (f div 4096)..<nat ((f + uint len + 4095) div 4096)] @ requested as"
| "requested (Push x # as) = requested as"

fun entries :: "bg_action list \<Rightarrow> rx_req list" where
  "entries [] = []"
| "entries (Send_cache f len # as) = entries as"
| "entries (Push x # as) = x # entries as"

fun sends :: "bg_action list \<Rightarrow> (int \<times> u64) list" where
  "sends [] = []"
| "sends (Send_cache f len # as) = (f, len) # sends as"
| "sends (Push x # as) = sends as"

lemma action_append [simp]:
  "requested (as @ bs) = requested as @ requested bs" "entries (as @ bs) = entries as @ entries bs" "sends (as @ bs) = sends as @ sends bs"
  by (induction as rule: requested.induct; simp)+

lemma action_pushes [simp]:
  "requested (map (\<lambda>i. Push (f i)) is) = []" "entries (map (\<lambda>i. Push (f i)) is) = map f is" "sends (map (\<lambda>i. Push (f i)) is) = []"
  "requested (replicate m (Push x)) = []" "entries (replicate m (Push x)) = replicate m x" "sends (replicate m (Push x)) = []"
  by (induction "is"; simp)+ (induction m; simp)+

text \<open>A request for the blocks \<open>a\<close> to \<open>b - 1\<close> of a disk.\<close>

lemma confine_blocks:
  assumes "a < b" and "int b \<le> (D + 4095) div 4096" and "0 \<le> D" and "D < 9223372036854771712"
  shows "uint (confine_iolen_within_disk D (int a * 4096) ((of_nat b - of_nat a) * 4096)) = min D (int b * 4096) - int a * 4096"
proof -
  have ab: "int a * 4096 < D" "int b * 4096 < 9223372036854775808" using assms by linarith+
  have "(of_nat b - of_nat a) * 4096 = (word_of_int (int b * 4096 - int a * 4096) :: u64)"
    by (simp add: left_diff_distrib)
  moreover have "uint (word_of_int (int b * 4096 - int a * 4096) :: u64) = int b * 4096 - int a * 4096"
    using assms(1) ab by (intro uint_word_of_int_u64) simp_all
  moreover have "uint (word_of_int (D - int a * 4096) :: u64) = D - int a * 4096" using assms(4) ab by (intro uint_word_of_int_u64) simp_all
  ultimately show ?thesis unfolding confine_iolen_within_disk_def Let_def word_less_def by (simp add: min_def)
qed

definition run_entries :: "nat \<Rightarrow> nat \<Rightarrow> rx_req list" where
  "run_entries a b = map (\<lambda>i. if i = a then Remote_first else Remote_later) [a..<b]"

definition good_send :: "int \<Rightarrow> nat \<Rightarrow> int \<times> u64 \<Rightarrow> bool" where
  "good_send D m = (\<lambda>(f, len). 0 \<le> f \<and> 0 < uint len \<and> f + uint len \<le> D \<and> uint len \<le> int m * 4096)"

lemma blocks_in_disk:
  fixes x y :: int
  assumes "x < y" and "y \<le> (D + 4095) div 4096"
  shows "0 < min D (y * 4096) - x * 4096 \<and> x * 4096 + (min D (y * 4096) - x * 4096) \<le> D \<and> min D (y * 4096) - x * 4096 \<le> (y - x) * 4096"
proof -
  have "x * 4096 < D" using assms by linarith
  then show ?thesis using assms(1) by (auto simp: min_def left_diff_distrib)
qed

lemma request_run_ok:
  assumes "unat a \<le> unat b" and "unat b \<le> unat (get_disk_nblocks D)" and "0 \<le> D" and "D < 9223372036854771712"
  shows "requested (request_run D a b) = [unat a..<unat b]" and "entries (request_run D a b) = run_entries (unat a) (unat b)"
    and "\<forall>s \<in> set (sends (request_run D a b)). good_send D (unat b - unat a) s" and "length (sends (request_run D a b)) = (if a < b then 1 else 0)"
proof -
  have "D < 9223372036854775808" using assms(4) by simp
  then have nb: "int (unat b) \<le> (D + 4095) div 4096" using assms(2,3) nblocks_nat[OF assms(3)] by linarith
  have "int (unat a) < 9223372036854775808" using assms(1,4) nb by linarith
  then have sa: "sint a = int (unat a)" using sint_of_small[of "int (unat a)"] by simp
  let ?len = "confine_iolen_within_disk D (int (unat a) * 4096) ((b - a) * 4096)"
  have len: "uint ?len = min D (int (unat b) * 4096) - int (unat a) * 4096" if "a < b"
    using confine_blocks[of "unat a" "unat b" D] that nb assms(3,4) by (simp add: word_less_nat_alt)
  have ne: "\<not> a < b \<Longrightarrow> unat a = unat b" using assms(1) by (simp add: word_less_nat_alt)
  have "nat ((int (unat a) * 4096 + uint ?len + 4095) div 4096) = unat b" if "a < b"
  proof -
    have "(int (unat a) * 4096 + uint ?len + 4095) div 4096 = int (unat b)" unfolding len[OF that] using nb by linarith
    then show ?thesis by simp
  qed
  then show "requested (request_run D a b) = [unat a..<unat b]" using ne by (auto simp: request_run_def Let_def sa)
  show "entries (request_run D a b) = run_entries (unat a) (unat b)" using ne by (auto simp: request_run_def Let_def run_entries_def)
  have "0 < uint ?len \<and> int (unat a) * 4096 + uint ?len \<le> D \<and> uint ?len \<le> int (unat b - unat a) * 4096" if "a < b"
  proof -
    have lt: "unat a < unat b" using that by (simp add: word_less_nat_alt)
    then have "int (unat a) < int (unat b)" by linarith
    from blocks_in_disk[OF this nb] show ?thesis unfolding len[OF that] of_nat_diff[OF less_imp_le[OF lt]] .
  qed
  then show "\<forall>s \<in> set (sends (request_run D a b)). good_send D (unat b - unat a) s" by (auto simp: request_run_def Let_def good_send_def sa)
  show "length (sends (request_run D a b)) = (if a < b then 1 else 0)" by (simp add: request_run_def Let_def)
qed

text \<open>Every entry that waits for a reply comes after its request.\<close>

fun credit :: "nat \<Rightarrow> bg_action list \<Rightarrow> nat option" where
  "credit k [] = Some k"
| "credit k (Send_cache f len # as) = credit (Suc k) as"
| "credit k (Push Remote_first # as) = (case k of 0 \<Rightarrow> None | Suc k' \<Rightarrow> credit k' as)"
| "credit k (Push x # as) = credit k as"

lemma credit_append: "credit k (as @ bs) = (case credit k as of None \<Rightarrow> None | Some k' \<Rightarrow> credit k' bs)"
  by (induction k as rule: credit.induct) (auto split: nat.splits)

lemma credit_pushes: "\<forall>x \<in> set xs. x \<noteq> Remote_first \<Longrightarrow> credit k (map Push xs) = Some k"
proof (induction xs)
  case (Cons x xs)
  then show ?case by (cases x) auto
qed simp

lemma credit_run: "credit 0 (request_run D a b) = Some 0"
proof (cases "a < b")
  case True
  then have "[unat a..<unat b] = unat a # [Suc (unat a)..<unat b]" by (simp add: word_less_nat_alt upt_conv_Cons)
  moreover have "map (\<lambda>i. Push (if i = unat a then Remote_first else Remote_later)) [Suc (unat a)..<unat b] =
      map Push (map (\<lambda>i. Remote_later) [Suc (unat a)..<unat b])" by simp
  ultimately show ?thesis using True credit_pushes[of "map (\<lambda>i. Remote_later) [Suc (unat a)..<unat b]" 0]
    by (simp add: request_run_def Let_def del: map_map)
qed (simp add: request_run_def Let_def)

lemma credit_cached: "credit k (replicate m (Push Cached)) = Some k"
  using credit_pushes[of "replicate m Cached" k] by (simp add: map_replicate)

fun remote :: "rx_req \<Rightarrow> bool" where
  "remote Remote_first = True"
| "remote Remote_later = True"
| "remote _ = False"

definition piece_ok :: "(nat \<Rightarrow> bitmap) \<Rightarrow> int \<Rightarrow> nat \<Rightarrow> nat \<Rightarrow> nat \<Rightarrow> nat \<Rightarrow> nat \<Rightarrow> bg_action list \<Rightarrow> bool" where
  "piece_ok bms D m lo hi t t' as \<longleftrightarrow> lo \<le> hi \<and> t \<le> t' \<and> sorted_wrt (<) (requested as) \<and> set (requested as) \<subseteq> {lo..<hi} \<and>
     (\<forall>i \<in> set (requested as). i \<notin> marked (bms t)) \<and> (\<forall>i. lo \<le> i \<and> i < hi \<and> i \<notin> set (requested as) \<longrightarrow> i \<in> marked (bms t')) \<and>
     length (entries as) = hi - lo \<and> Eof \<notin> set (entries as) \<and> length (filter remote (entries as)) = length (requested as) \<and>
     credit 0 as = Some 0 \<and> (\<forall>s \<in> set (sends as). good_send D m s)"

lemma piece_append:
  assumes "piece_ok bms D m lo mid t t1 as" and "piece_ok bms D m mid hi t1 t2 bs" and "growing bms n"
  shows "piece_ok bms D m lo hi t t2 (as @ bs)"
proof -
  have mono: "marked (bms t) \<subseteq> marked (bms t1)" "marked (bms t1) \<subseteq> marked (bms t2)" using assms by (auto simp: growing_def piece_ok_def)
  have "i \<in> marked (bms t2)" if "lo \<le> i" "i < hi" "i \<notin> set (requested as)" "i \<notin> set (requested bs)" for i
    using assms(1,2) that mono by (cases "i < mid") (auto simp: piece_ok_def)
  moreover have "sorted_wrt (<) (requested as @ requested bs)" using assms(1,2) by (fastforce simp: piece_ok_def sorted_wrt_append)
  moreover have "set (requested as @ requested bs) \<subseteq> {lo..<hi}" using assms(1,2) by (fastforce simp: piece_ok_def)
  moreover have "i \<notin> marked (bms t)" if "i \<in> set (requested as @ requested bs)" for i using that assms(1,2) mono by (auto simp: piece_ok_def)
  ultimately show ?thesis using assms(1,2) by (auto simp: piece_ok_def credit_append)
qed

lemma piece_run:
  assumes "unat a \<le> unat b" and "unat b \<le> unat (get_disk_nblocks D)" and "0 \<le> D" and "D < 9223372036854771712" and "t \<le> t'"
    and "\<forall>j. unat a \<le> j \<and> j < unat b \<longrightarrow> (\<exists>s. t \<le> s \<and> s < t' \<and> (j \<in> marked (bms s)) = False)" and "growing bms n" and "unat b - unat a \<le> m"
  shows "piece_ok bms D m (unat a) (unat b) t t' (request_run D a b)"
proof -
  have "j \<notin> marked (bms t)" if "unat a \<le> j" "j < unat b" for j using assms(6,7) that by (auto simp: growing_def)
  moreover have "filter remote (run_entries (unat a) (unat b)) = run_entries (unat a) (unat b)"
    by (rule filter_True) (auto simp: run_entries_def)
  moreover have "good_send D m s" if "s \<in> set (sends (request_run D a b))" for s
  proof -
    have "int (unat b - unat a) \<le> int m" using assms(8) by simp
    then have "int (unat b - unat a) * 4096 \<le> int m * 4096" by (intro mult_right_mono) simp_all
    with bspec[OF request_run_ok(3)[OF assms(1-4)] that] show ?thesis by (auto simp: good_send_def)
  qed
  ultimately show ?thesis using assms(1,5) request_run_ok[OF assms(1-4)]
    by (auto simp: piece_ok_def run_entries_def credit_run sorted_wrt_upt split: if_splits)
qed

lemma piece_cached:
  assumes "lo \<le> hi" and "t \<le> t'" and "\<forall>j. lo \<le> j \<and> j < hi \<longrightarrow> (\<exists>s. t \<le> s \<and> s < t' \<and> (j \<in> marked (bms s)) = True)" and "growing bms n"
  shows "piece_ok bms D m lo hi t t' (replicate (hi - lo) (Push Cached))"
proof -
  have "j \<in> marked (bms t')" if "lo \<le> j" "j < hi" for j using assms(3,4) that unfolding growing_def by (meson less_imp_le subsetD)
  then show ?thesis using assms(1,2) by (auto simp: piece_ok_def credit_cached)
qed

lemma chunk_loop_ok:
  assumes "growing bms (unat (get_disk_nblocks D))" and "unat hi \<le> unat (get_disk_nblocks D)" and "0 \<le> D" and "D < 9223372036854771712"
  shows "unat i \<le> unat hi \<Longrightarrow> unat hi - unat i < fuel \<Longrightarrow> unat hi - unat i \<le> m \<Longrightarrow>
    \<exists>t' as. chunk_loop fuel bms D hi t i = Some (Inr (t', as)) \<and> piece_ok bms D m (unat i) (unat hi) t t' as"
proof (induction fuel arbitrary: t i)
  case (Suc fuel)
  show ?case
  proof (cases "i < hi")
    case True
    then have lt: "unat i < unat hi" by (simp add: word_less_nat_alt)
    from scan_while_ok[OF assms(1,2) Suc.prems(1), of False t] obtain t1 e where s1: "scan_while False bms hi t i = Inr (t1, e)" "t < t1" "unat i \<le> unat e"
      "unat e \<le> unat hi" "\<forall>j. unat i \<le> j \<and> j < unat e \<longrightarrow> (\<exists>s. t \<le> s \<and> s < t1 \<and> (j \<in> marked (bms s)) = False)"
      "unat e < unat hi \<longrightarrow> unat e \<in> marked (bms (t1 - 1))" by auto
    from scan_while_ok[OF assms(1,2) s1(4), of True t1] obtain t2 f where s2: "scan_while True bms hi t1 e = Inr (t2, f)" "t1 < t2" "unat e \<le> unat f"
      "unat f \<le> unat hi" "\<forall>j. unat e \<le> j \<and> j < unat f \<longrightarrow> (\<exists>s. t1 \<le> s \<and> s < t2 \<and> (j \<in> marked (bms s)) = True)"
      "unat f < unat hi \<longrightarrow> unat f \<notin> marked (bms (t2 - 1))" by auto
    have "marked (bms (t1 - 1)) \<subseteq> marked (bms (t2 - 1))" using assms(1) s2(2) unfolding growing_def by simp
    then have "unat i < unat f" using s1(3,4,6) s2(3,6) lt by (cases "unat e = unat f") auto
    then have "unat hi - unat f < fuel" "unat hi - unat f \<le> m" "unat e - unat i \<le> m" using Suc.prems s1 s2 by linarith+
    from Suc.IH[OF s2(4) this(1,2), of t2] obtain t' as where r: "chunk_loop fuel bms D hi t2 f = Some (Inr (t', as))"
      "piece_ok bms D m (unat f) (unat hi) t2 t' as" by auto
    have "piece_ok bms D m (unat i) (unat e) t t1 (request_run D i e)"
      using s1 assms \<open>unat e - unat i \<le> m\<close> by (intro piece_run) auto
    moreover have "piece_ok bms D m (unat e) (unat f) t1 t2 (replicate (unat f - unat e) (Push Cached))"
      using s2 assms(1) by (intro piece_cached) auto
    ultimately have "piece_ok bms D m (unat i) (unat hi) t t' (request_run D i e @ replicate (unat f - unat e) (Push Cached) @ as)"
      using r(2) piece_append[OF _ _ assms(1)] by blast
    with True s1(1) s2(1) r(1) show ?thesis by simp
  next
    case False
    then have "unat i = unat hi" using Suc.prems(1) by (simp add: word_less_nat_alt)
    with False show ?thesis by (auto simp: piece_ok_def)
  qed
qed simp

section \<open>The whole disk\<close>

lemma chunks_ok:
  assumes "growing bms (unat (get_disk_nblocks D))" and "0 \<le> D" and "D < 9223372036854771712" and "unat (get_disk_nblocks D) < fuel"
  shows "tiles (unat (get_disk_nblocks D)) (unat d) j is \<Longrightarrow> \<exists>t' as. chunks fuel bms D (get_disk_nblocks D) d t is = Some (Inr (t', as)) \<and>
    piece_ok bms D (unat d) (min j (unat (get_disk_nblocks D))) (unat (get_disk_nblocks D)) t t' as"
proof (induction "is" arbitrary: j t)
  case Nil
  then show ?case by (auto simp: piece_ok_def min_def)
next
  case (Cons i "is")
  let ?n = "get_disk_nblocks D" and ?hi = "min (i + d) (get_disk_nblocks D)"
  have j: "unat i = j" "j < unat ?n" "j + unat d < 18446744073709551616" "tiles (unat ?n) (unat d) (j + unat d) is" using Cons.prems by auto
  then have "unat (i + d) = j + unat d" by (simp add: unat_word_ariths)
  then have hi: "unat ?hi = min (j + unat d) (unat ?n)" by (auto simp: min_def word_le_nat_alt)
  have "unat ?hi \<le> unat ?n" "unat i \<le> unat ?hi" "unat ?hi - unat i < fuel" "unat ?hi - unat i \<le> unat d"
    unfolding hi j(1) using j(2) assms(4) by linarith+
  from chunk_loop_ok[OF assms(1) this(1) assms(2,3) this(2-4), of t] obtain t1 as where c: "chunk_loop fuel bms D ?hi t i = Some (Inr (t1, as))"
    "piece_ok bms D (unat d) j (min (j + unat d) (unat ?n)) t t1 as" unfolding hi j(1) by blast
  from Cons.IH[OF j(4), of t1] obtain t2 bs where r: "chunks fuel bms D ?n d t1 is = Some (Inr (t2, bs))"
    "piece_ok bms D (unat d) (min (j + unat d) (unat ?n)) (unat ?n) t1 t2 bs" by blast
  have "min j (unat ?n) = j" using j(2) by simp
  then show ?case using c(1) r(1) piece_append[OF c(2) r(2) assms(1)] by simp
qed

lemma cache_all_piece:
  assumes "growing bms (unat (get_disk_nblocks D))" and "0 \<le> D" and "D < 9223372036854771712" and "at_once \<noteq> 0" and "unat (get_disk_nblocks D) < fuel"
  shows "\<exists>t as. cache_all_actions fuel bms D at_once = Some (Inr (t, as @ [Push Eof])) \<and>
    piece_ok bms D (unat at_once) 0 (unat (get_disk_nblocks D)) 0 t as"
proof -
  have "unat (get_disk_nblocks D) < 9223372036854775808" using assms(2,3) by (simp add: nblocks_nat nat_less_iff)
  from for_steps_from_0[OF assms(4) this assms(5)] obtain js where js: "for_steps fuel 0 (get_disk_nblocks D) at_once = Some js"
    "tiles (unat (get_disk_nblocks D)) (unat at_once) 0 js" by blast
  from chunks_ok[OF assms(1-3,5) js(2), of 0] js(1) show ?thesis by (auto simp: cache_all_actions_def Let_def)
qed



text \<open>
  With as many blocks as the bitmap has bits, the first loop tests the bit after the last block before it
  compares with the bound, and leaves the array.
\<close>

lemma cache_all_overruns: "cache_all_actions 65 (\<lambda>_. [0]) 262144 31 = Some (Inl Segv)"
  by code_simp

section \<open>The two threads\<close>

definition cache_reply :: bytes where
  "cache_reply = enc_reply (ok_reply (htonll (- 1)))"

text \<open>
  The threads and the proxy: \<open>a\<close> requests are not answered yet. A reply is received when it has arrived.
\<close>

inductive bg_step :: "nat option \<Rightarrow> bg_state \<times> nat \<Rightarrow> bg_state \<times> nat \<Rightarrow> bool" for columns where
  bg_tx_step: "bg_tx st = Some (Inr st') \<Longrightarrow> a' = (case bg_todo st of Send_cache _ _ # _ \<Rightarrow> Suc a | _ \<Rightarrow> a) \<Longrightarrow> bg_step columns (st, a) (st', a')"
| bg_rx_step: "cache_all_blocks_receiver_main columns st = Some (Inr st') \<Longrightarrow>
    (sq_queue (bg_q st) \<noteq> [] \<longrightarrow> last (sq_queue (bg_q st)) = Remote_first \<longrightarrow> pending (bg_ctl st) \<noteq> []) \<Longrightarrow> bg_step columns (st, a) (st', a)"
| bg_proxy_step: "0 < a \<Longrightarrow> bg_step columns (st, a) (st\<lparr>bg_ctl := (bg_ctl st)\<lparr>rx := rx (bg_ctl st) @ [cache_reply]\<rparr>\<rparr>, a - 1)"

inductive_cases bg_stepE: "bg_step columns (st, a) s'"

definition firsts :: "rx_req list \<Rightarrow> nat" where
  "firsts xs = length (filter ((=) Remote_first) xs)"

definition bg_inv :: "rx_req list \<Rightarrow> bg_state \<times> nat \<Rightarrow> bool" where
  "bg_inv E = (\<lambda>(st, a). \<exists>got p. sq_inv (bg_q st) \<and> sq_max (bg_q st) = 1000 \<and> got @ rev (sq_queue (bg_q st)) @ entries (bg_todo st) = E @ [Eof] \<and>
     bg_rx_done st = (Eof \<in> set got) \<and> wf_sock (bg_ctl st) \<and> writable (bg_ctl st) \<and> pending (bg_ctl st) = concat (replicate p cache_reply) \<and>
     (\<exists>k. a + p = k + firsts (sq_queue (bg_q st)) \<and> credit k (bg_todo st) = Some 0) \<and>
     unat (blocks_from_remote (bg_progress st)) = length (filter remote got) \<and>
     unat (blocks_from_cache (bg_progress st)) = length (filter ((=) Cached) got) \<and> unat (blocks_total (bg_progress st)) = length E \<and>
     (\<forall>(f, len) \<in> set (sends (bg_todo st)). 0 \<le> f \<and> f + uint len \<le> 0x7FFFFFFFFFFFFFFF \<and> uint len \<le> 0xFFFFFFFF))"

lemma firsts_rev [simp]: "firsts (rev xs) = firsts xs" and firsts_Cons: "firsts (x # xs) = (if x = Remote_first then Suc (firsts xs) else firsts xs)"
  by (auto simp: firsts_def rev_filter[symmetric])

lemma cache_reply_Cons: "cache_reply \<noteq> []"
  using length_enc(2) by (metis cache_reply_def list.size(3) zero_neq_numeral)

lemma recv_cache_reply:
  assumes "wf_sock s" and "pending s = cache_reply @ rest"
  shows "\<exists>s'. nbd_client_recv_reply_header s (- 1) = (0, s') \<and> wf_sock s' \<and> pending s' = rest \<and> tx_part s' = tx_part s"
proof -
  have "htonll (- 1) = ntohll (- 1)" "ntohl 0 = 0" by code_simp+
  with recv_reply_header_full[OF assms(1), of "ok_reply (htonll (- 1))" rest "- 1"] assms(2) show ?thesis
    by (auto simp: cache_reply_def ok_reply_def)
qed

lemma split_Eof: "got @ Eof # rest = E @ [Eof] \<Longrightarrow> Eof \<notin> set E \<Longrightarrow> got = E \<and> rest = []"
  by (cases rest rule: rev_cases) (auto simp: append_eq_append_conv2 Cons_eq_append_conv)

lemma all_counted: "Eof \<notin> set xs \<Longrightarrow> length (filter remote xs) + length (filter ((=) Cached) xs) = length xs"
proof (induction xs)
  case (Cons x xs)
  then show ?case by (cases x) auto
qed simp

lemma counts_bounded:
  assumes "got @ rest = E @ [Eof]" and "Eof \<notin> set E"
  shows "length (filter remote got) + length (filter ((=) Cached) got) \<le> length E"
proof -
  have "filter remote (filter (\<lambda>x. x \<noteq> Eof) xs) = filter remote xs" "filter ((=) Cached) (filter (\<lambda>x. x \<noteq> Eof) xs) = filter ((=) Cached) xs" for xs
    by (auto simp: filter_filter intro: filter_cong)
  then have "length (filter remote got) + length (filter ((=) Cached) got) = length (filter (\<lambda>x. x \<noteq> Eof) got)"
    using all_counted[of "filter (\<lambda>x. x \<noteq> Eof) got"] by simp
  moreover have "filter (\<lambda>x. x \<noteq> Eof) E = E" using assms(2) by (intro filter_True) auto
  then have "length (filter (\<lambda>x. x \<noteq> Eof) (got @ rest)) = length E" unfolding assms(1) by simp
  ultimately show ?thesis by simp
qed

lemma bg_rx_ok:
  assumes "bg_inv E (st, a)" and "Eof \<notin> set E" and "sq_queue (bg_q st) \<noteq> []" and "last (sq_queue (bg_q st)) = Remote_first \<longrightarrow> pending (bg_ctl st) \<noteq> []"
  shows "\<not> bg_rx_done st \<and> (\<exists>st'. cache_all_blocks_receiver_main (Some c) st = Some (Inr st') \<and> bg_inv E (st', a) \<and> bg_todo st' = bg_todo st \<and>
    Suc (length (sq_queue (bg_q st'))) = length (sq_queue (bg_q st)))"
proof -
  obtain got p k where I: "sq_inv (bg_q st)" "sq_max (bg_q st) = 1000" "got @ rev (sq_queue (bg_q st)) @ entries (bg_todo st) = E @ [Eof]"
    "bg_rx_done st = (Eof \<in> set got)" "wf_sock (bg_ctl st)" "writable (bg_ctl st)" "pending (bg_ctl st) = concat (replicate p cache_reply)"
    "a + p = k + firsts (sq_queue (bg_q st))" "credit k (bg_todo st) = Some 0"
    "unat (blocks_from_remote (bg_progress st)) = length (filter remote got)"
    "unat (blocks_from_cache (bg_progress st)) = length (filter ((=) Cached) got)" "unat (blocks_total (bg_progress st)) = length E"
    "\<forall>(f, len) \<in> set (sends (bg_todo st)). 0 \<le> f \<and> f + uint len \<le> 0x7FFFFFFFFFFFFFFF \<and> uint len \<le> 0xFFFFFFFF"
    using assms(1) unfolding bg_inv_def by blast
  obtain x q where pop: "sized_async_queue_pop (bg_q st) = Some (x, q)" using assms(3) by (auto simp: sized_async_queue_pop_def)
  then have q: "rev (sq_queue (bg_q st)) = x # rev (sq_queue q)" "sq_inv q" "sq_max q = 1000" "x = last (sq_queue (bg_q st))"
    using sq.pop_elems[OF I(1) pop] I(2) by (auto simp: word_unat_eq_iff sized_async_queue_pop_def split: if_splits)
  have split: "got @ x # rev (sq_queue q) @ entries (bg_todo st) = E @ [Eof]" using I(3) q(1) by simp
  have nd: "\<not> bg_rx_done st"
  proof
    assume "bg_rx_done st"
    then obtain u v where "got = u @ Eof # v" using I(4) by (auto simp: in_set_conv_decomp)
    with split_Eof[of u "v @ x # rev (sq_queue q) @ entries (bg_todo st)" E] split assms(2) show False by simp
  qed
  have len: "Suc (length (sq_queue q)) = length (sq_queue (bg_q st))" using q(1) by (metis length_Cons length_rev)
  have f: "firsts (sq_queue (bg_q st)) = (if x = Remote_first then Suc (firsts (sq_queue q)) else firsts (sq_queue q))"
    using firsts_rev[of "sq_queue (bg_q st)"] unfolding q(1) unfolding firsts_Cons firsts_rev by simp
  have bound: "length (filter remote (got @ [x])) + length (filter ((=) Cached) (got @ [x])) \<le> length E"
    using split assms(2) by (intro counts_bounded[of _ "rev (sq_queue q) @ entries (bg_todo st)"]) simp_all
  have step: ?thesis if "cache_all_blocks_receiver_main (Some c) st = Some (Inr st')" "bg_inv E (st', a)" "bg_todo st' = bg_todo st" "bg_q st' = q" for st'
    using that nd len by auto
  have draw: "progress_refresh_draw (Some c) pr = Inr ()" if "blocks_total pr = blocks_total (bg_progress st)"
      "unat (blocks_from_remote pr) = length (filter remote (got @ [x]))" "unat (blocks_from_cache pr) = length (filter ((=) Cached) (got @ [x]))" for pr
  proof -
    have "blocks_from_remote pr \<le> blocks_total pr" "blocks_from_cache pr \<le> blocks_total pr" using bound I(12) that by (simp_all add: word_le_nat_alt)
    moreover have "unat (blocks_from_cache pr + blocks_from_remote pr) = unat (blocks_from_cache pr) + unat (blocks_from_remote pr)"
      using bound I(12) unat_u64_less[of "blocks_total (bg_progress st)"] unfolding unat_word_ariths that by simp
    then have "blocks_from_cache pr + blocks_from_remote pr \<le> blocks_total pr" using bound I(12) that by (simp add: word_le_nat_alt)
    ultimately show ?thesis by (simp add: progress_refresh_draw_def)
  qed
  have inc: "unat (w + 1) = Suc (unat w)" if "Suc (unat w) \<le> length E" for w :: u64
    using that I(12) unat_u64_less[of "blocks_total (bg_progress st)"] by (simp add: unat_word_ariths)
  show ?thesis
  proof (cases x)
    case Eof
    from split_Eof[OF split[unfolded Eof] assms(2)] have "got = E" "sq_queue q = []" "entries (bg_todo st) = []" by simp_all
    then have "bg_inv E (st\<lparr>bg_q := q, bg_rx_done := True\<rparr>, a)"
      unfolding bg_inv_def using I q(2,3) f Eof by (intro case_prodI exI[of _ "E @ [Eof]"] exI[of _ p]) auto
    then show ?thesis using pop Eof nd
      by (intro step[of "st\<lparr>bg_q := q, bg_rx_done := True\<rparr>"]) (auto simp: cache_all_blocks_receiver_main_def Let_def)
  next
    case Remote_first
    then obtain p' where p': "p = Suc p'" using assms(4) q(4) I(7) by (cases p) auto
    then obtain s where s: "nbd_client_recv_reply_header (bg_ctl st) (- 1) = (0, s)" "wf_sock s" "pending s = concat (replicate p' cache_reply)"
      "tx_part s = tx_part (bg_ctl st)" using recv_cache_reply[OF I(5)] I(7) by auto
    let ?p = "(bg_progress st)\<lparr>blocks_from_remote := blocks_from_remote (bg_progress st) + 1\<rparr>"
    have c: "unat (blocks_from_remote ?p) = length (filter remote (got @ [x]))" "unat (blocks_from_cache ?p) = length (filter ((=) Cached) (got @ [x]))"
      using bound Remote_first I(10,11) inc[of "blocks_from_remote (bg_progress st)"] by auto
    have "bg_inv E (st\<lparr>bg_q := q, bg_ctl := s, bg_progress := ?p\<rparr>, a)"
      unfolding bg_inv_def using I q(2,3) f nd split s(2,3) c p' sock_part_simps(1)[OF s(4)] Remote_first
      by (intro case_prodI exI[of _ "got @ [x]"] exI[of _ p']) (auto simp del: filter_append)
    then show ?thesis using pop Remote_first nd s(1) draw[OF _ c]
      by (intro step[of "st\<lparr>bg_q := q, bg_ctl := s, bg_progress := ?p\<rparr>"]) (auto simp: cache_all_blocks_receiver_main_def Let_def)
  next
    case Remote_later
    let ?p = "(bg_progress st)\<lparr>blocks_from_remote := blocks_from_remote (bg_progress st) + 1\<rparr>"
    have c: "unat (blocks_from_remote ?p) = length (filter remote (got @ [x]))" "unat (blocks_from_cache ?p) = length (filter ((=) Cached) (got @ [x]))"
      using bound Remote_later I(10,11) inc[of "blocks_from_remote (bg_progress st)"] by auto
    have "bg_inv E (st\<lparr>bg_q := q, bg_progress := ?p\<rparr>, a)"
      unfolding bg_inv_def using I q(2,3) f nd split c Remote_later
      by (intro case_prodI exI[of _ "got @ [x]"] exI[of _ p]) (auto simp del: filter_append)
    then show ?thesis using pop Remote_later nd draw[OF _ c]
      by (intro step[of "st\<lparr>bg_q := q, bg_progress := ?p\<rparr>"]) (auto simp: cache_all_blocks_receiver_main_def Let_def)
  next
    case Cached
    let ?p = "(bg_progress st)\<lparr>blocks_from_cache := blocks_from_cache (bg_progress st) + 1\<rparr>"
    have c: "unat (blocks_from_remote ?p) = length (filter remote (got @ [x]))" "unat (blocks_from_cache ?p) = length (filter ((=) Cached) (got @ [x]))"
      using bound Cached I(10,11) inc[of "blocks_from_cache (bg_progress st)"] by auto
    have "bg_inv E (st\<lparr>bg_q := q, bg_progress := ?p\<rparr>, a)"
      unfolding bg_inv_def using I q(2,3) f nd split c Cached
      by (intro case_prodI exI[of _ "got @ [x]"] exI[of _ p]) (auto simp del: filter_append)
    then show ?thesis using pop Cached nd draw[OF _ c]
      by (intro step[of "st\<lparr>bg_q := q, bg_progress := ?p\<rparr>"]) (auto simp: cache_all_blocks_receiver_main_def Let_def)
  qed
qed

lemma bg_tx_ok:
  assumes "bg_inv E (st, a)" and "bg_todo st = x # as" and "\<forall>y. x = Push y \<longrightarrow> length (sq_queue (bg_q st)) < 1000"
  shows "\<exists>st'. bg_tx st = Some (Inr st') \<and> bg_inv E (st', case x of Send_cache _ _ \<Rightarrow> Suc a | _ \<Rightarrow> a) \<and> bg_todo st' = as \<and>
    length (sq_queue (bg_q st')) = length (sq_queue (bg_q st)) + (case x of Send_cache _ _ \<Rightarrow> 0 | _ \<Rightarrow> 1)"
proof -
  obtain got p k where I: "sq_inv (bg_q st)" "sq_max (bg_q st) = 1000" "got @ rev (sq_queue (bg_q st)) @ entries (bg_todo st) = E @ [Eof]"
    "bg_rx_done st = (Eof \<in> set got)" "wf_sock (bg_ctl st)" "writable (bg_ctl st)" "pending (bg_ctl st) = concat (replicate p cache_reply)"
    "a + p = k + firsts (sq_queue (bg_q st))" "credit k (bg_todo st) = Some 0"
    "unat (blocks_from_remote (bg_progress st)) = length (filter remote got)"
    "unat (blocks_from_cache (bg_progress st)) = length (filter ((=) Cached) got)" "unat (blocks_total (bg_progress st)) = length E"
    "\<forall>(f, len) \<in> set (sends (bg_todo st)). 0 \<le> f \<and> f + uint len \<le> 0x7FFFFFFFFFFFFFFF \<and> uint len \<le> 0xFFFFFFFF"
    using assms(1) unfolding bg_inv_def by blast
  show ?thesis
  proof (cases x)
    case (Send_cache f len)
    then have b: "0 \<le> f" "f + uint len \<le> 0x7FFFFFFFFFFFFFFF" "len \<le> 0xFFFFFFFF" using I(13) assms(2) by (auto simp: word_le_def)
    obtain s where s: "nbd_client_send_request_header (bg_ctl st) NBD_CMD_CACHE f len (- 1) = Inr (0, s)" "writable s" "rx_part s = rx_part (bg_ctl st)"
      using send_request_header_ok[OF I(6) b(3,1,2)] by blast
    have "bg_inv E (st\<lparr>bg_todo := as, bg_ctl := s\<rparr>, Suc a)"
      unfolding bg_inv_def using I assms(2) Send_cache s(2) sock_part_simps(2)[OF s(3)]
      by (intro case_prodI exI[of _ got] exI[of _ p]) auto
    with Send_cache assms(2) s(1) show ?thesis by (intro exI[of _ "st\<lparr>bg_todo := as, bg_ctl := s\<rparr>"]) (simp add: bg_tx_def)
  next
    case (Push y)
    then have "length (sq_queue (bg_q st)) < 1000" using assms(3) by simp
    then obtain q where push: "sized_async_queue_push (bg_q st) y = Some q" using sq.push_waits[OF I(1), of y] I(2) by fastforce
    then have q: "rev (sq_queue q) = rev (sq_queue (bg_q st)) @ [y]" "sq_inv q" "sq_max q = 1000"
      using sq.push_elems[OF I(1) push] I(2) by (auto simp: word_unat_eq_iff)
    have q': "sq_queue q = y # sq_queue (bg_q st)" using push by (auto simp: sized_async_queue_push_def split: if_splits)
    have "\<exists>k'. a + p = k' + firsts (sq_queue q) \<and> credit k' as = Some 0"
      using I(8,9) unfolding assms(2) Push q' firsts_Cons by (cases y; cases k) auto
    then have "bg_inv E (st\<lparr>bg_todo := as, bg_q := q\<rparr>, a)"
      unfolding bg_inv_def using I(3-7,10-13) assms(2) Push q(1-3)
      by (intro case_prodI exI[of _ got] exI[of _ p]) auto
    with Push assms(2) push q' show ?thesis by (intro exI[of _ "st\<lparr>bg_todo := as, bg_q := q\<rparr>"]) (simp add: bg_tx_def)
  qed
qed

lemma bg_tx_full: "bg_inv E (st, a) \<Longrightarrow> bg_todo st = Push y # as \<Longrightarrow> \<not> length (sq_queue (bg_q st)) < 1000 \<Longrightarrow> bg_tx st = None"
  using sq.push_waits[of "bg_q st" y] by (auto simp: bg_tx_def bg_inv_def)

lemma bg_proxy_ok: "bg_inv E (st, Suc a) \<Longrightarrow> bg_inv E (st\<lparr>bg_ctl := (bg_ctl st)\<lparr>rx := rx (bg_ctl st) @ [cache_reply]\<rparr>\<rparr>, a)"
proof -
  assume "bg_inv E (st, Suc a)"
  then obtain got p k where I: "sq_inv (bg_q st)" "sq_max (bg_q st) = 1000" "got @ rev (sq_queue (bg_q st)) @ entries (bg_todo st) = E @ [Eof]"
    "bg_rx_done st = (Eof \<in> set got)" "wf_sock (bg_ctl st)" "writable (bg_ctl st)" "pending (bg_ctl st) = concat (replicate p cache_reply)"
    "Suc a + p = k + firsts (sq_queue (bg_q st))" "credit k (bg_todo st) = Some 0"
    "unat (blocks_from_remote (bg_progress st)) = length (filter remote got)"
    "unat (blocks_from_cache (bg_progress st)) = length (filter ((=) Cached) got)" "unat (blocks_total (bg_progress st)) = length E"
    "\<forall>(f, len) \<in> set (sends (bg_todo st)). 0 \<le> f \<and> f + uint len \<le> 0x7FFFFFFFFFFFFFFF \<and> uint len \<le> 0xFFFFFFFF"
    unfolding bg_inv_def by blast
  have "concat (replicate (Suc n) xs) = concat (replicate n xs) @ xs" for n and xs :: bytes by (induction n) simp_all
  with I show ?thesis unfolding bg_inv_def using cache_reply_Cons
    by (intro case_prodI exI[of _ got] exI[of _ "Suc p"]) (auto simp: pending_def wf_sock_def writable_def simp del: replicate_Suc)
qed

lemma bg_done:
  assumes "bg_inv E (st, a)" and "Eof \<notin> set E" and "bg_rx_done st"
  shows "sq_queue (bg_q st) = [] \<and> bg_todo st = [] \<and> a = 0 \<and> pending (bg_ctl st) = [] \<and>
    unat (blocks_from_remote (bg_progress st)) = length (filter remote E) \<and> unat (blocks_from_cache (bg_progress st)) = length (filter ((=) Cached) E)"
proof -
  obtain got p k where I: "got @ rev (sq_queue (bg_q st)) @ entries (bg_todo st) = E @ [Eof]" "Eof \<in> set got"
    "pending (bg_ctl st) = concat (replicate p cache_reply)"
    "a + p = k + firsts (sq_queue (bg_q st))" "credit k (bg_todo st) = Some 0"
    "unat (blocks_from_remote (bg_progress st)) = length (filter remote got)"
    "unat (blocks_from_cache (bg_progress st)) = length (filter ((=) Cached) got)"
    using assms(1,3) unfolding bg_inv_def by blast
  obtain u v where g: "got = u @ Eof # v" using I(2) by (auto simp: in_set_conv_decomp)
  then have "u @ Eof # v @ rev (sq_queue (bg_q st)) @ entries (bg_todo st) = E @ [Eof]" using I(1) by simp
  from split_Eof[OF this assms(2)] have e: "u = E" "v = []" "sq_queue (bg_q st) = []" "entries (bg_todo st) = []" by simp_all
  have "entries as = [] \<Longrightarrow> credit k as = Some (k + length as)" for k as by (induction k as rule: credit.induct) auto
  from this[OF e(4), of k] I(5) have "bg_todo st = []" "k = 0" by simp_all
  with I e g show ?thesis by (simp add: firsts_def)
qed

lemma bg_progresses:
  assumes "bg_inv E (st, a)" and "Eof \<notin> set E" and "\<not> bg_rx_done st"
  shows "\<exists>s'. bg_step (Some c) (st, a) s'"
proof (cases "sq_queue (bg_q st) = []")
  case q: True
  show ?thesis
  proof (cases "bg_todo st")
    case Nil
    obtain got where "got @ rev (sq_queue (bg_q st)) @ entries (bg_todo st) = E @ [Eof]" "bg_rx_done st = (Eof \<in> set got)"
      using assms(1) unfolding bg_inv_def by blast
    with Nil q assms(3) show ?thesis by simp
  next
    case (Cons x as)
    from bg_tx_ok[OF assms(1) this] q show ?thesis by (auto intro: bg_tx_step)
  qed
next
  case False
  show ?thesis
  proof (cases "last (sq_queue (bg_q st)) = Remote_first \<longrightarrow> pending (bg_ctl st) \<noteq> []")
    case True
    from bg_rx_ok[OF assms(1,2) False True, of c] obtain st' where "cache_all_blocks_receiver_main (Some c) st = Some (Inr st')" by blast
    with True show ?thesis by (intro exI[of _ "(st', a)"] bg_rx_step) auto
  next
    case l: False
    obtain p k where p: "pending (bg_ctl st) = concat (replicate p cache_reply)" "a + p = k + firsts (sq_queue (bg_q st))"
      using assms(1) unfolding bg_inv_def by blast
    with l have "p = 0" using cache_reply_Cons by (cases p) auto
    moreover have "0 < firsts (sq_queue (bg_q st))" using l False by (auto simp: firsts_def filter_empty_conv dest: last_in_set)
    ultimately have "0 < a" using p(2) by simp
    then show ?thesis by (auto intro: bg_proxy_step)
  qed
qed

definition bg_work :: "bg_state \<times> nat \<Rightarrow> nat" where
  "bg_work = (\<lambda>(st, a). 3 * length (bg_todo st) + length (sq_queue (bg_q st)) + a)"

lemma bg_step_ok:
  assumes "bg_step (Some c) s s'" and "bg_inv E s" and "Eof \<notin> set E"
  shows "bg_inv E s' \<and> bg_work s' < bg_work s"
  using assms(1)
proof cases
  case (bg_tx_step st st' a' a)
  then obtain x as where t: "bg_todo st = x # as" by (cases "bg_todo st") (auto simp: bg_tx_def)
  have "\<forall>y. x = Push y \<longrightarrow> length (sq_queue (bg_q st)) < 1000" using bg_tx_full[of E st a] bg_tx_step t assms(2) by (auto simp: option.distinct)
  from bg_tx_ok[OF assms(2)[unfolded bg_tx_step(1)] t this] bg_tx_step t show ?thesis
    by (cases x) (auto simp: bg_work_def)
next
  case (bg_rx_step st st' a)
  then have "sq_queue (bg_q st) \<noteq> []" by (auto simp: cache_all_blocks_receiver_main_def sized_async_queue_pop_def split: if_splits)
  from bg_rx_ok[OF assms(2)[unfolded bg_rx_step(1)] assms(3) this, of c] bg_rx_step this show ?thesis by (auto simp: bg_work_def)
next
  case (bg_proxy_step a st)
  then obtain b where "a = Suc b" by (cases a) auto
  with bg_proxy_step bg_proxy_ok[of E st b] assms(2) show ?thesis by (simp add: bg_work_def)
qed

lemma bg_run_ok:
  "(bg_step (Some c) ^^ n) s s' \<Longrightarrow> bg_inv E s \<Longrightarrow> Eof \<notin> set E \<Longrightarrow> bg_inv E s' \<and> n + bg_work s' \<le> bg_work s"
proof (induction n arbitrary: s')
  case (Suc n)
  then obtain s1 where "(bg_step (Some c) ^^ n) s s1" "bg_step (Some c) s1 s'" by auto
  with Suc bg_step_ok[of c s1 s' E] show ?case by fastforce
qed simp

lemma bg_start_ok:
  assumes "piece_ok bms D (unat at_once) 0 (unat (get_disk_nblocks D)) 0 t as" and "D < 9223372036854771712" and "unat at_once \<le> 1048575"
    and "wf_sock ctl" and "writable ctl" and "pending ctl = []"
  shows "bg_inv (entries as) (cache_all_start pe (get_disk_nblocks D) ctl (as @ [Push Eof]), 0)"
proof -
  have "0 \<le> f \<and> f + uint len \<le> 0x7FFFFFFFFFFFFFFF \<and> uint len \<le> 0xFFFFFFFF" if "(f, len) \<in> set (sends as)" for f len
  proof -
    have g: "0 \<le> f" "f + uint len \<le> D" "uint len \<le> int (unat at_once) * 4096" using assms(1) that by (auto simp: piece_ok_def good_send_def)
    have "int (unat at_once) \<le> 1048575" using assms(3) by linarith
    with g assms(2) show ?thesis by linarith
  qed
  then show ?thesis using assms(1,4-6) sq_new[of 1000]
    by (auto simp: bg_inv_def cache_all_start_def progress_setup_def piece_ok_def credit_append firsts_def sized_async_queue_new_def
      intro!: exI[of _ "[]"] exI[of _ 0])
qed

lemma bg_no_stop:
  assumes "bg_inv E (st, a)" and "Eof \<notin> set E"
  shows "bg_tx st \<noteq> Some (Inl x)"
    and "(last (sq_queue (bg_q st)) = Remote_first \<longrightarrow> pending (bg_ctl st) \<noteq> []) \<Longrightarrow> cache_all_blocks_receiver_main (Some c) st \<noteq> Some (Inl x)"
proof -
  show "bg_tx st \<noteq> Some (Inl x)"
  proof (cases "bg_todo st")
    case (Cons y as)
    then show ?thesis using bg_tx_ok[OF assms(1) Cons] bg_tx_full[OF assms(1)] by (cases y) fastforce+
  qed (simp add: bg_tx_def)
  assume w: "last (sq_queue (bg_q st)) = Remote_first \<longrightarrow> pending (bg_ctl st) \<noteq> []"
  show "cache_all_blocks_receiver_main (Some c) st \<noteq> Some (Inl x)"
  proof (cases "sq_queue (bg_q st) = []")
    case False
    from bg_rx_ok[OF assms False w, of c] show ?thesis by auto
  qed (simp add: cache_all_blocks_receiver_main_def sized_async_queue_pop_def)
qed



text \<open>A switch to target mode is refused unless every block of the disk is marked, or it is forced.\<close>

lemma switch_guarded:
  assumes "bgctl_switch bm nblocks force pid monitor kill_ok = Inr p" and "unat nblocks \<le> 64 * length bm"
  shows "p = pid \<and> (force \<or> {..<unat nblocks} \<subseteq> marked bm)"
proof -
  let ?c = "card (marked bm \<inter> {..<unat nblocks})"
  have "of_nat ?c = nblocks \<Longrightarrow> ?c = unat nblocks" using card_marked_le[of bm "unat nblocks"] by (metis unat_of_nat_u64)
  then show ?thesis using assms(1) card_marked_full[of bm "unat nblocks"]
    by (auto simp: bgctl_switch_def bitmap_popcount_eq[OF assms(2)] bindE_eq_Inr split: if_splits)
qed

end
