(* ===== verification/Snapshot.thy ===== *)
theory Snapshot
  imports Io
begin

text \<open>
  The snapshots of \<open>xnbd_target.c\<close>: a copy of the disk image is made under a temporary name, by a
  reflink or by copying 1024 bytes at a time, and linked to its final name when it is complete. The
  directory is a map from paths to contents.
\<close>

section \<open>Copying\<close>

text \<open>
  \<open>pread\<close> on the source: at an offset it may fail with an error, else it returns at least one and at
  most 1024 bytes of what is left, and 0 bytes at the end. \<open>short\<close> says how many it is willing to return.
\<close>

record src_file =
  src_bytes :: bytes
  src_fail :: "nat \<Rightarrow> nat option"
  src_short :: "nat \<Rightarrow> nat"
  src_st_size :: int
  src_fstat_ok :: bool

definition sys_pread :: "src_file \<Rightarrow> nat \<Rightarrow> nat + bytes" where
  "sys_pread f off = (case src_fail f off of Some e \<Rightarrow> Inl e
     | None \<Rightarrow> Inr (take (min (Suc (src_short f off)) 1024) (drop off (src_bytes f))))"

function clone_loop :: "src_file \<Rightarrow> nat \<Rightarrow> sock \<Rightarrow> (stop + nat \<times> sock) option" where
  "clone_loop f tot dstfd =
     (case sys_pread f tot of
        Inl e \<Rightarrow> Some (Inl (Err ''read''))
      | Inr buf \<Rightarrow>
          if buf = [] then Some (Inr (tot, dstfd))
          else (case write_all dstfd buf of
              None \<Rightarrow> None
            | Some (Inl x) \<Rightarrow> Some (Inl x)
            | Some (Inr dstfd') \<Rightarrow> clone_loop f (tot + length buf) dstfd'))"
  by pat_completeness auto
termination
  by (relation "measure (\<lambda>(f, tot, dstfd). length (src_bytes f) - tot)") (auto simp: sys_pread_def split: option.splits)

declare clone_loop.simps [simp del]

definition clone_file_by_copy :: "sock \<Rightarrow> src_file \<Rightarrow> (stop + sock) option" where
  "clone_file_by_copy dstfd f =
     (case clone_loop f 0 dstfd of
        None \<Rightarrow> None
      | Some (Inl x) \<Rightarrow> Some (Inl x)
      | Some (Inr (tot, dstfd')) \<Rightarrow>
          if \<not> src_fstat_ok f then Some (Inl (Err ''fstat''))
          else if src_st_size f \<noteq> int tot then Some (Inl (Err ''size mismatch''))
          else Some (Inr dstfd'))"

section \<open>Taking a snapshot\<close>

record snap_env =
  se_now :: nat
  se_open_ok :: bool
  se_reflink_ok :: bool
  se_dst :: sock
  se_link_ok :: bool
  se_unlink_ok :: bool

type_synonym dir = "string \<Rightarrow> bytes option"

definition snapshot_path :: "string \<Rightarrow> nat \<Rightarrow> string" where
  "snapshot_path diskpath now = diskpath @ ''.snapshot.'' @ zero_pad 8 (decimal now)"

text \<open>
  The outcome and the directory afterwards; a copy that never returns is \<^const>\<open>None\<close>. \<open>open\<close> with
  \<open>O_EXCL\<close> and \<open>link\<close> fail if their new name exists.
\<close>

definition xnbd_target_make_snapshot ::
  "snap_env \<Rightarrow> string \<Rightarrow> src_file \<Rightarrow> dir \<Rightarrow> ((stop + unit) \<times> dir) option" where
  "xnbd_target_make_snapshot e diskpath f d =
     (let dstpath = snapshot_path diskpath (se_now e);
          tmpdstpath = dstpath @ ''.tmp'' in
      if \<not> se_open_ok e \<or> d tmpdstpath \<noteq> None then Some (Inr (), d)
      else
        let d1 = d(tmpdstpath \<mapsto> []) in
        case (if se_reflink_ok e then Some (Inr (src_bytes f))
              else map_option (map_sum id tx) (clone_file_by_copy (se_dst e) f)) of
          None \<Rightarrow> None
        | Some (Inl x) \<Rightarrow> Some (Inl x, d1)
        | Some (Inr copied) \<Rightarrow>
            let d2 = d1(tmpdstpath \<mapsto> copied) in
            if \<not> se_link_ok e \<or> d2 dstpath \<noteq> None then Some (Inl (Err ''hardlink''), d2)
            else let d3 = d2(dstpath \<mapsto> copied) in
              if \<not> se_unlink_ok e then Some (Inl (Err ''unlink''), d3)
              else Some (Inr (), d3(tmpdstpath := None)))"

section \<open>The copy is complete\<close>

lemma take_drop_rest: "take k (drop n xs) @ drop (n + length (take k (drop n xs))) xs = drop n xs"
proof (cases "k \<le> length (drop n xs)")
  case True
  then show ?thesis using append_take_drop_id[of k "drop n xs"] by (simp add: min_absorb2 add.commute)
qed simp

lemma clone_loop_copies:
  "src_fail f = (\<lambda>_. None) \<Longrightarrow> writable dst \<Longrightarrow> tot \<le> length (src_bytes f) \<Longrightarrow>
   \<exists>dst'. clone_loop f tot dst = Some (Inr (length (src_bytes f), dst')) \<and> tx dst' = tx dst @ drop tot (src_bytes f)"
proof (induction f tot dst rule: clone_loop.induct)
  case (1 f tot dst)
  let ?buf = "take (min (Suc (src_short f tot)) 1024) (drop tot (src_bytes f))"
  have r: "sys_pread f tot = Inr ?buf" using "1.prems"(1) by (simp add: sys_pread_def)
  show ?case
  proof (cases "?buf = []")
    case True
    then have "tot = length (src_bytes f)" using "1.prems"(3) by auto
    with r True show ?thesis by (simp add: clone_loop.simps)
  next
    case False
    then have "0 < length ?buf" "length ?buf < 2147483648" by auto
    then obtain dst1 where d1: "write_all dst ?buf = Some (Inr dst1)" "writable dst1" "tx dst1 = tx dst @ ?buf"
      using write_all_full[OF "1.prems"(2), of ?buf] by blast
    have "tot + length ?buf \<le> length (src_bytes f)" using "1.prems"(3) by (simp add: min_def) linarith
    from "1.IH"[OF r False d1(1) refl "1.prems"(1) d1(2) this] obtain dst2 where
      "clone_loop f (tot + length ?buf) dst1 = Some (Inr (length (src_bytes f), dst2))"
      "tx dst2 = tx dst1 @ drop (tot + length ?buf) (src_bytes f)" by blast
    moreover have "?buf @ drop (tot + length ?buf) (src_bytes f) = drop tot (src_bytes f)" by (rule take_drop_rest)
    ultimately show ?thesis using r False d1 by (subst clone_loop.simps) simp
  qed
qed

lemma clone_loop_sound:
  "clone_loop f tot dst = Some (Inr (tot', dst')) \<Longrightarrow> tot \<le> length (src_bytes f) \<Longrightarrow>
   tot' = length (src_bytes f) \<and> tx dst' = tx dst @ drop tot (src_bytes f)"
proof (induction f tot dst rule: clone_loop.induct)
  case (1 f tot dst)
  let ?buf = "take (min (Suc (src_short f tot)) 1024) (drop tot (src_bytes f))"
  have r: "sys_pread f tot = Inr ?buf"
    using "1.prems"(1) by (subst (asm) clone_loop.simps) (auto simp: sys_pread_def split: option.splits)
  show ?case
  proof (cases "?buf = []")
    case True
    then have "tot = length (src_bytes f)" using "1.prems"(2) by auto
    with r True "1.prems"(1) show ?thesis by (subst (asm) clone_loop.simps) simp
  next
    case False
    then obtain dst1 where d1: "write_all dst ?buf = Some (Inr dst1)" and rec: "clone_loop f (tot + length ?buf) dst1 = Some (Inr (tot', dst'))"
      using "1.prems"(1) r by (subst (asm) clone_loop.simps) (auto split: option.splits sum.splits)
    have "0 < length ?buf" "length ?buf < 2147483648" using False by auto
    from write_all_sound[OF d1 this] have "tx dst1 = tx dst @ ?buf" .
    moreover have "tot + length ?buf \<le> length (src_bytes f)" using "1.prems"(2) by (simp add: min_def) linarith
    from "1.IH"[OF r False d1 refl rec this]
    have "tot' = length (src_bytes f) \<and> tx dst' = tx dst1 @ drop (tot + length ?buf) (src_bytes f)" .
    ultimately show ?thesis using take_drop_rest[of "min (Suc (src_short f tot)) 1024" tot "src_bytes f"] by simp
  qed
qed

lemma clone_file_sound:
  assumes "clone_file_by_copy dst f = Some (Inr dst')"
  shows "tx dst' = tx dst @ src_bytes f"
  using assms clone_loop_sound[of f 0 dst] by (auto simp: clone_file_by_copy_def split: option.splits sum.splits if_splits)

section \<open>Properties\<close>

text \<open>
  C18. A snapshot is all or nothing: whatever system call fails, the final name is untouched or holds
  the complete image, and if the temporary file could be created and everything worked it does hold it,
  with no temporary file left and no other file changed.
\<close>

theorem snapshot_atomic:
  assumes "tx (se_dst e) = []" and "xnbd_target_make_snapshot e diskpath f d = Some (r, d')"
  shows "(d' (snapshot_path diskpath (se_now e)) = d (snapshot_path diskpath (se_now e)) \<or>
      d' (snapshot_path diskpath (se_now e)) = Some (src_bytes f)) \<and>
    (r = Inr () \<longrightarrow> d' = d \<or> d' = d(snapshot_path diskpath (se_now e) \<mapsto> src_bytes f)) \<and>
    (\<forall>p. p \<noteq> snapshot_path diskpath (se_now e) \<and> p \<noteq> snapshot_path diskpath (se_now e) @ ''.tmp'' \<longrightarrow> d' p = d p)"
proof -
  have "copied = src_bytes f" if "map_option (map_sum id tx) (clone_file_by_copy (se_dst e) f) = Some (Inr copied)" for copied
    using that clone_file_sound[of "se_dst e" f] assms(1)
    by (cases "clone_file_by_copy (se_dst e) f") (auto simp: map_sum_def split: sum.splits)
  with assms(2) show ?thesis
    by (auto simp: xnbd_target_make_snapshot_def Let_def fun_eq_iff split: if_splits option.splits sum.splits)
qed

theorem snapshot_atomic_witness:
  "\<exists>r d'. xnbd_target_make_snapshot \<lparr>se_now = 12, se_open_ok = True, se_reflink_ok = True,
       se_dst = \<lparr>rx = [], rx_end = None, tx = [], tx_plan = []\<rparr>, se_link_ok = True, se_unlink_ok = True\<rparr> ''img''
       \<lparr>src_bytes = [1, 2], src_fail = \<lambda>_. None, src_short = \<lambda>_. 0, src_st_size = 2, src_fstat_ok = True\<rparr> (\<lambda>_. None) = Some (r, d') \<and>
     d' (snapshot_path ''img'' 12) \<in> {None, Some [1, 2]}"
proof -
  let ?e = "\<lparr>se_now = 12, se_open_ok = True, se_reflink_ok = True,
       se_dst = \<lparr>rx = [], rx_end = None, tx = [], tx_plan = []\<rparr>, se_link_ok = True, se_unlink_ok = True\<rparr>"
  let ?f = "\<lparr>src_bytes = [1, 2], src_fail = \<lambda>_. None, src_short = \<lambda>_. 0, src_st_size = 2, src_fstat_ok = True\<rparr>"
  obtain r d' where "xnbd_target_make_snapshot ?e ''img'' ?f (\<lambda>_. None) = Some (r, d')"
    by (auto simp: xnbd_target_make_snapshot_def Let_def)
  with snapshot_atomic[OF _ this] show ?thesis by auto
qed

text \<open>
  The copy terminates and succeeds on a readable image and a writable destination, however little
  each \<open>pread\<close> and \<open>write\<close> moves: the destination then holds exactly the image.
\<close>

lemma clone_by_copy_complete:
  assumes "src_fail f = (\<lambda>_. None)" and "src_fstat_ok f" and "src_st_size f = int (length (src_bytes f))" and "writable dst"
  shows "\<exists>dst'. clone_file_by_copy dst f = Some (Inr dst') \<and> tx dst' = tx dst @ src_bytes f"
  using clone_loop_copies[OF assms(1,4), of 0] assms(2,3) by (auto simp: clone_file_by_copy_def)

lemma clone_by_copy_complete_witness:
  "\<exists>dst'. clone_file_by_copy \<lparr>rx = [], rx_end = None, tx = [], tx_plan = [Inr 0]\<rparr>
     \<lparr>src_bytes = [1, 2, 3], src_fail = \<lambda>_. None, src_short = \<lambda>_. 1, src_st_size = 3, src_fstat_ok = True\<rparr> = Some (Inr dst') \<and>
     tx dst' = [1, 2, 3]"
  using clone_by_copy_complete[of "\<lparr>src_bytes = [1, 2, 3], src_fail = \<lambda>_. None, src_short = \<lambda>_. 1, src_st_size = 3, src_fstat_ok = True\<rparr>"
    "\<lparr>rx = [], rx_end = None, tx = [], tx_plan = [Inr 0]\<rparr>"] by (auto simp: writable_def)

end
