(* ===== verification/Server.thy ===== *)
theory Server
  imports Fd_Table Proxy_Start Cow Snapshot Target
begin

text \<open>
  \<open>xnbd_server.c\<close>: the master process. It accepts clients and starts a worker process for each; on SIGUSR2 it stops all
  workers and restarts them, on the connections it has kept, as a target on the cache disk of the proxy, and on
  SIGUSR1 in the same way to take a snapshot in between.
\<close>

section \<open>Setting up and shutting down\<close>

datatype xnbd_cmd_type = Cmd_unknown | Cmd_target | Cmd_cow_target | Cmd_proxy | Cmd_help | Cmd_version

text \<open>The members of \<open>struct xnbd_info\<close> the master uses; \<^const>\<open>None\<close> is a NULL.\<close>

record xnbd_info =
  xi_cmd :: xnbd_cmd_type
  xi_disksize :: int
  xi_nblocks :: u64
  xi_readonly :: bool
  target_diskpath :: "string option"
  cow_diskpath :: "string option"
  proxy_rhost :: "string option"
  proxy_rport :: "string option"
  proxy_diskpath :: "string option"
  proxy_bmpath :: "string option"
  proxy_unixpath :: "string option"
  proxy_exportname :: "string option"
  proxy_clear_bitmap :: bool
  xi_max_que_size :: u64
  xi_max_buf_size :: u64
  proxy_pid :: nat

text \<open>What the system answers: to the connection of the proxy and the child's byte, when the disk of a target or the layers of a copy-on-write target are opened.\<close>

record init_env =
  ie_connected :: "sock option"
  ie_junk0 :: bytes
  ie_junk2 :: bytes
  ie_pair :: sock
  ie_pid :: nat
  ie_open :: bool
  ie_fstat_err :: "nat option"
  ie_stat :: stat_buf
  ie_seek_end :: int
  ie_disk :: mem
  ie_client :: sock
  ie_base :: image_file
  ie_mkstemp :: bool
  ie_trunc :: bool
  ie_taken :: "string list"
  ie_layer :: image_file

definition set_disksize :: "int \<Rightarrow> xnbd_info \<Rightarrow> xnbd_info" where
  "set_disksize sz xnbd = xnbd\<lparr>xi_disksize := sz, xi_nblocks := get_disk_nblocks sz\<rparr>"

definition xnbd_initialize :: "init_env \<Rightarrow> xnbd_info \<Rightarrow> stop + xnbd_info" where
  "xnbd_initialize e xnbd =
     (case xi_cmd xnbd of
        Cmd_proxy \<Rightarrow>
          bindE (assertE ''xnbd->proxy_rhost'' (proxy_rhost xnbd \<noteq> None)) (\<lambda>_.
          bindE (assertE ''xnbd->proxy_rport'' (proxy_rport xnbd \<noteq> None)) (\<lambda>_.
          bindE (assertE ''xnbd->proxy_diskpath'' (proxy_diskpath xnbd \<noteq> None)) (\<lambda>_.
          bindE (assertE ''xnbd->proxy_bmpath'' (proxy_bmpath xnbd \<noteq> None)) (\<lambda>_.
          bindE (xnbd_proxy_start_connect (ie_connected e) (map_option (map of_char) (proxy_exportname xnbd)) (ie_junk0 e) (ie_junk2 e)
                  \<lparr>pi_disksize = xi_disksize xnbd, pi_nblocks = xi_nblocks xnbd, pi_clear_bitmap = proxy_clear_bitmap xnbd,
                   pi_max_buf_size = xi_max_buf_size xnbd, pi_max_que_size = xi_max_que_size xnbd, pi_readonly = xi_readonly xnbd\<rparr>) (\<lambda>(p, _).
          bindE (xnbd_proxy_start_parent (ie_pair e)) (\<lambda>_.
            Inr (xnbd\<lparr>xi_disksize := pi_disksize p, xi_nblocks := pi_nblocks p, proxy_pid := ie_pid e\<rparr>)))))))
      | Cmd_cow_target \<Rightarrow>
          (case cow_diskpath xnbd of
             None \<Rightarrow> Inl (Assert ''xnbd->cow_diskpath'')
           | Some path \<Rightarrow> bindE (xnbd_cow_target_create_disk_stack path (ie_base e) (ie_mkstemp e) (ie_trunc e) (ie_taken e) (ie_layer e)) (\<lambda>ds.
               Inr (set_disksize (ds_disksize ds) xnbd)))
      | Cmd_target \<Rightarrow>
          (case target_diskpath xnbd of
             None \<Rightarrow> Inl (Assert ''xnbd->target_diskpath'')
           | Some path \<Rightarrow> bindE (xnbd_target_open_disk (ie_open e) (ie_fstat_err e) (ie_stat e) (ie_seek_end e) (ie_disk e) (xi_readonly xnbd) (ie_client e)) (\<lambda>t.
               Inr (set_disksize (t_disksize t) xnbd)))
      | _ \<Rightarrow> Inl (Err ''not reached''))"

text \<open>\<open>xnbd_shutdown\<close>; \<^const>\<open>None\<close>: the exit byte for the proxy is never written.\<close>

record shutdown_env =
  se_master_fd :: sock
  se_waitpid :: bool
  se_ds :: disk_stack
  se_sync :: bool
  se_munmap :: bool
  se_unlink :: bool

definition xnbd_shutdown :: "shutdown_env \<Rightarrow> nat \<Rightarrow> xnbd_info \<Rightarrow> (stop + unit) option" where
  "xnbd_shutdown e nsessions xnbd =
     (case xi_cmd xnbd of
        Cmd_cow_target \<Rightarrow> Some (bindE (xnbd_cow_target_close_disk_stack (se_sync e) (se_munmap e) (se_unlink e) (se_ds e)) (\<lambda>_. Inr ()))
      | Cmd_proxy \<Rightarrow> map_option (\<lambda>r. bindE r (\<lambda>_. Inr ())) (xnbd_proxy_stop nsessions (se_master_fd e) (se_waitpid e))
      | _ \<Rightarrow> Some (Inr ()))"

section \<open>Sessions\<close>

record xnbd_session =
  clientfd :: nat
  pipe_master_fd :: nat
  ses_pid :: nat
  notifying :: bool

record server =
  sv_xnbd :: xnbd_info
  sv_sessions :: "xnbd_session list"
  sv_fds :: fdtab
  ppoll_eventfds :: "nat list"
  connect_fd :: "nat option"
  proxy_sockpair_master_fd :: "nat option"
  socklist :: "nat list"
  restarting_for_mode_change :: bool
  restarting_for_snapshot :: bool
  got_sigchld :: bool
  got_sigusr1 :: bool
  got_sigusr2 :: bool
  need_exit :: bool
  told :: "nat list"

abbreviation (input) sv_cmd :: "server \<Rightarrow> xnbd_cmd_type" where
  "sv_cmd s \<equiv> xi_cmd (sv_xnbd s)"

definition find_session_with_pid :: "xnbd_session list \<Rightarrow> nat \<Rightarrow> xnbd_session option" where
  "find_session_with_pid ses pid = find (\<lambda>s. ses_pid s = pid) ses"

definition free_session :: "xnbd_session \<Rightarrow> fdtab \<Rightarrow> fdtab" where
  "free_session ses t = sys_close (clientfd ses) (sys_close (pipe_master_fd ses) t)"

text \<open>\<open>invoke_new_session\<close> in the master, with the process that \<open>fork\<close> returns; the worker's end of the pipe is closed again.\<close>

definition invoke_new_session :: "nat \<Rightarrow> nat \<Rightarrow> server \<Rightarrow> server" where
  "invoke_new_session pid csockfd s =
     (case sys_new (Pipe_read pid) (sv_fds s) of (pipe_worker_fd, t1) \<Rightarrow>
      case sys_new (Pipe_write pid) t1 of (pipe_master, t2) \<Rightarrow>
        s\<lparr>sv_fds := sys_close pipe_worker_fd t2,
          sv_sessions := sv_sessions s @ [\<lparr>clientfd = csockfd, pipe_master_fd = pipe_master, ses_pid = pid, notifying = False\<rparr>]\<rparr>)"

text \<open>The descriptors of the new worker: those of the master at the fork, less the ones it closes.\<close>

definition worker_fds :: "nat \<Rightarrow> server \<Rightarrow> fdtab" where
  "worker_fds pid s =
     (case sys_new (Pipe_read pid) (sv_fds s) of (pipe_worker_fd, t1) \<Rightarrow>
      case sys_new (Pipe_write pid) t1 of (pipe_master, t2) \<Rightarrow>
        let t3 = sys_close pipe_master t2;
            t4 = (case proxy_sockpair_master_fd s of Some fd \<Rightarrow> if sv_cmd s = Cmd_proxy then sys_close fd t3 else t3 | None \<Rightarrow> t3);
            t5 = fold sys_close (ppoll_eventfds s) t4
        in fold (\<lambda>ses t. sys_close (pipe_master_fd ses) (sys_close (clientfd ses) t)) (sv_sessions s) t5)"

text \<open>\<open>shutdown_all_sessions\<close>: tells one worker after the other to end and waits for it.\<close>

fun shutdown_loop :: "(nat \<Rightarrow> bool) \<Rightarrow> (nat \<Rightarrow> bool) \<Rightarrow> xnbd_session list \<Rightarrow> server \<Rightarrow> stop + server" where
  "shutdown_loop write_ok waitpid_ok [] s = Inr s"
| "shutdown_loop write_ok waitpid_ok (ses # rest) s =
     (let s1 = (if write_ok (ses_pid ses) then s\<lparr>told := told s @ [ses_pid ses]\<rparr> else s) in
      if \<not> waitpid_ok (ses_pid ses) then Inl (Err ''waitpid'')
      else shutdown_loop write_ok waitpid_ok rest (s1\<lparr>sv_fds := free_session ses (sv_fds s1), sv_sessions := rest\<rparr>))"

definition shutdown_all_sessions :: "(nat \<Rightarrow> bool) \<Rightarrow> (nat \<Rightarrow> bool) \<Rightarrow> server \<Rightarrow> stop + server" where
  "shutdown_all_sessions write_ok waitpid_ok s = shutdown_loop write_ok waitpid_ok (sv_sessions s) s"

section \<open>The master loop\<close>

datatype signal = SIGCHLD | SIGUSR1 | SIGUSR2 | SIGTERM | SIGINT

fun signal_handler :: "signal \<Rightarrow> server \<Rightarrow> server" where
  "signal_handler SIGCHLD s = s\<lparr>got_sigchld := True\<rparr>"
| "signal_handler SIGUSR1 s = s\<lparr>got_sigusr1 := True\<rparr>"
| "signal_handler SIGUSR2 s = s\<lparr>got_sigusr2 := True\<rparr>"
| "signal_handler _ s = s\<lparr>need_exit := True\<rparr>"

text \<open>
  What \<open>ppoll\<close> reports: it was interrupted by signals, failed, or for each listening socket nothing, a hang-up,
  or a connection: \<^const>\<open>None\<close> if \<open>accept\<close> fails, else the new connection with its stream.
\<close>

datatype listen_event = Quiet | Hang_up | Incoming "(nat \<times> sock) option"

datatype ppoll_result = Signals "signal list" | Poll_error nat | Events "listen_event list"

record round_in =
  ri_waited :: "nat list"
  ri_pids :: "nat \<Rightarrow> nat"
  ri_shutdown :: shutdown_env
  ri_init :: init_env
  ri_snapshot :: "(stop + unit) option"
  ri_pipe :: "nat \<Rightarrow> bool"
  ri_poll :: ppoll_result

text \<open>SIGCHLD: every process that \<open>waitpid\<close> reports must be a session.\<close>

definition reap_one :: "nat \<Rightarrow> server \<Rightarrow> stop + server" where
  "reap_one pid s =
     (if sv_cmd s = Cmd_proxy \<and> pid = proxy_pid (sv_xnbd s) then Inl (Err ''detected abnormal termination of proxy_server'')
      else case find_session_with_pid (sv_sessions s) pid of
        None \<Rightarrow> Inl (Err ''unknown session pid'')
      | Some ses \<Rightarrow> Inr (s\<lparr>sv_sessions := remove1 ses (sv_sessions s), sv_fds := free_session ses (sv_fds s)\<rparr>))"

definition reap_all :: "nat list \<Rightarrow> server \<Rightarrow> stop + server" where
  "reap_all pids s = (if got_sigchld s then foldE reap_one pids (s\<lparr>got_sigchld := False\<rparr>) else Inr s)"

text \<open>The only client is done, when the connection was given on the command line.\<close>

definition client_done :: "server \<Rightarrow> bool" where
  "client_done s \<longleftrightarrow> connect_fd s \<noteq> None \<and> \<not> (restarting_for_mode_change s \<or> restarting_for_snapshot s) \<and> sv_sessions s = []"

text \<open>The descriptors: stopping the proxy closes the socket pair, and the disk is opened.\<close>

definition swap_fds :: "nat option \<Rightarrow> fdtab \<Rightarrow> fdtab" where
  "swap_fds sockpair t = snd (sys_new Disk_file (case sockpair of None \<Rightarrow> t | Some fd \<Rightarrow> sys_close fd t))"

text \<open>New sessions on the kept connections; \<open>pids\<close> numbers the processes.\<close>

fun restart_sessions :: "(nat \<Rightarrow> nat) \<Rightarrow> nat \<Rightarrow> nat list \<Rightarrow> server \<Rightarrow> server" where
  "restart_sessions pids n [] s = s"
| "restart_sessions pids n (csockfd # rest) s = restart_sessions pids (Suc n) rest (invoke_new_session (pids n) csockfd s)"

definition become_target :: "shutdown_env \<Rightarrow> init_env \<Rightarrow> server \<Rightarrow> (stop + server) option" where
  "become_target se ie s =
     map_option (\<lambda>r. bindE r (\<lambda>_.
       bindE (xnbd_initialize ie ((sv_xnbd s)\<lparr>xi_cmd := Cmd_target, target_diskpath := proxy_diskpath (sv_xnbd s)\<rparr>)) (\<lambda>x.
         Inr (s\<lparr>sv_xnbd := x, sv_fds := swap_fds (proxy_sockpair_master_fd s) (sv_fds s), proxy_sockpair_master_fd := None\<rparr>))))
     (xnbd_shutdown se (length (sv_sessions s)) (sv_xnbd s))"

definition restart :: "round_in \<Rightarrow> server \<Rightarrow> (stop + server) option" where
  "restart ri s =
     (if (restarting_for_mode_change s \<or> restarting_for_snapshot s) \<and> sv_sessions s = [] then
        map_option (\<lambda>r. bindE r (\<lambda>s1.
          let s2 = (restart_sessions (ri_pids ri) 0 (socklist s1) s1)\<lparr>socklist := []\<rparr> in
          Inr (if restarting_for_mode_change s2 then s2\<lparr>restarting_for_mode_change := False\<rparr> else s2\<lparr>restarting_for_snapshot := False\<rparr>)))
        (if restarting_for_mode_change s then become_target (ri_shutdown ri) (ri_init ri) s
         else map_option (\<lambda>r. bindE r (\<lambda>_. Inr s)) (ri_snapshot ri))
      else Some (Inr s))"

text \<open>The connections of the workers that are not told yet are kept, and the workers are told to end.\<close>

fun notify_sessions :: "(nat \<Rightarrow> bool) \<Rightarrow> xnbd_session list \<Rightarrow> fdtab \<Rightarrow> stop + xnbd_session list \<times> fdtab \<times> nat list \<times> nat list" where
  "notify_sessions pipe_ok [] t = Inr ([], t, [], [])"
| "notify_sessions pipe_ok (ses # rest) t =
     (if notifying ses then
        bindE (notify_sessions pipe_ok rest t) (\<lambda>(sess, t', socks, ps). Inr (ses # sess, t', socks, ps))
      else case sys_dup (clientfd ses) t of
        None \<Rightarrow> Inl (Err ''dup'')
      | Some (csockfd, t1) \<Rightarrow>
          bindE (notify_sessions pipe_ok rest t1) (\<lambda>(sess, t', socks, ps).
            Inr (ses\<lparr>notifying := True\<rparr> # sess, t', csockfd # socks, if pipe_ok (ses_pid ses) then ses_pid ses # ps else ps)))"

definition notify_all :: "(nat \<Rightarrow> bool) \<Rightarrow> server \<Rightarrow> stop + server" where
  "notify_all pipe_ok s =
     bindE (notify_sessions pipe_ok (sv_sessions s) (sv_fds s)) (\<lambda>(sess, t, socks, ps).
       Inr (s\<lparr>sv_sessions := sess, sv_fds := t, socklist := socklist s @ socks, told := told s @ ps\<rparr>))"

text \<open>
  SIGUSR2 and SIGUSR1; the result tells whether \<open>continue\<close> starts the loop again without polling. A signal
  that does not fit the mode jumps over the notification, also of the other signal.
\<close>

definition usr_signals :: "(nat \<Rightarrow> bool) \<Rightarrow> server \<Rightarrow> stop + bool \<times> server" where
  "usr_signals pipe_ok s =
     (if \<not> got_sigusr1 s \<and> \<not> got_sigusr2 s then Inr (False, s)
      else let s1 = (if got_sigusr2 s then s\<lparr>got_sigusr2 := False\<rparr> else s) in
        if got_sigusr2 s \<and> sv_cmd s \<noteq> Cmd_proxy then Inr (False, s1)
        else let s2 = (if got_sigusr2 s then s1\<lparr>restarting_for_mode_change := True\<rparr> else s1);
                 s3 = (if got_sigusr1 s then s2\<lparr>got_sigusr1 := False\<rparr> else s2) in
          if got_sigusr1 s \<and> sv_cmd s \<noteq> Cmd_target then Inr (False, s3)
          else let s4 = (if got_sigusr1 s then s3\<lparr>restarting_for_snapshot := True\<rparr> else s3) in
            if sv_sessions s4 = [] then Inr (True, s4)
            else bindE (notify_all pipe_ok s4) (\<lambda>s5. Inr (False, s5)))"

text \<open>A new client; when the negotiation fails, the connection is not closed.\<close>

definition accept_client :: "nat \<Rightarrow> nat \<times> sock \<Rightarrow> server \<Rightarrow> stop + server" where
  "accept_client pid = (\<lambda>(conn, sock) s.
     case sys_new (Conn conn) (sv_fds s) of (csockfd, t) \<Rightarrow>
       bindE (if xi_readonly (sv_xnbd s) then nbd_negotiate_v1_server_side_readonly sock (xi_disksize (sv_xnbd s))
              else nbd_negotiate_v1_server_side sock (xi_disksize (sv_xnbd s))) (\<lambda>(ret, _).
         if ret < 0 then Inr (s\<lparr>sv_fds := t\<rparr>) else Inr (invoke_new_session pid csockfd (s\<lparr>sv_fds := t\<rparr>))))"

fun poll_events :: "(nat \<Rightarrow> nat) \<Rightarrow> nat \<Rightarrow> listen_event list \<Rightarrow> server \<Rightarrow> stop + server" where
  "poll_events pids n [] s = Inr s"
| "poll_events pids n (ev # evs) s =
     (case ev of
        Quiet \<Rightarrow> poll_events pids (Suc n) evs s
      | Hang_up \<Rightarrow> Inl (Err ''unknown events'')
      | Incoming None \<Rightarrow> poll_events pids (Suc n) evs s
      | Incoming (Some c) \<Rightarrow> bindE (accept_client (pids n) c s) (poll_events pids (Suc n) evs))"

definition master_poll :: "round_in \<Rightarrow> nat \<Rightarrow> server \<Rightarrow> stop + server" where
  "master_poll ri n s =
     (case ri_poll ri of
        Signals sigs \<Rightarrow> Inr (fold signal_handler sigs s)
      | Poll_error e \<Rightarrow> if e = EINTR then Inr s else Inl (Err ''poll'')
      | Events evs \<Rightarrow> poll_events (ri_pids ri) n (take (length (ppoll_eventfds s)) evs) s)"

text \<open>
  One iteration of the loop of \<open>master_server\<close>: whether the loop goes on, and the state. \<^const>\<open>None\<close>: stopping the
  proxy or taking the snapshot does not return.
\<close>

definition master_round :: "round_in \<Rightarrow> server \<Rightarrow> (stop + bool \<times> server) option" where
  "master_round ri s =
     (if need_exit s then Some (Inr (False, s))
      else case reap_all (ri_waited ri) s of
        Inl x \<Rightarrow> Some (Inl x)
      | Inr s1 \<Rightarrow>
          if got_sigchld s \<and> client_done s1 then Some (Inr (False, s1))
          else case restart ri s1 of
            None \<Rightarrow> None
          | Some (Inl x) \<Rightarrow> Some (Inl x)
          | Some (Inr s2) \<Rightarrow> Some (
              bindE (usr_signals (ri_pipe ri) s2) (\<lambda>(again, s3).
                if again then Inr (True, s3)
                else bindE (master_poll ri (length (socklist s1)) s3) (\<lambda>s4. Inr (True, s4)))))"

text \<open>\<open>master_server\<close> for the inputs of successive rounds; \<^const>\<open>None\<close>: it waits for more, or does not return.\<close>

fun master_loop :: "(nat \<Rightarrow> bool) \<Rightarrow> (nat \<Rightarrow> bool) \<Rightarrow> round_in list \<Rightarrow> server \<Rightarrow> (stop + server) option" where
  "master_loop write_ok waitpid_ok [] s = None"
| "master_loop write_ok waitpid_ok (ri # ris) s =
     (case master_round ri s of
        None \<Rightarrow> None
      | Some (Inl x) \<Rightarrow> Some (Inl x)
      | Some (Inr (goes_on, s')) \<Rightarrow> if goes_on then master_loop write_ok waitpid_ok ris s' else Some (shutdown_all_sessions write_ok waitpid_ok s'))"

section \<open>The start of the master\<close>

abbreviation (input) MAXLISTENSOCK :: nat where "MAXLISTENSOCK \<equiv> 20"

definition ppoll_add_eventfd :: "nat \<Rightarrow> server \<Rightarrow> stop + server" where
  "ppoll_add_eventfd fd s =
     bindE (assertE ''ppoll_neventfds < MAXLISTENSOCK-1'' (length (ppoll_eventfds s) < MAXLISTENSOCK - 1)) (\<lambda>_.
       Inr (s\<lparr>ppoll_eventfds := ppoll_eventfds s @ [fd]\<rparr>))"

text \<open>
  \<open>net_create_server_sockets\<close>: for each address, whether \<open>socket\<close>, \<open>bind\<close> and \<open>listen\<close> work; at most \<open>nfds\<close> sockets.
\<close>

fun net_create_server_sockets :: "nat \<Rightarrow> (bool \<times> bool \<times> bool) list \<Rightarrow> fdtab \<Rightarrow> stop + nat list \<times> fdtab" where
  "net_create_server_sockets nfds [] t = Inr ([], t)"
| "net_create_server_sockets 0 (ai # ais) t = Inr ([], t)"
| "net_create_server_sockets (Suc nfds) ((socket_ok, bind_ok, listen_ok) # ais) t =
     (if \<not> socket_ok then net_create_server_sockets (Suc nfds) ais t
      else if \<not> bind_ok then Inl (Err ''bind'')
      else if \<not> listen_ok then Inl (Err ''listen'')
      else case sys_new Listener t of (fd, t') \<Rightarrow>
        bindE (net_create_server_sockets nfds ais t') (\<lambda>(fds, t''). Inr (fd # fds, t'')))"

definition server_start :: "xnbd_info \<Rightarrow> fdtab \<Rightarrow> nat option \<Rightarrow> nat option \<Rightarrow> server" where
  "server_start xnbd t pair conn =
     \<lparr>sv_xnbd = xnbd, sv_sessions = [], sv_fds = t, ppoll_eventfds = [], connect_fd = conn, proxy_sockpair_master_fd = pair, socklist = [],
      restarting_for_mode_change = False, restarting_for_snapshot = False, got_sigchld = False, got_sigusr1 = False, got_sigusr2 = False,
      need_exit = False, told = []\<rparr>"

text \<open>
  \<open>master_server\<close> before its loop: it listens, or serves the connection it was given, which it negotiates with if it is
  standard input; a failure is only warned about.
\<close>

definition master_start :: "(bool \<times> bool \<times> bool) list \<Rightarrow> sock \<Rightarrow> nat \<Rightarrow> server \<Rightarrow> stop + server" where
  "master_start addrs sock pid s =
     (case connect_fd s of
        None \<Rightarrow>
          bindE (net_create_server_sockets MAXLISTENSOCK addrs (sv_fds s)) (\<lambda>(lsock, t).
            foldE ppoll_add_eventfd lsock (s\<lparr>sv_fds := t\<rparr>))
      | Some fd \<Rightarrow>
          bindE (if fd = 0 then
                   (if xi_readonly (sv_xnbd s) then nbd_negotiate_v1_server_side_readonly sock (xi_disksize (sv_xnbd s))
                    else nbd_negotiate_v1_server_side sock (xi_disksize (sv_xnbd s)))
                 else Inr (0, sock)) (\<lambda>_.
            Inr (invoke_new_session pid fd s)))"

end
