(* ===== verification/Server_Restart.thy ===== *)
theory Server_Restart
  imports Server
begin

text \<open>
  The restart of the sessions for a change of mode or a snapshot: the master keeps the connection of every worker it tells
  to end, and the new workers serve exactly these connections.
\<close>

section \<open>Descriptors of sessions\<close>

definition conn_of :: "fdtab \<Rightarrow> nat \<Rightarrow> nat option" where
  "conn_of t fd = (case fd_look t fd of Some (Conn c) \<Rightarrow> Some c | _ \<Rightarrow> None)"

definition keeps :: "fdtab \<Rightarrow> fdtab \<Rightarrow> nat set \<Rightarrow> bool" where
  "keeps t t' A \<longleftrightarrow> (\<forall>fd \<in> A. fd_look t' fd = fd_look t fd)"

lemma keeps_refl [simp]: "keeps t t A"
  by (simp add: keeps_def)

lemma keeps_trans: "keeps t t' A \<Longrightarrow> keeps t' t'' B \<Longrightarrow> A \<subseteq> B \<Longrightarrow> keeps t t'' A"
  by (auto simp: keeps_def)

lemma keeps_conn: "keeps t t' A \<Longrightarrow> fd \<in> A \<Longrightarrow> conn_of t' fd = conn_of t fd"
  by (simp add: keeps_def conn_of_def)

lemma keeps_mono: "keeps t t' A \<Longrightarrow> B \<subseteq> A \<Longrightarrow> keeps t t' B"
  by (auto simp: keeps_def)

text \<open>Every session has its connection and its pipe, every kept descriptor is a connection, and no two are the same.\<close>

definition core :: "xnbd_session list \<Rightarrow> nat list \<Rightarrow> fdtab \<Rightarrow> bool" where
  "core sess socks t \<longleftrightarrow>
     (\<forall>s \<in> set sess. conn_of t (clientfd s) \<noteq> None \<and> fd_look t (pipe_master_fd s) = Some (Pipe_write (ses_pid s))) \<and>
     (\<forall>fd \<in> set socks. conn_of t fd \<noteq> None) \<and> distinct (map clientfd sess @ socks) \<and> distinct (map ses_pid sess)"

definition owned :: "xnbd_session list \<Rightarrow> nat list \<Rightarrow> nat set" where
  "owned sess socks = clientfd ` set sess \<union> pipe_master_fd ` set sess \<union> set socks"

lemma core_keeps: "core sess socks t \<Longrightarrow> keeps t t' (owned sess socks) \<Longrightarrow> core sess socks t'"
  by (auto simp: core_def keeps_def owned_def conn_of_def)

lemma conn_open: "conn_of t fd \<noteq> None \<Longrightarrow> fd_look t fd \<noteq> None"
  by (auto simp: conn_of_def split: option.splits)

lemma owned_open: "core sess socks t \<Longrightarrow> fd \<in> owned sess socks \<Longrightarrow> fd_look t fd \<noteq> None"
  using conn_open[of t] by (auto simp: core_def owned_def)

lemma new_keeps: "(\<And>fd. fd \<in> A \<Longrightarrow> fd_look t fd \<noteq> None) \<Longrightarrow> keeps t (snd (sys_new k t)) A"
  using fdt.look_fresh[of t] unfolding keeps_def sys_new_def by (metis fdt.look_put snd_conv)

lemma fresh_after_set: "fd_fresh (fd_set (fd_fresh t) k t) \<noteq> fd_fresh t" "fd_look t (fd_fresh (fd_set (fd_fresh t) k t)) = None"
  using fdt.look_fresh[of "fd_set (fd_fresh t) k t"] by (auto simp: fdt.look_put split: if_splits)

lemma core_distinct_sess: "core sess socks t \<Longrightarrow> distinct sess"
  by (auto simp: core_def distinct_map)

lemma conn_not_pipe: "conn_of t fd \<noteq> None \<Longrightarrow> fd_look t fd' = Some (Pipe_write p) \<Longrightarrow> fd \<noteq> fd'"
  by (auto simp: conn_of_def)

lemma core_free:
  assumes "core sess socks t" and "ses \<in> set sess"
  shows "core (remove1 ses sess) socks (free_session ses t)" "keeps t (free_session ses t) (owned (remove1 ses sess) socks)"
proof -
  have d: "distinct sess" by (rule core_distinct_sess[OF assms(1)])
  have set: "set (remove1 ses sess) = set sess - {ses}" using d by simp
  have other: "clientfd s \<noteq> clientfd ses" "pipe_master_fd s \<noteq> pipe_master_fd ses" "clientfd s \<noteq> pipe_master_fd ses" "pipe_master_fd s \<noteq> clientfd ses"
    if "s \<in> set sess" "s \<noteq> ses" for s
  proof -
    have p: "ses_pid s \<noteq> ses_pid ses" using assms that by (auto simp: core_def distinct_map inj_on_def)
    show "clientfd s \<noteq> clientfd ses" using assms that by (auto simp: core_def distinct_map inj_on_def)
    show "pipe_master_fd s \<noteq> pipe_master_fd ses"
    proof
      assume "pipe_master_fd s = pipe_master_fd ses"
      then have "Some (Pipe_write (ses_pid s)) = Some (Pipe_write (ses_pid ses))" using assms that by (metis core_def)
      with p show False by simp
    qed
    show "clientfd s \<noteq> pipe_master_fd ses" "pipe_master_fd s \<noteq> clientfd ses"
      using assms that conn_not_pipe by (metis core_def)+
  qed
  have sock: "fd \<noteq> clientfd ses \<and> fd \<noteq> pipe_master_fd ses" if "fd \<in> set socks" for fd
    using assms that conn_not_pipe[of t fd] by (auto simp: core_def)
  have "clientfd ses \<notin> owned (remove1 ses sess) socks" "pipe_master_fd ses \<notin> owned (remove1 ses sess) socks"
    unfolding owned_def set using other sock[of "clientfd ses"] sock[of "pipe_master_fd ses"] by (auto dest!: sym[of "clientfd ses"] sym[of "pipe_master_fd ses"])
  then show k: "keeps t (free_session ses t) (owned (remove1 ses sess) socks)"
    by (auto simp: keeps_def free_session_def fdt.look_close)
  have "core (remove1 ses sess) socks t"
    using assms(1) d unfolding core_def set
    by (auto simp: distinct_map inj_on_def)
  then show "core (remove1 ses sess) socks (free_session ses t)" using k by (rule core_keeps)
qed

lemma invoke_fields [simp]:
  "sv_xnbd (invoke_new_session pid fd s) = sv_xnbd s" "socklist (invoke_new_session pid fd s) = socklist s"
  "restarting_for_mode_change (invoke_new_session pid fd s) = restarting_for_mode_change s"
  "restarting_for_snapshot (invoke_new_session pid fd s) = restarting_for_snapshot s"
  "ppoll_eventfds (invoke_new_session pid fd s) = ppoll_eventfds s"
  "proxy_sockpair_master_fd (invoke_new_session pid fd s) = proxy_sockpair_master_fd s"
  "connect_fd (invoke_new_session pid fd s) = connect_fd s" "got_sigusr1 (invoke_new_session pid fd s) = got_sigusr1 s"
  "got_sigusr2 (invoke_new_session pid fd s) = got_sigusr2 s"
  by (simp_all add: invoke_new_session_def split: prod.splits)

lemma invoke_keeps: "(\<And>fd. fd \<in> A \<Longrightarrow> fd_look (sv_fds s) fd \<noteq> None) \<Longrightarrow> keeps (sv_fds s) (sv_fds (invoke_new_session pid csockfd s)) A"
proof -
  assume a: "\<And>fd. fd \<in> A \<Longrightarrow> fd_look (sv_fds s) fd \<noteq> None"
  have "fd_fresh (sv_fds s) \<notin> A" using a fdt.look_fresh[of "sv_fds s"] by metis
  moreover have "fd_fresh (fd_set (fd_fresh (sv_fds s)) (Pipe_read pid) (sv_fds s)) \<notin> A"
    using a fresh_after_set(2)[of "sv_fds s" "Pipe_read pid"] by metis
  ultimately show ?thesis unfolding keeps_def by (auto simp: invoke_new_session_def sys_new_def fdt.look_put fdt.look_close)
qed

lemma core_invoke:
  assumes "core (sv_sessions s) socks (sv_fds s)" and "conn_of (sv_fds s) fd \<noteq> None" and "fd \<notin> clientfd ` set (sv_sessions s) \<union> set socks"
    and "pid \<notin> ses_pid ` set (sv_sessions s)"
  shows "core (sv_sessions (invoke_new_session pid fd s)) socks (sv_fds (invoke_new_session pid fd s))"
    "\<exists>p. sv_sessions (invoke_new_session pid fd s) = sv_sessions s @ [\<lparr>clientfd = fd, pipe_master_fd = p, ses_pid = pid, notifying = False\<rparr>]"
    "keeps (sv_fds s) (sv_fds (invoke_new_session pid fd s)) (insert fd (owned (sv_sessions s) socks))"
proof -
  let ?s = "invoke_new_session pid fd s" and ?t1 = "fd_set (fd_fresh (sv_fds s)) (Pipe_read pid) (sv_fds s)"
  have p: "sv_sessions ?s = sv_sessions s @ [\<lparr>clientfd = fd, pipe_master_fd = fd_fresh ?t1, ses_pid = pid, notifying = False\<rparr>]"
    "fd_look (sv_fds ?s) (fd_fresh ?t1) = Some (Pipe_write pid)"
    using fresh_after_set(1)[of "sv_fds s" "Pipe_read pid"] by (auto simp: invoke_new_session_def sys_new_def fdt.look_put fdt.look_close)
  then show "\<exists>p. sv_sessions ?s = sv_sessions s @ [\<lparr>clientfd = fd, pipe_master_fd = p, ses_pid = pid, notifying = False\<rparr>]" by blast
  show k: "keeps (sv_fds s) (sv_fds ?s) (insert fd (owned (sv_sessions s) socks))"
    by (rule invoke_keeps) (metis assms(2) conn_open owned_open[OF assms(1)] insertE)
  have "core (sv_sessions s) socks (sv_fds ?s)" using core_keeps[OF assms(1)] keeps_mono[OF k] by blast
  moreover have "conn_of (sv_fds ?s) fd \<noteq> None" using keeps_conn[OF k, of fd] assms(2) by simp
  ultimately show "core (sv_sessions ?s) socks (sv_fds ?s)" using p assms(3,4) by (auto simp: core_def)
qed

section \<open>The invariant of the master\<close>

definition restarting :: "server \<Rightarrow> bool" where
  "restarting s \<longleftrightarrow> restarting_for_mode_change s \<or> restarting_for_snapshot s"

definition sv_conn :: "server \<Rightarrow> nat \<Rightarrow> nat option" where
  "sv_conn s fd = conn_of (sv_fds s) fd"

text \<open>Descriptors that are never among those of sessions: listening sockets and the socket pair.\<close>

definition others :: "server \<Rightarrow> nat set" where
  "others s = set (ppoll_eventfds s) \<union> set_option (proxy_sockpair_master_fd s)"

definition others_ok :: "server \<Rightarrow> bool" where
  "others_ok s \<longleftrightarrow> (\<forall>fd \<in> set (ppoll_eventfds s). fd_look (sv_fds s) fd = Some Listener) \<and>
     (\<forall>fd. proxy_sockpair_master_fd s = Some fd \<longrightarrow> fd_look (sv_fds s) fd = Some Proxy_sock)"

text \<open>
  A worker is told to end only while a restart is under way, and its connection is kept; a change of mode is only
  under way in proxy mode, a snapshot only in target mode.
\<close>

definition sv_inv :: "server \<Rightarrow> bool" where
  "sv_inv s \<longleftrightarrow> core (sv_sessions s) (socklist s) (sv_fds s) \<and> others_ok s \<and>
     (\<forall>ses \<in> set (sv_sessions s). notifying ses \<longrightarrow> restarting s \<and> sv_conn s (clientfd ses) \<in> sv_conn s ` set (socklist s)) \<and>
     (restarting_for_mode_change s \<longrightarrow> sv_cmd s = Cmd_proxy) \<and> (restarting_for_snapshot s \<longrightarrow> sv_cmd s = Cmd_target) \<and>
     (socklist s \<noteq> [] \<longrightarrow> restarting s)"

text \<open>What a phase of a round keeps: the kept descriptors, those of the sessions except the ones reaped, and what they refer to.\<close>

definition goes_on_serving :: "server \<Rightarrow> server \<Rightarrow> bool" where
  "goes_on_serving s s' \<longleftrightarrow> set (socklist s) \<subseteq> set (socklist s') \<and> clientfd ` set (sv_sessions s) \<subseteq> clientfd ` set (sv_sessions s') \<and>
     keeps (sv_fds s) (sv_fds s') (clientfd ` set (sv_sessions s) \<union> set (socklist s)) \<and> sv_cmd s' = sv_cmd s"

lemma serving_refl [simp]: "goes_on_serving s s"
  by (simp add: goes_on_serving_def)

lemma serving_trans:
  assumes "goes_on_serving s s'" and "goes_on_serving s' s''"
  shows "goes_on_serving s s''"
proof -
  have "keeps (sv_fds s) (sv_fds s'') (clientfd ` set (sv_sessions s) \<union> set (socklist s))"
    using assms unfolding goes_on_serving_def by (elim conjE) (rule keeps_trans, assumption, assumption, rule Un_mono)
  moreover have "set (socklist s) \<subseteq> set (socklist s'')"
    by (rule order_trans[OF conjunct1[OF assms(1)[unfolded goes_on_serving_def]] conjunct1[OF assms(2)[unfolded goes_on_serving_def]]])
  moreover have "clientfd ` set (sv_sessions s) \<subseteq> clientfd ` set (sv_sessions s'')"
    by (rule order_trans[OF conjunct1[OF conjunct2[OF assms(1)[unfolded goes_on_serving_def]]] conjunct1[OF conjunct2[OF assms(2)[unfolded goes_on_serving_def]]]])
  ultimately show ?thesis using assms by (simp add: goes_on_serving_def)
qed

subsection \<open>Reaping\<close>

lemma find_session: "find_session_with_pid sess pid = Some ses \<Longrightarrow> ses \<in> set sess \<and> ses_pid ses = pid"
  by (auto simp: find_session_with_pid_def find_Some_iff)

lemma close_others: "others_ok s \<Longrightarrow> core (sv_sessions s) (socklist s) (sv_fds s) \<Longrightarrow> ses \<in> set (sv_sessions s) \<Longrightarrow>
    keeps (sv_fds s) (free_session ses (sv_fds s)) (others s)"
  unfolding keeps_def others_def others_ok_def core_def free_session_def
  by (auto simp: fdt.look_close conn_of_def)

lemma others_keep: "others_ok s \<Longrightarrow> keeps (sv_fds s) t (others s) \<Longrightarrow> others_ok (s\<lparr>sv_fds := t\<rparr>)"
  by (auto simp: others_ok_def keeps_def others_def)

text \<open>What reaping the processes \<open>P\<close> leaves.\<close>

definition waited_keeps :: "nat set \<Rightarrow> server \<Rightarrow> server \<Rightarrow> bool" where
  "waited_keeps P s s' \<longleftrightarrow> sv_inv s' \<and> socklist s' = socklist s \<and> keeps (sv_fds s) (sv_fds s') (set (socklist s)) \<and> sv_xnbd s' = sv_xnbd s \<and>
     restarting_for_mode_change s' = restarting_for_mode_change s \<and> got_sigusr1 s' = got_sigusr1 s \<and> got_sigusr2 s' = got_sigusr2 s \<and>
     ses_pid ` set (sv_sessions s') = ses_pid ` set (sv_sessions s) - P"

lemma reap_one_inv:
  assumes "sv_inv s" and "reap_one pid s = Inr s'"
  shows "waited_keeps {pid} s s'"
proof -
  from assms(2) obtain ses where ses: "ses \<in> set (sv_sessions s)" "ses_pid ses = pid"
    and s': "s' = s\<lparr>sv_sessions := remove1 ses (sv_sessions s), sv_fds := free_session ses (sv_fds s)\<rparr>"
    using find_session by (auto simp: reap_one_def split: if_splits option.splits)
  have c: "core (sv_sessions s) (socklist s) (sv_fds s)" and o: "others_ok s" using assms(1) by (auto simp: sv_inv_def)
  note f = core_free[OF c ses(1)]
  have d: "distinct (sv_sessions s)" "inj_on ses_pid (set (sv_sessions s))" using c by (auto simp: core_def distinct_map)
  have conns: "sv_conn s' fd = sv_conn s fd" if "fd \<in> owned (remove1 ses (sv_sessions s)) (socklist s)" for fd
    using keeps_conn[OF f(2) that] s' by (simp add: sv_conn_def)
  have "others_ok s'" using others_keep[OF o close_others[OF o c ses(1)]] s' by (simp add: others_ok_def)
  moreover have "sv_conn s' (clientfd x) \<in> sv_conn s' ` set (socklist s)" if "x \<in> set (remove1 ses (sv_sessions s))" "notifying x" for x
  proof -
    have "sv_conn s (clientfd x) \<in> sv_conn s ` set (socklist s)" using assms(1) that notin_set_remove1 by (fastforce simp: sv_inv_def)
    moreover have "sv_conn s' (clientfd x) = sv_conn s (clientfd x)" using that by (intro conns) (auto simp: owned_def)
    moreover have "sv_conn s' ` set (socklist s) = sv_conn s ` set (socklist s)" by (intro image_cong refl conns) (auto simp: owned_def)
    ultimately show ?thesis by simp
  qed
  moreover have "set (remove1 ses (sv_sessions s)) \<subseteq> set (sv_sessions s)" by (rule set_remove1_subset)
  ultimately have "sv_inv s'" using assms(1) f(1) s' by (auto simp: sv_inv_def restarting_def)
  moreover have "ses_pid ` set (remove1 ses (sv_sessions s)) = ses_pid ` set (sv_sessions s) - {pid}"
    using d ses by (auto simp: inj_on_def)
  moreover have "keeps (sv_fds s) (sv_fds s') (set (socklist s))" using keeps_mono[OF f(2)] s' by (auto simp: owned_def)
  ultimately show ?thesis using s' by (simp add: waited_keeps_def)
qed

lemma reap_fold_inv: "sv_inv s \<Longrightarrow> foldE reap_one pids s = Inr s' \<Longrightarrow> waited_keeps (set pids) s s'"
proof (induction pids arbitrary: s)
  case (Cons pid pids)
  then obtain s1 where s1: "reap_one pid s = Inr s1" "foldE reap_one pids s1 = Inr s'" by (auto simp: bindE_eq_Inr)
  note one = reap_one_inv[OF Cons.prems(1) s1(1)]
  have rest: "waited_keeps (set pids) s1 s'" using Cons.IH[OF _ s1(2)] one by (simp add: waited_keeps_def)
  have "keeps (sv_fds s) (sv_fds s1) (set (socklist s))" "keeps (sv_fds s1) (sv_fds s') (set (socklist s))" using one rest by (simp_all add: waited_keeps_def)
  from keeps_trans[OF this] have "keeps (sv_fds s) (sv_fds s') (set (socklist s))" by simp
  with one rest show ?case by (auto simp: waited_keeps_def)
qed (simp add: waited_keeps_def)

lemma sv_inv_sigchld [simp]: "sv_inv (s\<lparr>got_sigchld := b\<rparr>) = sv_inv s"
  by (simp add: sv_inv_def others_ok_def restarting_def sv_conn_def)

lemma reap_all_inv:
  assumes "sv_inv s" and "reap_all pids s = Inr s'"
  shows "waited_keeps (if got_sigchld s then set pids else {}) s s'"
proof (cases "got_sigchld s")
  case True
  with assms reap_fold_inv[of "s\<lparr>got_sigchld := False\<rparr>" pids s'] show ?thesis by (simp add: reap_all_def waited_keeps_def)
next
  case False
  with assms show ?thesis by (simp add: reap_all_def waited_keeps_def)
qed

subsection \<open>Restarting\<close>

lemma restart_sessions_core:
  assumes "core (sv_sessions s) socks (sv_fds s)" and "inj pids" and "\<And>k. n \<le> k \<Longrightarrow> pids k \<notin> ses_pid ` set (sv_sessions s)"
  shows "\<exists>new. sv_sessions (restart_sessions pids n socks s) = sv_sessions s @ new \<and> map clientfd new = socks \<and> (\<forall>x \<in> set new. \<not> notifying x) \<and>
    map ses_pid new = map pids [n..<n + length socks] \<and>
    core (sv_sessions s @ new) [] (sv_fds (restart_sessions pids n socks s)) \<and>
    (\<forall>A. (\<forall>fd \<in> A. fd_look (sv_fds s) fd \<noteq> None) \<longrightarrow> keeps (sv_fds s) (sv_fds (restart_sessions pids n socks s)) A)"
  using assms(1,3)
proof (induction socks arbitrary: n s)
  case (Cons fd socks)
  let ?s = "invoke_new_session (pids n) fd s"
  have c: "core (sv_sessions s) socks (sv_fds s)" and fd: "conn_of (sv_fds s) fd \<noteq> None" "fd \<notin> clientfd ` set (sv_sessions s) \<union> set socks"
    using Cons.prems(1) by (auto simp: core_def)
  have pid: "pids n \<notin> ses_pid ` set (sv_sessions s)" using Cons.prems(2) by simp
  note inv = core_invoke[OF c fd pid]
  from inv(2) obtain p where p: "sv_sessions ?s = sv_sessions s @ [\<lparr>clientfd = fd, pipe_master_fd = p, ses_pid = pids n, notifying = False\<rparr>]" by blast
  have "pids k \<notin> ses_pid ` set (sv_sessions ?s)" if "Suc n \<le> k" for k
    using that Cons.prems(2)[of k] injD[OF assms(2), of k n] p by auto
  from Cons.IH[OF inv(1) this] obtain new where new: "sv_sessions (restart_sessions pids (Suc n) socks ?s) = sv_sessions ?s @ new" "map clientfd new = socks"
    "\<forall>x \<in> set new. \<not> notifying x" "map ses_pid new = map pids [Suc n..<Suc n + length socks]"
    "core (sv_sessions ?s @ new) [] (sv_fds (restart_sessions pids (Suc n) socks ?s))"
    and k: "\<And>A. (\<forall>fd \<in> A. fd_look (sv_fds ?s) fd \<noteq> None) \<longrightarrow> keeps (sv_fds ?s) (sv_fds (restart_sessions pids (Suc n) socks ?s)) A"
    by blast
  have "keeps (sv_fds s) (sv_fds (restart_sessions pids n (fd # socks) s)) A" if A: "\<forall>fd \<in> A. fd_look (sv_fds s) fd \<noteq> None" for A
  proof -
    have 1: "keeps (sv_fds s) (sv_fds ?s) A" using A by (intro invoke_keeps) blast
    then have "\<forall>fd \<in> A. fd_look (sv_fds ?s) fd \<noteq> None" using A by (simp add: keeps_def)
    with k[of A] 1 keeps_trans[OF 1] show ?thesis by simp
  qed
  moreover have "pids n # map pids [Suc n..<Suc n + length socks] = map pids [n..<n + length (fd # socks)]" by (simp add: upt_rec)
  ultimately show ?case using new p
    by (intro exI[of _ "\<lparr>clientfd = fd, pipe_master_fd = p, ses_pid = pids n, notifying = False\<rparr> # new"]) auto
qed simp

lemma restart_sessions_fields [simp]:
  "sv_xnbd (restart_sessions pids n socks s) = sv_xnbd s"
  "restarting_for_mode_change (restart_sessions pids n socks s) = restarting_for_mode_change s"
  "restarting_for_snapshot (restart_sessions pids n socks s) = restarting_for_snapshot s"
  "ppoll_eventfds (restart_sessions pids n socks s) = ppoll_eventfds s"
  "proxy_sockpair_master_fd (restart_sessions pids n socks s) = proxy_sockpair_master_fd s"
  "got_sigusr1 (restart_sessions pids n socks s) = got_sigusr1 s" "got_sigusr2 (restart_sessions pids n socks s) = got_sigusr2 s"
  by (induction socks arbitrary: n s) auto

lemma initialize_target: "xnbd_initialize e x = Inr x' \<Longrightarrow> xi_cmd x' = xi_cmd x"
  by (auto simp: xnbd_initialize_def set_disksize_def bindE_eq_Inr split: xnbd_cmd_type.splits option.splits)

lemma swap_keeps:
  assumes "others_ok s" and "\<And>fd. fd \<in> A \<Longrightarrow> fd_look (sv_fds s) fd \<noteq> None \<and> fd_look (sv_fds s) fd \<noteq> Some Proxy_sock"
  shows "keeps (sv_fds s) (swap_fds (proxy_sockpair_master_fd s) (sv_fds s)) A"
proof -
  let ?t = "case proxy_sockpair_master_fd s of None \<Rightarrow> sv_fds s | Some fd \<Rightarrow> sys_close fd (sv_fds s)"
  have k: "fd_look ?t fd = fd_look (sv_fds s) fd" if "fd \<in> A" for fd
    using assms(1) assms(2)[OF that] by (auto simp: others_ok_def fdt.look_close split: option.splits)
  then have "keeps ?t (snd (sys_new Disk_file ?t)) A" using assms(2) by (intro new_keeps) metis
  with k show ?thesis by (simp add: keeps_def swap_fds_def)
qed

lemma conn_kind: "conn_of t fd \<noteq> None \<Longrightarrow> fd_look t fd \<noteq> None \<and> fd_look t fd \<noteq> Some Proxy_sock"
  by (auto simp: conn_of_def split: option.splits)

text \<open>After the first half of a restart, the change of mode or the snapshot.\<close>

definition changed :: "server \<Rightarrow> server \<Rightarrow> bool" where
  "changed s s1 \<longleftrightarrow> sv_sessions s1 = [] \<and> socklist s1 = socklist s \<and> core [] (socklist s) (sv_fds s1) \<and> others_ok s1 \<and> sv_cmd s1 = Cmd_target \<and>
     keeps (sv_fds s) (sv_fds s1) (set (socklist s)) \<and> restarting_for_mode_change s1 = restarting_for_mode_change s \<and>
     restarting_for_snapshot s1 = restarting_for_snapshot s"

lemma become_target_changed:
  assumes "sv_inv s" and "sv_sessions s = []" and "become_target se ie s = Some (Inr s1)"
  shows "changed s s1"
proof -
  from assms(3) obtain x where x: "xi_cmd x = Cmd_target"
    and s1: "s1 = s\<lparr>sv_xnbd := x, sv_fds := swap_fds (proxy_sockpair_master_fd s) (sv_fds s), proxy_sockpair_master_fd := None\<rparr>"
    by (auto simp: become_target_def bindE_eq_Inr dest!: initialize_target)
  have c: "core [] (socklist s) (sv_fds s)" and o: "others_ok s" using assms(1,2) by (auto simp: sv_inv_def)
  have k: "keeps (sv_fds s) (sv_fds s1) (set (socklist s) \<union> set (ppoll_eventfds s))"
    using o c s1 conn_kind by (simp, intro swap_keeps) (auto simp: core_def others_ok_def)
  have "core [] (socklist s) (sv_fds s1)" using core_keeps[OF c] keeps_mono[OF k] by (auto simp: owned_def)
  moreover have "others_ok s1" using o k s1 by (auto simp: others_ok_def keeps_def)
  ultimately show ?thesis using keeps_mono[OF k] s1 x assms(2) by (auto simp: changed_def)
qed

definition restarted :: "(nat \<Rightarrow> nat) \<Rightarrow> server \<Rightarrow> server \<Rightarrow> bool" where
  "restarted pids s s' \<longleftrightarrow> restarting s \<and> sv_sessions s = [] \<and> \<not> restarting s' \<and> sv_cmd s' = Cmd_target \<and> socklist s' = [] \<and>
     map clientfd (sv_sessions s') = socklist s \<and> map ses_pid (sv_sessions s') = map pids [0..<length (socklist s)] \<and>
     keeps (sv_fds s) (sv_fds s') (set (socklist s))"

lemma restart_half:
  assumes "changed s s1" and "sv_inv s" and "restarting s" and "sv_sessions s = []" and "inj pids"
    and "s2 = (restart_sessions pids 0 (socklist s1) s1)\<lparr>socklist := []\<rparr>"
    and "s' = (if restarting_for_mode_change s2 then s2\<lparr>restarting_for_mode_change := False\<rparr> else s2\<lparr>restarting_for_snapshot := False\<rparr>)"
  shows "sv_inv s' \<and> restarted pids s s'"
proof -
  have c: "core (sv_sessions s1) (socklist s) (sv_fds s1)" using assms(1) by (simp add: changed_def)
  have "pids k \<notin> ses_pid ` set (sv_sessions s1)" for k using assms(1) by (simp add: changed_def)
  from restart_sessions_core[OF c assms(5) this] obtain new where new:
    "sv_sessions (restart_sessions pids 0 (socklist s) s1) = new" "map clientfd new = socklist s" "\<forall>x \<in> set new. \<not> notifying x"
    "map ses_pid new = map pids [0..<length (socklist s)]" "core new [] (sv_fds (restart_sessions pids 0 (socklist s) s1))"
    and k: "\<And>A. (\<forall>fd \<in> A. fd_look (sv_fds s1) fd \<noteq> None) \<Longrightarrow> keeps (sv_fds s1) (sv_fds (restart_sessions pids 0 (socklist s) s1)) A"
    using assms(1) by (auto simp: changed_def)
  have k1: "keeps (sv_fds s1) (sv_fds (restart_sessions pids 0 (socklist s) s1)) (set (socklist s))"
    using c conn_open by (intro k) (auto simp: core_def)
  have "keeps (sv_fds s) (sv_fds s1) (set (socklist s))" using assms(1) by (simp add: changed_def)
  from keeps_trans[OF this k1] have k2: "keeps (sv_fds s) (sv_fds (restart_sessions pids 0 (socklist s) s1)) (set (socklist s))" by simp
  have "keeps (sv_fds s1) (sv_fds (restart_sessions pids 0 (socklist s) s1)) (others s1)"
    using assms(1) by (intro k) (auto simp: changed_def others_ok_def others_def)
  then have o: "others_ok (restart_sessions pids 0 (socklist s) s1)" using assms(1) by (auto simp: changed_def others_ok_def keeps_def others_def)
  have "\<not> (restarting_for_mode_change s \<and> restarting_for_snapshot s)" using assms(2) by (auto simp: sv_inv_def)
  then have "\<not> restarting s'" using assms(1,3,6,7) by (auto simp: restarting_def changed_def)
  moreover have "sv_sessions s' = new" "socklist s' = []" "sv_cmd s' = Cmd_target" "sv_fds s' = sv_fds (restart_sessions pids 0 (socklist s) s1)" "others_ok s'"
    using assms(1,6,7) new(1) o by (auto simp: changed_def others_ok_def)
  ultimately show ?thesis using assms(3,4) new k2 unfolding sv_inv_def restarted_def by (auto simp: restarting_def)
qed

lemma restart_inv:
  assumes "sv_inv s" and "inj (ri_pids ri)" and "restart ri s = Some (Inr s')"
  shows "sv_inv s' \<and> (s' = s \<or> restarted (ri_pids ri) s s')"
proof (cases "restarting s \<and> sv_sessions s = []")
  case True
  then have r: "restarting s" "sv_sessions s = []" by auto
  from assms(3) r obtain s1 where one: "(if restarting_for_mode_change s then become_target (ri_shutdown ri) (ri_init ri) s
      else map_option (\<lambda>r. bindE r (\<lambda>_. Inr s)) (ri_snapshot ri)) = Some (Inr s1)"
    and s': "s' = (let s2 = (restart_sessions (ri_pids ri) 0 (socklist s1) s1)\<lparr>socklist := []\<rparr> in
      if restarting_for_mode_change s2 then s2\<lparr>restarting_for_mode_change := False\<rparr> else s2\<lparr>restarting_for_snapshot := False\<rparr>)"
    unfolding restart_def restarting_def by (auto simp: bindE_eq_Inr Let_def simp del: restart_sessions_fields split: if_splits)
  have "changed s s1"
  proof (cases "restarting_for_mode_change s")
    case True
    with one become_target_changed[OF assms(1) r(2)] show ?thesis by simp
  next
    case False
    with one r(1) assms(1) have "s1 = s" "sv_cmd s = Cmd_target" by (auto simp: bindE_eq_Inr restarting_def sv_inv_def)
    with assms(1) r(2) show ?thesis by (auto simp: changed_def sv_inv_def)
  qed
  from restart_half[OF this assms(1) r assms(2) refl s'[unfolded Let_def]] show ?thesis by blast
next
  case False
  with assms show ?thesis by (auto simp: restart_def restarting_def)
qed

subsection \<open>Telling the workers to end\<close>

abbreviation (input) ses_key :: "xnbd_session \<Rightarrow> nat \<times> nat \<times> nat" where
  "ses_key s \<equiv> (clientfd s, pipe_master_fd s, ses_pid s)"

lemma core_key: "core sess socks t \<longleftrightarrow>
    (\<forall>(c, p, i) \<in> set (map ses_key sess). conn_of t c \<noteq> None \<and> fd_look t p = Some (Pipe_write i)) \<and> (\<forall>fd \<in> set socks. conn_of t fd \<noteq> None) \<and>
    distinct (map fst (map ses_key sess) @ socks) \<and> distinct (map (\<lambda>(c, p, i). i) (map ses_key sess))"
  unfolding core_def by (simp add: comp_def)

lemma core_same_key:
  assumes "core sess socks t" and "map ses_key sess' = map ses_key sess"
  shows "core sess' socks t"
  using assms(1) unfolding core_key assms(2) .

lemma core_dup:
  assumes "core sess socks t" and "sys_dup (clientfd x) t = Some (fd, t1)" and "x \<in> set sess"
  shows "core sess (socks @ [fd]) t1" "conn_of t1 fd = conn_of t (clientfd x)" "fd_look t fd = None"
    "\<And>A. (\<forall>fd \<in> A. fd_look t fd \<noteq> None) \<Longrightarrow> keeps t t1 A"
proof -
  from assms(2) obtain k where k: "fd_look t (clientfd x) = Some k" "fd = fd_fresh t" "t1 = fd_set (fd_fresh t) k t"
    by (auto simp: sys_dup_def sys_new_def split: option.splits)
  show n: "fd_look t fd = None" using k(2) fdt.look_fresh by simp
  show kp: "keeps t t1 A" if "\<forall>fd \<in> A. fd_look t fd \<noteq> None" for A
    using that k n unfolding keeps_def by (metis fdt.look_put)
  show c: "conn_of t1 fd = conn_of t (clientfd x)" using k by (simp add: conn_of_def fdt.look_put)
  have "fd \<notin> clientfd ` set sess \<union> set socks" using n owned_open[OF assms(1), of fd] by (auto simp: owned_def)
  moreover have "core sess socks t1" by (rule core_keeps[OF assms(1) kp]) (use owned_open[OF assms(1)] in blast)
  moreover have "conn_of t1 fd \<noteq> None" using c assms(1,3) by (auto simp: core_def)
  ultimately show "core sess (socks @ [fd]) t1" by (auto simp: core_def)
qed

lemma notify_sessions_core:
  assumes "core sess socks t" and "set rest \<subseteq> set sess" and "notify_sessions ok rest t = Inr (rest', t', new, ps)"
  shows "core sess (socks @ new) t' \<and> map ses_key rest' = map ses_key rest \<and> (\<forall>x \<in> set rest'. notifying x) \<and>
    (\<forall>A. (\<forall>fd \<in> A. fd_look t fd \<noteq> None) \<longrightarrow> keeps t t' A) \<and>
    (\<forall>x \<in> set rest. \<not> notifying x \<longrightarrow> conn_of t (clientfd x) \<in> conn_of t' ` set new)"
  using assms
proof (induction rest arbitrary: t socks rest' t' new ps)
  case (Cons x rest)
  show ?case
  proof (cases "notifying x")
    case True
    then obtain rest1 where r: "notify_sessions ok rest t = Inr (rest1, t', new, ps)" "rest' = x # rest1"
      using Cons.prems(3) by (auto simp: bindE_eq_Inr)
    with Cons.IH[OF Cons.prems(1) _ r(1)] Cons.prems(2) True show ?thesis by auto
  next
    case False
    then obtain fd t1 rest1 new1 ps1 where d: "sys_dup (clientfd x) t = Some (fd, t1)" and r: "notify_sessions ok rest t1 = Inr (rest1, t', new1, ps1)"
      and eq: "rest' = x\<lparr>notifying := True\<rparr> # rest1" "new = fd # new1"
      using Cons.prems(3) by (auto simp: bindE_eq_Inr split: option.splits prod.splits)
    have x: "x \<in> set sess" "set rest \<subseteq> set sess" using Cons.prems(2) by auto
    note dup = core_dup[OF Cons.prems(1) d x(1)]
    note IH = Cons.IH[OF dup(1) x(2) r]
    have k1: "keeps t1 t' A" if "\<forall>fd \<in> A. fd_look t1 fd \<noteq> None" for A using IH that by blast
    have k: "keeps t t' A" if A: "\<forall>fd \<in> A. fd_look t fd \<noteq> None" for A
    proof -
      have "\<forall>fd \<in> A. fd_look t1 fd \<noteq> None" using dup(4)[OF A] A by (simp add: keeps_def)
      with k1 dup(4)[OF A] show ?thesis by (blast intro: keeps_trans)
    qed
    have same: "conn_of t1 (clientfd y) = conn_of t (clientfd y)" if "y \<in> set sess" for y
      using keeps_conn[OF dup(4), of "{clientfd y}" "clientfd y"] Cons.prems(1) that conn_open by (simp add: core_def)
    have "conn_of t1 fd \<noteq> None" using dup(1) by (simp add: core_def)
    then have "conn_of t' fd = conn_of t1 fd" using keeps_conn[OF k1, of "{fd}" fd] conn_open by simp
    then have fd: "conn_of t (clientfd x) = conn_of t' fd" using dup(2) by simp
    have "conn_of t (clientfd y) \<in> conn_of t' ` set new" if "y \<in> set (x # rest)" "\<not> notifying y" for y
    proof (cases "y \<in> set rest")
      case True
      with IH that have "conn_of t1 (clientfd y) \<in> conn_of t' ` set new1" by blast
      moreover have "y \<in> set sess" using True x(2) by blast
      ultimately show ?thesis using same eq(2) by auto
    next
      case False
      with that(1) have "y = x" by simp
      with fd eq(2) show ?thesis by auto
    qed
    with IH eq k show ?thesis by simp
  qed
qed simp

lemma inv_conn_open: "sv_inv s \<Longrightarrow> fd \<in> clientfd ` set (sv_sessions s) \<union> set (socklist s) \<Longrightarrow> fd_look (sv_fds s) fd \<noteq> None"
  using owned_open[of "sv_sessions s" "socklist s" "sv_fds s" fd] by (auto simp: sv_inv_def owned_def)

lemma others_open: "others_ok s \<Longrightarrow> fd \<in> others s \<Longrightarrow> fd_look (sv_fds s) fd \<noteq> None"
  by (auto simp: others_ok_def others_def)

lemma notify_all_inv:
  assumes "sv_inv s" and "restarting s" and "notify_all ok s = Inr s'"
  shows "sv_inv s' \<and> goes_on_serving s s' \<and> ses_pid ` set (sv_sessions s') = ses_pid ` set (sv_sessions s)"
proof -
  from assms(3) obtain sess t socks ps where n: "notify_sessions ok (sv_sessions s) (sv_fds s) = Inr (sess, t, socks, ps)"
    and s': "s' = s\<lparr>sv_sessions := sess, sv_fds := t, socklist := socklist s @ socks, told := told s @ ps\<rparr>"
    by (auto simp: notify_all_def bindE_eq_Inr)
  have c: "core (sv_sessions s) (socklist s) (sv_fds s)" and o: "others_ok s" using assms(1) by (auto simp: sv_inv_def)
  note N = notify_sessions_core[OF c order_refl n]
  have key: "map ses_key sess = map ses_key (sv_sessions s)" using N by blast
  have k: "keeps (sv_fds s) t A" if "\<forall>fd \<in> A. fd_look (sv_fds s) fd \<noteq> None" for A using N that by blast
  have ko: "keeps (sv_fds s) t (others s)" using others_open[OF o] by (intro k) blast
  have kc: "keeps (sv_fds s) t (clientfd ` set (sv_sessions s) \<union> set (socklist s))" using inv_conn_open[OF assms(1)] by (intro k) blast
  have "core sess (socklist s @ socks) t" by (rule core_same_key[OF _ key]) (use N in blast)
  moreover have "others_ok s'" using others_keep[OF o ko] s' by (simp add: others_ok_def)
  moreover have "conn_of t (clientfd x) \<in> conn_of t ` (set (socklist s) \<union> set socks)" if "x \<in> set sess" for x
  proof -
    have "ses_key x \<in> set (map ses_key sess)" using that by auto
    then obtain y where y: "y \<in> set (sv_sessions s)" "ses_key y = ses_key x" unfolding key by auto
    have e: "conn_of t (clientfd x) = sv_conn s (clientfd y)" using keeps_conn[OF kc, of "clientfd y"] y by (simp add: sv_conn_def)
    have i: "conn_of t ` set (socklist s) = sv_conn s ` set (socklist s)" using keeps_conn[OF kc] by (auto simp: sv_conn_def image_iff)
    show ?thesis
    proof (cases "notifying y")
      case True
      then have "sv_conn s (clientfd y) \<in> sv_conn s ` set (socklist s)" using assms(1) y(1) by (auto simp: sv_inv_def)
      then show ?thesis unfolding e image_Un i by blast
    next
      case False
      then have "sv_conn s (clientfd y) \<in> conn_of t ` set socks" using N y(1) by (simp add: sv_conn_def)
      then show ?thesis unfolding e image_Un by blast
    qed
  qed
  ultimately have "sv_inv s'" using assms(1,2) s' by (simp add: sv_inv_def restarting_def sv_conn_def)
  moreover have "map fst (map ses_key sess) = map fst (map ses_key (sv_sessions s))" "map (\<lambda>(c, p, i). i) (map ses_key sess) = map (\<lambda>(c, p, i). i) (map ses_key (sv_sessions s))"
    using key by simp_all
  then have "map clientfd sess = map clientfd (sv_sessions s)" "map ses_pid sess = map ses_pid (sv_sessions s)" by (simp_all add: comp_def)
  then have "clientfd ` set sess = clientfd ` set (sv_sessions s)" "ses_pid ` set sess = ses_pid ` set (sv_sessions s)" by (metis list.set_map)+
  ultimately show ?thesis using kc s' by (simp add: goes_on_serving_def)
qed

definition flags_only :: "server \<Rightarrow> server \<Rightarrow> bool" where
  "flags_only s s' \<longleftrightarrow> sv_xnbd s' = sv_xnbd s \<and> sv_sessions s' = sv_sessions s \<and> sv_fds s' = sv_fds s \<and> socklist s' = socklist s \<and>
     ppoll_eventfds s' = ppoll_eventfds s \<and> proxy_sockpair_master_fd s' = proxy_sockpair_master_fd s"

lemma flags_only_inv:
  assumes "sv_inv s" and "flags_only s s'" and "restarting_for_mode_change s \<longrightarrow> restarting_for_mode_change s'" and "restarting_for_snapshot s \<longrightarrow> restarting_for_snapshot s'"
    and "restarting_for_mode_change s' \<longrightarrow> sv_cmd s = Cmd_proxy" and "restarting_for_snapshot s' \<longrightarrow> sv_cmd s = Cmd_target"
  shows "sv_inv s'" "goes_on_serving s s'"
  using assms by (auto simp: sv_inv_def flags_only_def goes_on_serving_def others_ok_def restarting_def sv_conn_def)

lemma usr_signals_inv:
  assumes "sv_inv s" and "usr_signals ok s = Inr (again, s')"
  shows "sv_inv s' \<and> goes_on_serving s s' \<and> ses_pid ` set (sv_sessions s') = ses_pid ` set (sv_sessions s)"
proof -
  define s1 where "s1 = (if got_sigusr2 s then s\<lparr>got_sigusr2 := False\<rparr> else s)"
  define s2 where "s2 = (if got_sigusr2 s then s1\<lparr>restarting_for_mode_change := True\<rparr> else s1)"
  define s3 where "s3 = (if got_sigusr1 s then s2\<lparr>got_sigusr1 := False\<rparr> else s2)"
  define s4 where "s4 = (if got_sigusr1 s then s3\<lparr>restarting_for_snapshot := True\<rparr> else s3)"
  note defs = s1_def s2_def s3_def s4_def
  have f: "flags_only s s1" "flags_only s s3" "flags_only s s4" by (simp_all add: defs flags_only_def)
  have i: "sv_inv s" using assms(1) .
  have cmd: "restarting_for_mode_change s \<longrightarrow> sv_cmd s = Cmd_proxy" "restarting_for_snapshot s \<longrightarrow> sv_cmd s = Cmd_target" using i by (auto simp: sv_inv_def)
  consider (same) "s' = s" | (one) "s' = s1" | (three) "s' = s3" "got_sigusr2 s \<longrightarrow> sv_cmd s = Cmd_proxy"
    | (four) "got_sigusr2 s \<longrightarrow> sv_cmd s = Cmd_proxy" "got_sigusr1 s \<longrightarrow> sv_cmd s = Cmd_target" "got_sigusr1 s \<or> got_sigusr2 s" "s' = s4 \<or> notify_all ok s4 = Inr s'"
    using assms(2) unfolding usr_signals_def Let_def s1_def[symmetric] s2_def[symmetric] s3_def[symmetric] s4_def[symmetric]
    by (auto simp: bindE_eq_Inr split: if_splits)
  then show ?thesis
  proof cases
    case same
    with i show ?thesis by simp
  next
    case one
    have "sv_inv s1" "goes_on_serving s s1" using cmd by (intro flags_only_inv[OF i f(1)]; simp add: defs)+
    with one f(1) show ?thesis by (simp add: flags_only_def)
  next
    case three
    have "sv_inv s3" "goes_on_serving s s3" using cmd three(2) by (intro flags_only_inv[OF i f(2)]; auto simp: defs)+
    with three(1) f(2) show ?thesis by (simp add: flags_only_def)
  next
    case four
    have 4: "sv_inv s4" "goes_on_serving s s4" using cmd four(1,2) by (intro flags_only_inv[OF i f(3)]; auto simp: defs)+
    have "restarting s4" using four(3) by (auto simp: defs restarting_def)
    from four(4) notify_all_inv[OF 4(1) this, of ok s'] serving_trans[OF 4(2), of s'] 4 f(3) show ?thesis
      by (elim disjE) (simp_all add: flags_only_def)
  qed
qed

subsection \<open>New clients and signals\<close>

lemma accept_inv:
  assumes "sv_inv s" and "pid \<notin> ses_pid ` set (sv_sessions s)" and "accept_client pid c s = Inr s'"
  shows "sv_inv s' \<and> goes_on_serving s s' \<and> ses_pid ` set (sv_sessions s') \<subseteq> insert pid (ses_pid ` set (sv_sessions s))"
proof -
  obtain conn sock where cs: "c = (conn, sock)" by (cases c)
  let ?fd = "fd_fresh (sv_fds s)" and ?t = "snd (sys_new (Conn conn) (sv_fds s))"
  let ?s = "s\<lparr>sv_fds := ?t\<rparr>"
  have s': "s' = ?s \<or> s' = invoke_new_session pid ?fd ?s" using assms(3) cs
    by (auto simp: accept_client_def sys_new_def bindE_eq_Inr split: if_splits)
  have core: "core (sv_sessions s) (socklist s) (sv_fds s)" and o: "others_ok s" using assms(1) by (auto simp: sv_inv_def)
  have k: "keeps (sv_fds s) ?t A" if "\<forall>fd \<in> A. fd_look (sv_fds s) fd \<noteq> None" for A using that by (intro new_keeps) blast
  have kc: "keeps (sv_fds s) ?t (clientfd ` set (sv_sessions s) \<union> set (socklist s))" using inv_conn_open[OF assms(1)] by (intro k) blast
  have c1: "core (sv_sessions s) (socklist s) ?t" using owned_open[OF core] by (intro core_keeps[OF core] k) blast
  have o1: "others_ok ?s" using others_open[OF o] by (intro others_keep[OF o] k) blast
  have conns: "sv_conn ?s fd = sv_conn s fd" if "fd \<in> clientfd ` set (sv_sessions s) \<union> set (socklist s)" for fd
    using keeps_conn[OF kc that] by (simp add: sv_conn_def)
  then have "sv_conn ?s ` set (socklist s) = sv_conn s ` set (socklist s)" by (intro image_cong) auto
  with conns assms(1) c1 o1 have i1: "sv_inv ?s" by (simp add: sv_inv_def restarting_def)
  have g1: "goes_on_serving s ?s" using kc by (simp add: goes_on_serving_def)
  have "conn_of ?t ?fd \<noteq> None" by (simp add: conn_of_def sys_new_def fdt.look_put)
  moreover have "?fd \<notin> clientfd ` set (sv_sessions s) \<union> set (socklist s)" using inv_conn_open[OF assms(1), of ?fd] fdt.look_fresh[of "sv_fds s"] by metis
  ultimately have I: "core (sv_sessions (invoke_new_session pid ?fd ?s)) (socklist s) (sv_fds (invoke_new_session pid ?fd ?s))"
    "\<exists>p. sv_sessions (invoke_new_session pid ?fd ?s) = sv_sessions s @ [\<lparr>clientfd = ?fd, pipe_master_fd = p, ses_pid = pid, notifying = False\<rparr>]"
    using core_invoke[of ?s "socklist s" ?fd pid] c1 assms(2) by simp_all
  let ?s2 = "invoke_new_session pid ?fd ?s"
  have k2: "keeps (sv_fds ?s) (sv_fds ?s2) (clientfd ` set (sv_sessions s) \<union> set (socklist s) \<union> others ?s)"
    using inv_conn_open[OF i1] others_open[OF o1] by (intro invoke_keeps) auto
  then have o2: "others_ok ?s2" using o1 by (auto simp: others_ok_def others_def keeps_def)
  have conns2: "sv_conn ?s2 fd = sv_conn ?s fd" if "fd \<in> clientfd ` set (sv_sessions s) \<union> set (socklist s)" for fd
    using keeps_conn[OF k2, of fd] that by (auto simp: sv_conn_def)
  then have "sv_conn ?s2 ` set (socklist s) = sv_conn ?s ` set (socklist s)" by (intro image_cong) auto
  with I conns2 i1 o2 have i2: "sv_inv ?s2" by (auto simp: sv_inv_def restarting_def)
  have "goes_on_serving ?s ?s2" using I(2) keeps_mono[OF k2] by (auto simp: goes_on_serving_def)
  with s' i1 i2 g1 I(2) serving_trans[OF g1, of ?s2] show ?thesis by auto
qed

lemma poll_events_inv:
  "sv_inv s \<Longrightarrow> inj pids \<Longrightarrow> (\<And>k. n \<le> k \<Longrightarrow> pids k \<notin> ses_pid ` set (sv_sessions s)) \<Longrightarrow> poll_events pids n evs s = Inr s' \<Longrightarrow>
   sv_inv s' \<and> goes_on_serving s s'"
proof (induction evs arbitrary: n s)
  case (Cons ev evs)
  have later: "pids k \<notin> ses_pid ` set (sv_sessions s)" if "Suc n \<le> k" for k using Cons.prems(3) that by simp
  show ?case
  proof (cases "\<exists>c. ev = Incoming (Some c)")
    case True
    then obtain c s1 where s1: "accept_client (pids n) c s = Inr s1" "poll_events pids (Suc n) evs s1 = Inr s'"
      using Cons.prems(4) by (auto simp: bindE_eq_Inr)
    have a: "sv_inv s1" "goes_on_serving s s1" "ses_pid ` set (sv_sessions s1) \<subseteq> insert (pids n) (ses_pid ` set (sv_sessions s))"
      using accept_inv[OF Cons.prems(1) _ s1(1)] Cons.prems(3)[of n] by simp_all
    have "pids k \<notin> ses_pid ` set (sv_sessions s1)" if "Suc n \<le> k" for k
    proof -
      have "pids k \<noteq> pids n" using injD[OF Cons.prems(2), of k n] that by auto
      with a(3) later[OF that] show ?thesis by blast
    qed
    from Cons.IH[OF a(1) Cons.prems(2) this s1(2)] serving_trans[OF a(2)] show ?thesis by blast
  next
    case False
    then have "poll_events pids (Suc n) evs s = Inr s'" using Cons.prems(4) by (auto split: listen_event.splits option.splits)
    from Cons.IH[OF Cons.prems(1,2) later this] show ?thesis .
  qed
qed simp

lemma signals_inv: "sv_inv s \<Longrightarrow> sv_inv (fold signal_handler sigs s) \<and> goes_on_serving s (fold signal_handler sigs s)"
proof (induction sigs arbitrary: s)
  case (Cons g sigs)
  have f: "flags_only s (signal_handler g s)" by (cases g) (simp_all add: flags_only_def)
  have "restarting_for_mode_change (signal_handler g s) = restarting_for_mode_change s" "restarting_for_snapshot (signal_handler g s) = restarting_for_snapshot s"
    by (cases g; simp)+
  then have "sv_inv (signal_handler g s)" "goes_on_serving s (signal_handler g s)"
    using Cons.prems by (intro flags_only_inv[OF Cons.prems f]; auto simp: sv_inv_def)+
  with Cons.IH[of "signal_handler g s"] serving_trans[of s "signal_handler g s"] show ?case by simp
qed simp

section \<open>A round of the master\<close>

definition fresh_pids :: "round_in \<Rightarrow> server \<Rightarrow> bool" where
  "fresh_pids ri s \<longleftrightarrow> inj (ri_pids ri) \<and>
     (\<forall>k. ri_pids ri k \<notin> ses_pid ` set (sv_sessions s) - (if got_sigchld s then set (ri_waited ri) else {}))"

text \<open>A round goes on with the kept connections, or restarts and serves all of them.\<close>

lemma master_poll_inv:
  assumes "sv_inv s" and "inj (ri_pids ri)" and "\<And>k. n \<le> k \<Longrightarrow> ri_pids ri k \<notin> ses_pid ` set (sv_sessions s)" and "master_poll ri n s = Inr s'"
  shows "sv_inv s' \<and> goes_on_serving s s'"
proof (cases "ri_poll ri")
  case (Signals sigs)
  with assms(1,4) signals_inv[of s sigs] show ?thesis by (simp add: master_poll_def)
next
  case (Poll_error e)
  with assms(1,4) show ?thesis by (simp add: master_poll_def split: if_splits)
next
  case (Events evs)
  with assms(4) have "poll_events (ri_pids ri) n (take (length (ppoll_eventfds s)) evs) s = Inr s'" by (simp add: master_poll_def)
  from poll_events_inv[OF assms(1-3) this] show ?thesis .
qed

lemma round_inv:
  assumes "sv_inv s" and "fresh_pids ri s" and "master_round ri s = Some (Inr (True, s'))"
  shows "sv_inv s' \<and> (\<exists>s1 s2. waited_keeps (if got_sigchld s then set (ri_waited ri) else {}) s s1 \<and>
    (s2 = s1 \<or> restarted (ri_pids ri) s1 s2) \<and> goes_on_serving s2 s')"
proof -
  let ?P = "if got_sigchld s then set (ri_waited ri) else {}"
  from assms(3) obtain s1 s2 s3 again where r: "reap_all (ri_waited ri) s = Inr s1" "restart ri s1 = Some (Inr s2)"
    "usr_signals (ri_pipe ri) s2 = Inr (again, s3)" and p: "s' = s3 \<or> master_poll ri (length (socklist s1)) s3 = Inr s'"
    unfolding master_round_def by (auto simp: bindE_eq_Inr split: if_splits sum.splits option.splits)
  have w: "waited_keeps ?P s s1" by (rule reap_all_inv[OF assms(1) r(1)])
  then have i1: "sv_inv s1" by (simp add: waited_keeps_def)
  have inj: "inj (ri_pids ri)" using assms(2) by (simp add: fresh_pids_def)
  have two: "sv_inv s2" "s2 = s1 \<or> restarted (ri_pids ri) s1 s2" using restart_inv[OF i1 inj r(2)] by auto
  have three: "sv_inv s3" "goes_on_serving s2 s3" "ses_pid ` set (sv_sessions s3) = ses_pid ` set (sv_sessions s2)"
    using usr_signals_inv[OF two(1) r(3)] by auto
  have "ri_pids ri k \<notin> ses_pid ` set (sv_sessions s3)" if "length (socklist s1) \<le> k" for k
  proof (cases "s2 = s1")
    case True
    with three(3) w assms(2) show ?thesis by (simp add: waited_keeps_def fresh_pids_def)
  next
    case False
    then have "map ses_pid (sv_sessions s2) = map (ri_pids ri) [0..<length (socklist s1)]" using two(2) by (auto simp: restarted_def)
    then have "ses_pid ` set (sv_sessions s2) = ri_pids ri ` {0..<length (socklist s1)}" by (metis list.set_map set_upt)
    then show ?thesis using three(3) that by (simp add: inj_image_mem_iff[OF inj])
  qed
  with master_poll_inv[OF three(1) inj] p three have "sv_inv s' \<and> goes_on_serving s3 s'" by auto
  with serving_trans[OF three(2)] w two show ?thesis by blast
qed

section \<open>No client is lost\<close>

inductive sv_step :: "server \<Rightarrow> server \<Rightarrow> bool" where
  Round: "master_round ri s = Some (Inr (True, s')) \<Longrightarrow> fresh_pids ri s \<Longrightarrow> sv_step s s'"

lemma sv_steps_inv: "sv_step\<^sup>*\<^sup>* s t \<Longrightarrow> sv_inv s \<Longrightarrow> sv_inv t"
  by (induction rule: rtranclp_induct) (auto elim!: sv_step.cases dest: round_inv)

definition kept :: "server \<Rightarrow> nat \<Rightarrow> nat \<Rightarrow> bool" where
  "kept s fd c \<longleftrightarrow> fd \<in> set (socklist s) \<and> sv_conn s fd = Some c"

definition served_on :: "server \<Rightarrow> nat \<Rightarrow> nat \<Rightarrow> bool" where
  "served_on s fd c \<longleftrightarrow> (\<exists>ses \<in> set (sv_sessions s). clientfd ses = fd) \<and> sv_conn s fd = Some c"

lemma step_kept:
  assumes "sv_step s s'" and "sv_inv s" and "kept s fd c"
  shows "kept s' fd c \<or> sv_cmd s' = Cmd_target \<and> served_on s' fd c"
proof -
  from assms(1) obtain ri where ri: "master_round ri s = Some (Inr (True, s'))" "fresh_pids ri s" by (auto elim: sv_step.cases)
  from round_inv[OF assms(2) ri(2,1)] obtain s1 s2 where w: "waited_keeps (if got_sigchld s then set (ri_waited ri) else {}) s s1"
    and two: "s2 = s1 \<or> restarted (ri_pids ri) s1 s2" and g: "goes_on_serving s2 s'" by blast
  have 1: "kept s1 fd c" using assms(3) w keeps_conn[of "sv_fds s" "sv_fds s1" "set (socklist s)" fd] by (simp add: kept_def waited_keeps_def sv_conn_def)
  show ?thesis
  proof (cases "s2 = s1")
    case True
    with 1 g have "kept s' fd c" using keeps_conn[of "sv_fds s2" "sv_fds s'" _ fd] by (auto simp: kept_def goes_on_serving_def sv_conn_def)
    then show ?thesis ..
  next
    case False
    with two have r: "map clientfd (sv_sessions s2) = socklist s1" "keeps (sv_fds s1) (sv_fds s2) (set (socklist s1))" "sv_cmd s2 = Cmd_target"
      by (auto simp: restarted_def)
    have fd: "fd \<in> set (socklist s1)" using 1 by (simp add: kept_def)
    then have in2: "fd \<in> clientfd ` set (sv_sessions s2)" using r(1) by (metis list.set_map)
    have "sv_conn s2 fd = Some c" using keeps_conn[OF r(2) fd] 1 by (simp add: kept_def sv_conn_def)
    moreover have "sv_conn s' fd = sv_conn s2 fd" using keeps_conn[of "sv_fds s2" "sv_fds s'" _ fd] g in2 by (auto simp: goes_on_serving_def sv_conn_def)
    moreover have "fd \<in> clientfd ` set (sv_sessions s')" using g in2 by (auto simp: goes_on_serving_def)
    ultimately have "served_on s' fd c" by (auto simp: served_on_def)
    with g r(3) show ?thesis by (simp add: goes_on_serving_def)
  qed
qed

text \<open>
  C7. A change of mode or a snapshot loses no client: when, in any run of the master, a worker has been told to end, its
  client's connection is kept on a descriptor of its own, whatever workers end, clients connect and signals
  arrive in the rounds that follow, until a round of the run in which the server is in target mode and a session serves that
  connection on the kept descriptor.
\<close>

theorem restart_loses_no_client:
  assumes "sv_inv s0" and "sv_step\<^sup>*\<^sup>* s0 s" and "ses \<in> set (sv_sessions s)" and "notifying ses" and "sv_conn s (clientfd ses) = Some c" and "sv_step\<^sup>*\<^sup>* s t"
  shows "\<exists>fd. fd \<noteq> clientfd ses \<and> (kept t fd c \<or>
    (\<exists>u v. sv_step\<^sup>*\<^sup>* s u \<and> kept u fd c \<and> sv_step u v \<and> sv_step\<^sup>*\<^sup>* v t \<and> sv_cmd v = Cmd_target \<and> served_on v fd c))"
proof -
  have i: "sv_inv s" by (rule sv_steps_inv[OF assms(2,1)])
  then obtain fd where fd: "fd \<in> set (socklist s)" "sv_conn s fd = Some c" using assms(3-5) by (force simp: sv_inv_def)
  have "fd \<noteq> clientfd ses" using i assms(3) fd(1) by (auto simp: sv_inv_def core_def)
  moreover have "kept t fd c \<or> (\<exists>u v. sv_step\<^sup>*\<^sup>* s u \<and> kept u fd c \<and> sv_step u v \<and> sv_step\<^sup>*\<^sup>* v t \<and> sv_cmd v = Cmd_target \<and> served_on v fd c)"
    using assms(6)
  proof (induction rule: rtranclp_induct)
    case base
    then show ?case using fd by (simp add: kept_def)
  next
    case (step t t')
    show ?case
    proof (cases "kept t fd c")
      case True
      from step_kept[OF step.hyps(2) sv_steps_inv[OF step.hyps(1) i] True] True step.hyps show ?thesis by blast
    next
      case False
      with step.IH step.hyps(2) show ?thesis by (meson rtranclp.rtrancl_into_rtrancl)
    qed
  qed
  ultimately show ?thesis by blast
qed

section \<open>The change of mode\<close>

lemma find_session_total: "pid \<in> ses_pid ` set sess \<Longrightarrow> \<exists>ses. find_session_with_pid sess pid = Some ses"
  unfolding find_session_with_pid_def by (cases "find (\<lambda>s. ses_pid s = pid) sess") (auto simp: find_None_iff)

lemma reap_total:
  "sv_inv s \<Longrightarrow> distinct pids \<Longrightarrow> set pids \<subseteq> ses_pid ` set (sv_sessions s) \<Longrightarrow> sv_cmd s = Cmd_proxy \<longrightarrow> proxy_pid (sv_xnbd s) \<notin> set pids \<Longrightarrow>
   \<exists>s'. foldE reap_one pids s = Inr s'"
proof (induction pids arbitrary: s)
  case (Cons pid pids)
  have "pid \<in> ses_pid ` set (sv_sessions s)" using Cons.prems(3) by simp
  then obtain ses where "find_session_with_pid (sv_sessions s) pid = Some ses" using find_session_total by blast
  then obtain s1 where s1: "reap_one pid s = Inr s1" using Cons.prems(4) by (auto simp: reap_one_def)
  have w: "waited_keeps {pid} s s1" by (rule reap_one_inv[OF Cons.prems(1) s1])
  then have "set pids \<subseteq> ses_pid ` set (sv_sessions s1)" "sv_inv s1" "sv_xnbd s1 = sv_xnbd s" using Cons.prems(2,3) by (auto simp: waited_keeps_def)
  with Cons.IH[of s1] Cons.prems(2,4) s1 show ?case by simp
qed simp

lemma restart_total:
  assumes "restarting_for_mode_change s" and "sv_sessions s = []" and "xnbd_shutdown (ri_shutdown ri) 0 (sv_xnbd s) = Some (Inr ())"
    and "xnbd_initialize (ri_init ri) ((sv_xnbd s)\<lparr>xi_cmd := Cmd_target, target_diskpath := proxy_diskpath (sv_xnbd s)\<rparr>) = Inr x"
  shows "\<exists>s'. restart ri s = Some (Inr s') \<and> sv_xnbd s' = x \<and> got_sigusr1 s' = got_sigusr1 s \<and> got_sigusr2 s' = got_sigusr2 s \<and>
    \<not> restarting_for_mode_change s'"
  using assms by (auto simp: restart_def become_target_def)

lemma mode_change_round:
  assumes "sv_inv s" and "fresh_pids ri s" and "restarting_for_mode_change s" and "got_sigchld s" and "\<not> need_exit s"
    and "distinct (ri_waited ri)" and "set (ri_waited ri) = ses_pid ` set (sv_sessions s)" and "proxy_pid (sv_xnbd s) \<notin> set (ri_waited ri)"
    and "xnbd_shutdown (ri_shutdown ri) 0 (sv_xnbd s) = Some (Inr ())"
    and "xnbd_initialize (ri_init ri) ((sv_xnbd s)\<lparr>xi_cmd := Cmd_target, target_diskpath := proxy_diskpath (sv_xnbd s)\<rparr>) = Inr x"
    and "\<not> got_sigusr1 s" and "\<not> got_sigusr2 s" and "ri_poll ri = Signals []"
  shows "\<exists>s'. master_round ri s = Some (Inr (True, s')) \<and> sv_xnbd s' = x \<and> sv_cmd s' = Cmd_target \<and>
    map (\<lambda>ses. sv_conn s' (clientfd ses)) (sv_sessions s') = map (sv_conn s) (socklist s) \<and> (\<forall>ses \<in> set (sv_sessions s'). \<not> notifying ses) \<and>
    socklist s' = [] \<and> \<not> restarting s'"
proof -
  have "\<exists>s1. reap_all (ri_waited ri) s = Inr s1" using reap_total[of "s\<lparr>got_sigchld := False\<rparr>" "ri_waited ri"] assms(1,4,6-8) by (simp add: reap_all_def)
  then obtain s1 where s1: "reap_all (ri_waited ri) s = Inr s1" ..
  have w: "waited_keeps (set (ri_waited ri)) s s1" using reap_all_inv[OF assms(1) s1] assms(4) by simp
  then have none: "sv_sessions s1 = []" and mc: "restarting_for_mode_change s1" and x1: "sv_xnbd s1 = sv_xnbd s" and i1: "sv_inv s1" "socklist s1 = socklist s"
    using assms(3,7) by (auto simp: waited_keeps_def)
  from restart_total[OF mc none] assms(9,10) x1 obtain s2 where s2: "restart ri s1 = Some (Inr s2)" "sv_xnbd s2 = x" "\<not> got_sigusr1 s2" "\<not> got_sigusr2 s2" "\<not> restarting_for_mode_change s2"
    using w assms(11,12) by (auto simp: waited_keeps_def)
  have inj: "inj (ri_pids ri)" using assms(2) by (simp add: fresh_pids_def)
  from restart_inv[OF i1(1) inj s2(1)] mc s2(5) have r: "restarted (ri_pids ri) s1 s2" and i2: "sv_inv s2" by auto
  have "\<not> client_done s1" using mc by (simp add: client_done_def)
  then have "master_round ri s = Some (Inr (True, s2))"
    using s1 s2 assms(5,13) by (simp add: master_round_def usr_signals_def master_poll_def)
  moreover have "map (\<lambda>ses. sv_conn s2 (clientfd ses)) (sv_sessions s2) = map (sv_conn s) (socklist s)"
  proof -
    have c: "map clientfd (sv_sessions s2) = socklist s" using r i1(2) by (simp add: restarted_def)
    have "map (\<lambda>ses. sv_conn s2 (clientfd ses)) (sv_sessions s2) = map (sv_conn s2) (map clientfd (sv_sessions s2))" by simp
    then have "map (\<lambda>ses. sv_conn s2 (clientfd ses)) (sv_sessions s2) = map (sv_conn s2) (socklist s)" unfolding c .
    moreover have "sv_conn s2 fd = sv_conn s fd" if "fd \<in> set (socklist s)" for fd
      using r w i1(2) that keeps_conn[of "sv_fds s1" "sv_fds s2" "set (socklist s)" fd] keeps_conn[of "sv_fds s" "sv_fds s1" "set (socklist s)" fd]
      by (simp add: restarted_def waited_keeps_def sv_conn_def)
    ultimately show ?thesis by simp
  qed
  moreover have "\<forall>ses \<in> set (sv_sessions s2). \<not> notifying ses" using i2 r by (auto simp: sv_inv_def restarted_def)
  ultimately show ?thesis using s2(2) r by (auto simp: restarted_def)
qed


section \<open>Flaws\<close>

text \<open>SIGUSR1 and SIGUSR2 together in proxy mode: the change of mode is under way, but no worker is told to end.\<close>

lemma both_signals_tell_nobody:
  assumes "got_sigusr1 s" and "got_sigusr2 s" and "sv_cmd s = Cmd_proxy"
  shows "usr_signals ok s = Inr (False, s\<lparr>got_sigusr2 := False, restarting_for_mode_change := True, got_sigusr1 := False\<rparr>)"
  using assms by (simp add: usr_signals_def)

text \<open>The connection of a client whose negotiation fails stays open, and no session has it.\<close>

lemma failed_negotiation_leaks:
  assumes "nbd_negotiate_v1_server_side sock (xi_disksize (sv_xnbd s)) = Inr (-1, sock')" and "\<not> xi_readonly (sv_xnbd s)"
  shows "\<exists>s'. accept_client pid (c, sock) s = Inr s' \<and> sv_sessions s' = sv_sessions s \<and> fd_look (sv_fds s') (fd_fresh (sv_fds s)) = Some (Conn c)"
  using assms by (simp add: accept_client_def sys_new_def fdt.look_put)

text \<open>A restarted worker inherits the kept connections of the sessions that are restarted after it.\<close>

lemma fold_close: "fd_look (fold sys_close fds t) fd = (if fd \<in> set fds then None else fd_look t fd)"
  by (induction fds arbitrary: t) (auto simp: fdt.look_close)

lemma fold_close_sessions:
  "fd_look (fold (\<lambda>ses t. sys_close (pipe_master_fd ses) (sys_close (clientfd ses) t)) sess t) fd =
     (if fd \<in> clientfd ` set sess \<union> pipe_master_fd ` set sess then None else fd_look t fd)"
  by (induction sess arbitrary: t) (auto simp: fdt.look_close)

lemma worker_inherits_kept:
  assumes "sv_inv s" and "kept s fd c"
  shows "fd_look (worker_fds pid s) fd = Some (Conn c)"
proof -
  have look: "fd_look (sv_fds s) fd = Some (Conn c)" using assms(2) by (auto simp: kept_def sv_conn_def conn_of_def split: option.splits kobj.splits)
  have "fd \<notin> set (ppoll_eventfds s)" "proxy_sockpair_master_fd s \<noteq> Some fd" using assms(1) look by (auto simp: sv_inv_def others_ok_def)
  moreover have "fd \<notin> clientfd ` set (sv_sessions s) \<union> pipe_master_fd ` set (sv_sessions s)"
    using assms look by (auto simp: sv_inv_def core_def kept_def)
  moreover have "fd \<noteq> fd_fresh (sv_fds s)" "fd \<noteq> fd_fresh (fd_set (fd_fresh (sv_fds s)) (Pipe_read pid) (sv_fds s))"
    using look fdt.look_fresh[of "sv_fds s"] fresh_after_set(2)[of "sv_fds s" "Pipe_read pid"] by auto
  ultimately show ?thesis using look
    by (auto simp: worker_fds_def sys_new_def Let_def fold_close fold_close_sessions fdt.look_close fdt.look_put split: option.splits)
qed

end
