(* ===== verification/Server_Main.thy ===== *)
theory Server_Main
  imports Server_Restart
begin

text \<open>
  \<open>main\<close> of \<open>xnbd_server.c\<close>: the options, the start of the master, which satisfies its invariant, and the processes of a server
  that runs as a daemon.
\<close>

section \<open>Options\<close>

text \<open>\<open>strtoul\<close> with base 0: the prefix tells the base, a sign negates modulo \<open>2^64\<close>, too large a value is cut off.\<close>

definition hex_value :: "char \<Rightarrow> nat option" where
  "hex_value c = (let n = of_char c :: nat in
     if 48 \<le> n \<and> n \<le> 57 then Some (n - 48) else if 97 \<le> n \<and> n \<le> 102 then Some (n - 87) else if 65 \<le> n \<and> n \<le> 70 then Some (n - 55) else None)"

fun read_digits :: "nat \<Rightarrow> string \<Rightarrow> nat \<Rightarrow> nat" where
  "read_digits b [] acc = acc"
| "read_digits b (c # cs) acc = (case hex_value c of None \<Rightarrow> acc | Some d \<Rightarrow> if d < b then read_digits b cs (b * acc + d) else acc)"

definition strtoul0 :: "string \<Rightarrow> u64" where
  "strtoul0 s =
     (let s1 = dropWhile is_space s;
          (neg, s2) = (case s1 of c # cs \<Rightarrow> if c = CHR ''-'' then (True, cs) else if c = CHR ''+'' then (False, cs) else (False, s1) | [] \<Rightarrow> (False, s1));
          v = (case s2 of
                 z # x # d # ds \<Rightarrow> if z = CHR ''0'' \<and> (x = CHR ''x'' \<or> x = CHR ''X'') \<and> hex_value d \<noteq> None then read_digits 16 (d # ds) 0
                                   else if z = CHR ''0'' then read_digits 8 s2 0 else read_digits 10 s2 0
               | z # _ \<Rightarrow> if z = CHR ''0'' then read_digits 8 s2 0 else read_digits 10 s2 0
               | [] \<Rightarrow> 0)
      in if v \<ge> 18446744073709551616 then - 1 else if neg then - of_nat v else of_nat v)"

record server_opts =
  so_cmd :: xnbd_cmd_type
  so_lport :: int
  so_max_que :: u64
  so_max_buf :: u64
  so_daemonize :: bool
  so_readonly :: bool
  so_connected_fd :: int
  so_logpath :: "string option"
  so_syslog :: bool
  so_inetd :: bool
  so_exportname :: "string option"
  so_clear_bitmap :: bool

datatype server_end = Show_help "string option" | Show_version | Aborted stop

definition server_defaults :: server_opts where
  "server_defaults = \<lparr>so_cmd = Cmd_unknown, so_lport = 8520, so_max_que = 0, so_max_buf = 0, so_daemonize = False, so_readonly = False, so_connected_fd = - 1,
     so_logpath = None, so_syslog = False, so_inetd = False, so_exportname = None, so_clear_bitmap = False\<rparr>"

text \<open>The first scan, for the options on logging; an option is its letter with \<open>optarg\<close>, which is NULL if it takes none.\<close>

definition logging_option :: "char \<times> string option \<Rightarrow> server_opts \<Rightarrow> server_opts" where
  "logging_option = (\<lambda>(c, optarg) os.
     if c = CHR ''L'' then os\<lparr>so_logpath := optarg\<rparr>
     else if c = CHR ''S'' then os\<lparr>so_syslog := True\<rparr>
     else if c = CHR ''i'' then os\<lparr>so_inetd := True, so_connected_fd := 0\<rparr>
     else if c = CHR ''d'' then os\<lparr>so_daemonize := True\<rparr>
     else os)"

text \<open>Where the messages go: a descriptor, and syslog.\<close>

definition log_to :: "server_opts \<Rightarrow> bool \<times> bool" where
  "log_to os =
     (let default = (\<not> so_syslog os \<and> so_logpath os = None) in
      (so_logpath os \<noteq> None \<or> default \<and> \<not> (so_inetd os \<or> so_daemonize os), so_syslog os \<or> default \<and> (so_inetd os \<or> so_daemonize os)))"

definition deny_multiple_mode_changes :: "xnbd_cmd_type \<Rightarrow> server_end + unit" where
  "deny_multiple_mode_changes cmd = (if cmd \<noteq> Cmd_unknown then Inl (Show_help (Some ''specify one mode'')) else Inr ())"

text \<open>\<open>unset_nonblock\<close>: the flags that \<open>fcntl\<close> returns, \<^const>\<open>None\<close> if it fails; whether setting them works.\<close>

definition unset_nonblock :: "bool option \<Rightarrow> bool \<Rightarrow> server_end + unit" where
  "unset_nonblock nonblock setfl_ok =
     (case nonblock of
        None \<Rightarrow> Inl (Aborted (Err ''fcntl F_GETFL''))
      | Some b \<Rightarrow> if b \<and> \<not> setfl_ok then Inl (Aborted (Err ''fcntl F_SETFL'')) else Inr ())"

definition set_mode :: "xnbd_cmd_type \<Rightarrow> server_opts \<Rightarrow> server_end + server_opts" where
  "set_mode cmd os = bindE (deny_multiple_mode_changes (so_cmd os)) (\<lambda>_. Inr (os\<lparr>so_cmd := cmd\<rparr>))"

definition arg :: "string option \<Rightarrow> server_end + string" where
  "arg optarg = (case optarg of None \<Rightarrow> Inl (Aborted Segv) | Some s \<Rightarrow> Inr s)"

definition server_option :: "bool option \<Rightarrow> bool \<Rightarrow> char \<times> string option \<Rightarrow> server_opts \<Rightarrow> server_end + server_opts" where
  "server_option nonblock setfl_ok = (\<lambda>(c, optarg) os.
     if c = CHR ''t'' then set_mode Cmd_target os
     else if c = CHR ''p'' then set_mode Cmd_proxy os
     else if c = CHR ''c'' then set_mode Cmd_cow_target os
     else if c = CHR ''h'' then set_mode Cmd_help os
     else if c = CHR ''v'' then set_mode Cmd_version os
     else if c = CHR ''l'' then bindE (arg optarg) (\<lambda>a. Inr (os\<lparr>so_lport := atoi a\<rparr>))
     else if c = CHR ''Q'' then bindE (arg optarg) (\<lambda>a. Inr (os\<lparr>so_max_que := strtoul0 a\<rparr>))
     else if c = CHR ''B'' then bindE (arg optarg) (\<lambda>a. Inr (os\<lparr>so_max_buf := strtoul0 a\<rparr>))
     else if c = CHR ''r'' then Inr (os\<lparr>so_readonly := True\<rparr>)
     else if c = CHR ''F'' then
       (if so_inetd os then Inl (Aborted (Err ''--connected-fd cannot to be specified with --inetd.''))
        else bindE (arg optarg) (\<lambda>a. bindE (unset_nonblock nonblock setfl_ok) (\<lambda>_. Inr (os\<lparr>so_connected_fd := atoi a\<rparr>))))
     else if c \<in> set ''dLSi'' then Inr os
     else if c = CHR ''n'' then Inr (os\<lparr>so_exportname := optarg\<rparr>)
     else if c = CHR ''z'' then Inr (os\<lparr>so_clear_bitmap := True\<rparr>)
     else if c = CHR ''?'' then Inr (os\<lparr>so_cmd := Cmd_help\<rparr>)
     else Inl (Aborted (Err ''getopt'')))"

definition blank_info :: xnbd_info where
  "blank_info = \<lparr>xi_cmd = Cmd_unknown, xi_disksize = 0, xi_nblocks = 0, xi_readonly = False, target_diskpath = None, cow_diskpath = None, proxy_rhost = None,
     proxy_rport = None, proxy_diskpath = None, proxy_bmpath = None, proxy_unixpath = None, proxy_exportname = None, proxy_clear_bitmap = False,
     xi_max_que_size = 0, xi_max_buf_size = 0, proxy_pid = 0\<rparr>"

text \<open>The paths of the mode, from the arguments that are no options.\<close>

definition mode_args :: "xnbd_cmd_type \<Rightarrow> string list \<Rightarrow> xnbd_info \<Rightarrow> server_end + xnbd_info" where
  "mode_args cmd argv x =
     (case cmd of
        Cmd_help \<Rightarrow> Inl (Show_help None)
      | Cmd_version \<Rightarrow> Inl Show_version
      | Cmd_unknown \<Rightarrow> Inl (Show_help (Some ''give one command''))
      | Cmd_target \<Rightarrow> (case argv of [d] \<Rightarrow> Inr (x\<lparr>target_diskpath := Some d\<rparr>) | _ \<Rightarrow> Inl (Show_help (Some ''argument error'')))
      | Cmd_cow_target \<Rightarrow> (case argv of [d] \<Rightarrow> Inr (x\<lparr>cow_diskpath := Some d\<rparr>) | _ \<Rightarrow> Inl (Show_help (Some ''argument error'')))
      | Cmd_proxy \<Rightarrow>
          (case argv of
             [h, p, d, b, u] \<Rightarrow> Inr (x\<lparr>proxy_rhost := Some h, proxy_rport := Some p, proxy_diskpath := Some d, proxy_bmpath := Some b, proxy_unixpath := Some u\<rparr>)
           | _ \<Rightarrow> Inl (Show_help (Some ''argument error''))))"

definition proxy_limit :: "string \<Rightarrow> u64 \<Rightarrow> (xnbd_info \<Rightarrow> xnbd_info) \<Rightarrow> xnbd_info \<Rightarrow> server_end + xnbd_info" where
  "proxy_limit what v f x = (if v > 0 then if xi_cmd x = Cmd_proxy then Inr (f x) else Inl (Aborted (Err what)) else Inr x)"

definition server_args :: "bool option \<Rightarrow> bool \<Rightarrow> (char \<times> string option) list \<Rightarrow> string list \<Rightarrow> server_end + server_opts \<times> xnbd_info" where
  "server_args nonblock setfl_ok opts argv =
     bindE (foldE (server_option nonblock setfl_ok) opts (fold logging_option opts server_defaults)) (\<lambda>os.
     bindE (mode_args (so_cmd os) argv (blank_info\<lparr>proxy_exportname := so_exportname os, proxy_clear_bitmap := so_clear_bitmap os\<rparr>)) (\<lambda>x.
     bindE (proxy_limit ''max_queue_size option is valid only for the proxy mode'' (so_max_que os) (\<lambda>x. x\<lparr>xi_max_que_size := so_max_que os\<rparr>)
              (x\<lparr>xi_cmd := so_cmd os, xi_readonly := so_readonly os\<rparr>)) (\<lambda>x.
     bindE (proxy_limit ''max_buf_size option is valid only for the proxy mode'' (so_max_buf os) (\<lambda>x. x\<lparr>xi_max_buf_size := so_max_buf os\<rparr>) x) (\<lambda>x.
       Inr (os, x)))))"

section \<open>Processes\<close>

text \<open>
  Parents of processes. A new process has the caller as parent; when a process exits, process 1 becomes the parent of its children;
  \<open>daemon\<close> forks and exits. \<open>waitpid\<close> works for children only.
\<close>

type_synonym ptree = "(nat \<times> nat) list"

definition sys_getppid :: "ptree \<Rightarrow> nat \<Rightarrow> nat" where
  "sys_getppid t p = (case map_of t p of None \<Rightarrow> 0 | Some q \<Rightarrow> q)"

definition sys_fork :: "nat \<Rightarrow> nat \<Rightarrow> ptree \<Rightarrow> ptree" where
  "sys_fork parent child t = (child, parent) # t"

definition sys_exit :: "nat \<Rightarrow> ptree \<Rightarrow> ptree" where
  "sys_exit p t = map (\<lambda>(c, q). (c, if q = p then 1 else q)) (filter (\<lambda>(c, q). c \<noteq> p) t)"

definition sys_daemon :: "nat \<Rightarrow> nat \<Rightarrow> ptree \<Rightarrow> nat \<times> ptree" where
  "sys_daemon self child t = (child, sys_exit self (sys_fork self child t))"

definition waitpid_works :: "nat \<Rightarrow> nat \<Rightarrow> ptree \<Rightarrow> bool" where
  "waitpid_works self p t \<longleftrightarrow> sys_getppid t p = self"

text \<open>The end of \<open>main\<close>: the proxy process is started by \<open>xnbd_initialize\<close>, and the server becomes a daemon afterwards. The result is the process of the server.\<close>

definition main_processes :: "server_opts \<Rightarrow> xnbd_cmd_type \<Rightarrow> nat \<Rightarrow> nat \<Rightarrow> nat \<Rightarrow> bool \<Rightarrow> ptree \<Rightarrow> stop + nat \<times> ptree" where
  "main_processes os cmd self proxy daemon_pid daemon_ok t =
     (let t1 = (if cmd = Cmd_proxy then sys_fork self proxy t else t) in
      if so_daemonize os then
        if so_inetd os then Inl (Err ''--daemon cannot be specified with --inetd.'')
        else if \<not> daemon_ok then Inl (Err ''daemon'') else Inr (sys_daemon self daemon_pid t1)
      else Inr (self, t1))"

lemma map_of_exit: "p \<noteq> x \<Longrightarrow> map_of (sys_exit p t) x = map_option (\<lambda>q. if q = p then 1 else q) (map_of t x)"
  unfolding sys_exit_def by (induction t) auto

text \<open>
  C36. A proxy server that runs as a daemon cannot change its mode: the proxy process, which the server starts before it becomes
  a daemon, has process 1 as its parent, so that the process it names to \<open>xnbd-bgctl --switch\<close> for SIGUSR2 is not the server, and the server's
  \<open>waitpid\<close> for the proxy fails. Without \<open>--daemonize\<close> the named process is the server, and \<open>waitpid\<close> works.
\<close>

theorem daemon_loses_proxy:
  assumes "main_processes os Cmd_proxy self proxy dpid daemon_ok t = Inr (server, t')" and "proxy \<noteq> self" and "dpid \<notin> {proxy, self, 1}"
  shows "if so_daemonize os then sys_getppid t' proxy = 1 \<and> server \<noteq> 1 \<and> \<not> waitpid_works server proxy t'
    else sys_getppid t' proxy = server \<and> waitpid_works server proxy t'"
  using assms
  by (auto simp: main_processes_def sys_daemon_def sys_fork_def sys_getppid_def waitpid_works_def map_of_exit Let_def split: if_splits)

theorem daemon_loses_proxy_witness:
  "main_processes (server_defaults\<lparr>so_daemonize := True\<rparr>) Cmd_proxy 100 101 102 True [(100, 50)] = Inr (102, [(102, 1), (101, 1)]) \<and>
   sys_getppid [(102, 1), (101, 1)] 101 = 1"
proof -
  have e: "main_processes (server_defaults\<lparr>so_daemonize := True\<rparr>) Cmd_proxy 100 101 102 True [(100, 50)] = Inr (102, [(102, 1), (101, 1)])"
    by (simp add: main_processes_def server_defaults_def sys_daemon_def sys_fork_def sys_exit_def)
  from daemon_loses_proxy[OF this] have "sys_getppid [(102, 1), (101, 1)] 101 = 1" by (simp add: server_defaults_def)
  with e show ?thesis by blast
qed

section \<open>The start of the master\<close>

lemma sv_inv_empty:
  "sv_sessions s = [] \<Longrightarrow> socklist s = [] \<Longrightarrow> others_ok s \<Longrightarrow> \<not> restarting s \<Longrightarrow> sv_inv s"
  by (simp add: sv_inv_def core_def restarting_def)

lemma listen_sockets:
  "net_create_server_sockets n ais t = Inr (fds, t') \<Longrightarrow>
   (\<forall>fd \<in> set fds. fd_look t' fd = Some Listener) \<and> keeps t t' {fd. fd_look t fd \<noteq> None} \<and> length fds \<le> n"
proof (induction n ais t arbitrary: fds t' rule: net_create_server_sockets.induct)
  case (3 n so bo lo ais t)
  let ?fd = "fd_fresh t" and ?t = "fd_set (fd_fresh t) Listener t"
  show ?case
  proof (cases so)
    case True
    with "3.prems" obtain fds1 where r: "net_create_server_sockets n ais ?t = Inr (fds1, t')" "fds = ?fd # fds1" "bo" "lo"
      by (auto simp: bindE_eq_Inr sys_new_def split: if_splits)
    from "3.IH"(2)[of ?fd ?t] r(1,3,4) True have IH: "\<forall>fd \<in> set fds1. fd_look t' fd = Some Listener" "keeps ?t t' {fd. fd_look ?t fd \<noteq> None}" "length fds1 \<le> n"
      by (auto simp: sys_new_def)
    have 1: "keeps t ?t {fd. fd_look t fd \<noteq> None}" using fdt.look_fresh[of t] by (auto simp: keeps_def fdt.look_put)
    have "{fd. fd_look t fd \<noteq> None} \<subseteq> {fd. fd_look ?t fd \<noteq> None}" by (auto simp: fdt.look_put)
    from keeps_trans[OF 1 IH(2) this] have "keeps t t' {fd. fd_look t fd \<noteq> None}" .
    moreover have "fd_look t' ?fd = Some Listener" using IH(2) by (simp add: keeps_def fdt.look_put)
    ultimately show ?thesis using IH r(2) by simp
  next
    case False
    with "3.IH"(1) "3.prems" show ?thesis by simp
  qed
qed auto

lemma add_eventfds:
  "foldE ppoll_add_eventfd fds s = Inr s' \<Longrightarrow> s' = s\<lparr>ppoll_eventfds := ppoll_eventfds s @ fds\<rparr> \<and> (fds \<noteq> [] \<longrightarrow> length (ppoll_eventfds s @ fds) \<le> 19)"
proof (induction fds arbitrary: s)
  case (Cons fd fds)
  from Cons.prems obtain s1 where s1: "ppoll_add_eventfd fd s = Inr s1" and f: "foldE ppoll_add_eventfd fds s1 = Inr s'" by (auto simp: bindE_eq_Inr)
  have l: "length (ppoll_eventfds s) < 19" "s1 = s\<lparr>ppoll_eventfds := ppoll_eventfds s @ [fd]\<rparr>" using s1 by (auto simp: ppoll_add_eventfd_def bindE_eq_Inr)
  from Cons.IH[OF f] l show ?case by (cases "fds = []") auto
qed simp

text \<open>
  The master satisfies its invariant when it enters its loop, listening or with the one connection it was given.
\<close>

lemma master_start_inv:
  assumes "master_start addrs sock pid (server_start xnbd t pair conn) = Inr s" and "\<And>fd. pair = Some fd \<Longrightarrow> fd_look t fd = Some Proxy_sock"
    and "\<And>fd. conn = Some fd \<Longrightarrow> conn_of t fd \<noteq> None"
  shows "sv_inv s"
proof (cases conn)
  case None
  let ?s = "server_start xnbd t pair conn"
  from assms(1) None obtain ls t' where l: "net_create_server_sockets 20 addrs t = Inr (ls, t')" and e: "foldE ppoll_add_eventfd ls (?s\<lparr>sv_fds := t'\<rparr>) = Inr s"
    by (auto simp: master_start_def server_start_def bindE_eq_Inr)
  have s: "s = ?s\<lparr>sv_fds := t', ppoll_eventfds := ls\<rparr>" using add_eventfds[OF e] by (simp add: server_start_def)
  have "fd_look t' fd = Some Proxy_sock" if "pair = Some fd" for fd using listen_sockets[OF l] assms(2)[OF that] by (auto simp: keeps_def)
  then have "others_ok s" using listen_sockets[OF l] s by (simp add: others_ok_def server_start_def)
  then show ?thesis using s by (intro sv_inv_empty) (simp_all add: server_start_def restarting_def)
next
  case (Some fd)
  let ?s = "server_start xnbd t pair conn"
  have s: "s = invoke_new_session pid fd ?s" using assms(1) Some by (auto simp: master_start_def server_start_def bindE_eq_Inr)
  have c: "conn_of (sv_fds ?s) fd \<noteq> None" using assms(3)[OF Some] by (simp add: server_start_def)
  have core: "core (sv_sessions ?s) [] (sv_fds ?s)" by (simp add: core_def server_start_def)
  note I = core_invoke[OF core c, of pid]
  have e: "sv_sessions ?s = []" "socklist ?s = []" by (simp_all add: server_start_def)
  have "keeps (sv_fds ?s) (sv_fds s) (others ?s)" unfolding s using assms(2) by (intro invoke_keeps) (auto simp: others_def server_start_def)
  then have "others_ok s" using assms(2) s by (auto simp: others_ok_def keeps_def others_def server_start_def)
  with I e s show ?thesis by (auto simp: sv_inv_def restarting_def server_start_def)
qed

text \<open>Twenty listening sockets may be created, but the twentieth cannot be added.\<close>

lemma twenty_addresses_abort:
  assumes "net_create_server_sockets 20 addrs t = Inr (ls, t')" and "length ls = 20"
  shows "\<not> (\<exists>s. master_start addrs sock pid (server_start xnbd t pair None) = Inr s)"
  using assms add_eventfds[of ls "(server_start xnbd t pair None)\<lparr>sv_fds := t'\<rparr>"]
  by (fastforce simp: master_start_def server_start_def)

section \<open>An example\<close>

text \<open>A proxy with one client on connection 9, whose worker has been told to end and has ended.\<close>

definition idle :: sock where
  "idle = \<lparr>rx = [], rx_end = None, tx = [], tx_plan = []\<rparr>"

definition demo_init :: init_env where
  "demo_init = \<lparr>ie_connected = None, ie_junk0 = [], ie_junk2 = [], ie_pair = idle, ie_pid = 0, ie_open = True, ie_fstat_err = None,
     ie_stat = \<lparr>st_mode = S_ISREG, st_size = 8192, st_rdev_major = 0\<rparr>, ie_seek_end = 8192, ie_disk = \<lambda>_. 0, ie_client = idle,
     ie_base = \<lparr>if_open_errno = None, if_fstat_err = None, if_stat = \<lparr>st_mode = S_ISREG, st_size = 0, st_rdev_major = 0\<rparr>, if_seek_end = 0, if_ftruncate = True,
       if_data = \<lambda>_. 0, if_bm = demo_bm\<rparr>, ie_mkstemp = True, ie_trunc = True, ie_taken = [],
     ie_layer = \<lparr>if_open_errno = None, if_fstat_err = None, if_stat = \<lparr>st_mode = S_ISREG, st_size = 0, st_rdev_major = 0\<rparr>, if_seek_end = 0, if_ftruncate = True,
       if_data = \<lambda>_. 0, if_bm = demo_bm\<rparr>\<rparr>"

definition demo_round :: round_in where
  "demo_round = \<lparr>ri_waited = [100], ri_pids = (\<lambda>n. 200 + n),
     ri_shutdown = \<lparr>se_master_fd = idle, se_waitpid = True, se_ds = \<lparr>ds_disksize = 0, image = []\<rparr>, se_sync = True, se_munmap = True, se_unlink = True\<rparr>,
     ri_init = demo_init, ri_snapshot = None, ri_pipe = (\<lambda>_. True), ri_poll = Signals []\<rparr>"

definition demo_server :: server where
  "demo_server = (server_start (blank_info\<lparr>xi_cmd := Cmd_proxy, proxy_diskpath := Some ''/cache'', proxy_pid := 99\<rparr>)
     [(3, Listener), (4, Conn 9), (5, Conn 9), (6, Pipe_write 100), (7, Proxy_sock)] (Some 7) None)
     \<lparr>sv_sessions := [\<lparr>clientfd = 4, pipe_master_fd = 6, ses_pid = 100, notifying = True\<rparr>], ppoll_eventfds := [3], socklist := [5],
      restarting_for_mode_change := True, got_sigchld := True\<rparr>"

lemma demo_inv: "sv_inv demo_server"
  by (simp add: demo_server_def server_start_def sv_inv_def core_def others_ok_def restarting_def sv_conn_def conn_of_def fd_look_def blank_info_def)

lemma demo_fresh: "fresh_pids demo_round demo_server"
  by (auto simp: fresh_pids_def demo_round_def demo_server_def server_start_def inj_def)

lemma demo_shutdown: "xnbd_shutdown (ri_shutdown demo_round) 0 (sv_xnbd demo_server) = Some (Inr ())"
proof -
  have "writable idle" by (simp add: idle_def writable_def)
  from write_all_full[OF this, of "[0]"] obtain d where "write_all idle [0] = Some (Inr d)" by auto
  then show ?thesis by (simp add: xnbd_shutdown_def demo_server_def server_start_def blank_info_def demo_round_def xnbd_proxy_stop_def)
qed

lemma demo_initialize: "\<exists>x. xnbd_initialize (ri_init demo_round) ((sv_xnbd demo_server)\<lparr>xi_cmd := Cmd_target, target_diskpath := proxy_diskpath (sv_xnbd demo_server)\<rparr>) = Inr x"
  by (simp add: xnbd_initialize_def demo_server_def server_start_def demo_round_def demo_init_def xnbd_target_open_disk_def get_disksize_def blank_info_def)

lemma demo_conditions:
  "restarting_for_mode_change demo_server" "got_sigchld demo_server" "\<not> need_exit demo_server" "distinct (ri_waited demo_round)"
  "set (ri_waited demo_round) = ses_pid ` set (sv_sessions demo_server)" "proxy_pid (sv_xnbd demo_server) \<notin> set (ri_waited demo_round)"
  "\<not> got_sigusr1 demo_server" "\<not> got_sigusr2 demo_server" "ri_poll demo_round = Signals []"
  "map (sv_conn demo_server) (socklist demo_server) = [Some 9]"
  by (simp_all add: demo_server_def server_start_def demo_round_def sv_conn_def conn_of_def fd_look_def)


theorem restart_loses_no_client_witness:
  "\<exists>t. sv_step\<^sup>*\<^sup>* demo_server t \<and> sv_cmd t = Cmd_target \<and> (\<exists>fd. fd \<noteq> 4 \<and> (kept t fd 9 \<or>
     (\<exists>u v. sv_step\<^sup>*\<^sup>* demo_server u \<and> kept u fd 9 \<and> sv_step u v \<and> sv_step\<^sup>*\<^sup>* v t \<and> sv_cmd v = Cmd_target \<and> served_on v fd 9)))"
proof -
  obtain t where t: "master_round demo_round demo_server = Some (Inr (True, t))" "sv_cmd t = Cmd_target" 
    using demo_initialize mode_change_round[OF demo_inv demo_fresh demo_conditions(1-6) demo_shutdown _ demo_conditions(7-9)] by blast
  then have st: "sv_step\<^sup>*\<^sup>* demo_server t" using sv_step.Round[OF t(1) demo_fresh] by blast
  let ?ses = "\<lparr>clientfd = 4, pipe_master_fd = 6, ses_pid = 100, notifying = True\<rparr>"
  have "?ses \<in> set (sv_sessions demo_server)" "sv_conn demo_server (clientfd ?ses) = Some 9"
    by (simp_all add: demo_server_def server_start_def sv_conn_def conn_of_def fd_look_def)
  from restart_loses_no_client[OF demo_inv rtranclp.rtrancl_refl this(1) _ this(2) st] t(2) st show ?thesis by auto
qed

end
