(* ===== verification/Mode_Switch.thy ===== *)
theory Mode_Switch
  imports Bgctl_Cache Server_Main
begin

text \<open>
  The switch from proxy to target mode over its three programs: \<open>xnbd-bgctl --switch\<close> checks the bitmap and sends the signal, the
  proxy goes on until its sessions have ended, and the server opens the cache disk as a target.
\<close>

section \<open>Marked blocks stay marked\<close>

definition under_way :: "elem list \<Rightarrow> nat set" where
  "under_way q = (\<Union>p \<in> {p. Priv p \<in> set q}. touched p)"

lemma under_way_simps [simp]:
  "under_way [] = {}" "under_way (Priv p # q) = touched p \<union> under_way q" "under_way (q @ q') = under_way q \<union> under_way q'"
  by (auto simp: under_way_def)

lemma under_way_map: "under_way (map Priv ps) = all_touched ps"
  by (induction ps) auto

lemma marked_eq: "machine_inv R D g \<Longrightarrow> marked (cbitmap (px g)) = valid g \<union> under_way (fwd_rx_queue (px g))"
proof -
  assume "machine_inv R D g"
  then obtain ps where "fwd_rx_queue (px g) = map Priv ps" "marked (cbitmap (px g)) = valid g \<union> all_touched ps" unfolding machine_inv_def by blast
  then show ?thesis by (simp only: under_way_map)
qed

lemma step_marked:
  assumes "machine_inv R D g" and "0 \<le> D" and "D < 9223372036854771712" and "step R g e g'"
  shows "machine_inv R D g' \<and> marked (cbitmap (px g)) \<subseteq> marked (cbitmap (px g'))"
proof (cases e)
  case (Enqueue p)
  with assms(4) have st: "step R g (Enqueue p) g'" by simp
  have "cbitmap (px g') = cbitmap (px g)" using st by (auto elim!: enqueueE)
  with enqueue_inv[OF assms(1) st] show ?thesis by simp
next
  case TxRound
  with assms(4) have st: "step R g TxRound g'" by simp
  note t = tx_inv[OF assms(1-3) st]
  have "valid g' = valid g" using st by (auto elim!: tx_roundE)
  with t marked_eq[OF assms(1)] marked_eq[of R D g'] show ?thesis by auto
next
  case RemoteAnswer
  with assms(4) have st: "step R g RemoteAnswer g'" by simp
  have "cbitmap (px g') = cbitmap (px g)" using st by (auto elim!: remoteE)
  with remote_step_inv[OF assms(1,3) st] show ?thesis by simp
next
  case (RxRound p)
  with assms(4) have st: "step R g (RxRound p) g'" by simp
  note t = rx_inv[OF assms(1-3) st]
  have "valid g' = valid g \<union> touched p" using st by (auto elim!: rx_roundE)
  moreover have "under_way (fwd_rx_queue (px g)) = touched p \<union> under_way (fwd_rx_queue (px g'))" using t by auto
  ultimately show ?thesis using t marked_eq[OF assms(1)] marked_eq[of R D g'] by auto
qed

lemma run_marked:
  "run R g es g' \<Longrightarrow> machine_inv R D g \<Longrightarrow> 0 \<le> D \<Longrightarrow> D < 9223372036854771712 \<Longrightarrow>
   machine_inv R D g' \<and> marked (cbitmap (px g)) \<subseteq> marked (cbitmap (px g'))"
proof (induction rule: run.induct)
  case (run_step g es g' e g'')
  then have i: "machine_inv R D g'" "marked (cbitmap (px g)) \<subseteq> marked (cbitmap (px g'))" by auto
  from step_marked[OF i(1) run_step.prems(2,3) run_step.hyps(2)] i(2) show ?case by blast
qed simp

lemma drained_cache_is_view:
  assumes "machine_inv R D g" and "0 \<le> D" and "D < 9223372036854771712" and "fwd_rx_queue (px g) = []"
    and "{..<unat (get_disk_nblocks D)} \<subseteq> marked (cbitmap (px g))" and "0 \<le> x" and "x < D"
  shows "cache (px g) x = view D R (valid g) (cache (px g)) x"
proof -
  have "marked (cbitmap (px g)) = valid g" using marked_eq[OF assms(1)] assms(4) by simp
  moreover have "nat (x div 4096) < unat (get_disk_nblocks D)"
    using assms(2,3,6,7) div_4096_bounds[of x] div_4096_bounds[of "D + 4095"] by (simp add: nblocks_nat)
  ultimately show ?thesis using assms(5-7) by (auto simp: view_def)
qed

section \<open>The switch\<close>


definition full_machine :: machine where
  "full_machine = demo_machine\<lparr>px := (px demo_machine)\<lparr>cbitmap := [3]\<rparr>, valid := marked [3]\<rparr>"

lemma full_start: "start (\<lambda>_. 7) 8192 full_machine"
  by (simp add: start_def full_machine_def demo_machine_def nblocks_nat writable_def)


end
