(* ===== verification/Bgctl_Main.thy ===== *)
theory Bgctl_Main
  imports Bgctl_Cache
begin

text \<open>
  \<open>main\<close> of \<open>xnbd_bgctl.c\<close>: the status of the proxy as it goes over the control socket, and the commands run on it. The tool reads
  exactly the status that the main thread of the proxy sends.
\<close>

section \<open>The status on the wire\<close>

text \<open>
  The memory of \<open>struct xnbd_proxy_query\<close>: strings in arrays of \<open>PATH_MAX\<close> bytes that were cleared, and four bytes between the last of
  them and the sizes, which are aligned to 8 bytes.
\<close>

definition PATH_MAX :: nat where "PATH_MAX = 4096"

definition char_array :: "string \<Rightarrow> bytes" where
  "char_array s = map of_char s @ replicate (PATH_MAX - length s) 0"

definition c_string :: "bytes \<Rightarrow> string" where
  "c_string b = map (\<lambda>x. char_of (unat x)) (takeWhile (\<lambda>x. x \<noteq> 0) b)"

definition sizeof_query :: nat where "sizeof_query = 16432"

definition enc_query :: "xnbd_proxy_query \<Rightarrow> bytes" where
  "enc_query q = le 8 (word_of_int (q_disksize q) :: u64) @ char_array (q_diskpath q) @ char_array (q_bmpath q) @
     le 4 (word_of_int (q_master_pid q) :: u32) @ char_array (q_rhost q) @ char_array (q_rport q) @ [0, 0, 0, 0] @
     le 8 (q_max_use_buf q) @ le 8 (q_max_use_que q) @ le 8 (q_cur_use_buf q) @ le 8 (q_cur_use_que q)"

definition dec_query :: "bytes \<Rightarrow> xnbd_proxy_query" where
  "dec_query b = \<lparr>q_disksize = sint (un_le (take 8 b) :: u64), q_diskpath = c_string (take 4096 (drop 8 b)), q_bmpath = c_string (take 4096 (drop 4104 b)),
     q_master_pid = sint (un_le (take 4 (drop 8200 b)) :: u32), q_rhost = c_string (take 4096 (drop 8204 b)), q_rport = c_string (take 4096 (drop 12300 b)),
     q_max_use_buf = un_le (take 8 (drop 16400 b)), q_max_use_que = un_le (take 8 (drop 16408 b)),
     q_cur_use_buf = un_le (take 8 (drop 16416 b)), q_cur_use_que = un_le (take 8 (drop 16424 b))\<rparr>"

text \<open>\<open>create_proxy_query\<close>; \<open>junk\<close> is the new buffer of \<open>sizeof_query\<close> bytes, which is not cleared.\<close>

definition create_proxy_query :: "sock option \<Rightarrow> bytes \<Rightarrow> stop + xnbd_proxy_query" where
  "create_proxy_query unix junk =
     bindE (unix_connect_ok unix) (\<lambda>fd.
     bindE (send_cmd fd XNBD_PROXY_CMD_QUERY_STATUS) (\<lambda>fd.
     bindE (net_recv_all_or_abort fd junk 0) (\<lambda>(b, _). Inr (dec_query b))))"

section \<open>The commands\<close>

text \<open>\<open>recv\<close> returns 0 when the proxy has closed the connection; anything else is only warned about.\<close>

definition wait_for_target_mode :: "sock \<Rightarrow> bool" where
  "wait_for_target_mode monitor_fd \<longleftrightarrow> rx monitor_fd = [] \<and> rx_end monitor_fd = None"

record bgctl_env =
  be_unix :: "sock option"
  be_junk :: bytes
  be_junk0 :: bytes
  be_junk2 :: bytes
  be_bitmap :: "string \<Rightarrow> bm_file"
  be_later :: "bitmap \<Rightarrow> nat \<Rightarrow> bitmap"
  be_monitor :: "sock option"
  be_kill :: "int \<Rightarrow> bool"
  be_remote :: "sock option"
  be_shared :: "stop + mem"
  be_registered :: "stop + sock \<times> sock"
  be_fd_sent :: bool
  be_msync :: bool
  be_munmap :: bool

datatype bgctl_result = Reported | Switched int bool | Cached "bg_action list" | Cached2 range_state | Reconnected

definition bgctl_run :: "nat \<Rightarrow> bgctl_env \<Rightarrow> bgctl_opts \<Rightarrow> xnbd_proxy_query \<Rightarrow> bitmap \<Rightarrow> (stop + bgctl_result) option" where
  "bgctl_run fuel e os query bm =
     (case o_cmd os of
        Unknown \<Rightarrow> Some (Inr Reported)
      | Query \<Rightarrow> Some (Inr Reported)
      | Switch \<Rightarrow>
          Some (bindE (bgctl_switch bm (get_disk_nblocks (q_disksize query)) (o_force os) (q_master_pid query) (be_monitor e) (be_kill e (q_master_pid query)))
            (\<lambda>pid. Inr (Switched pid (case be_monitor e of None \<Rightarrow> False | Some fd \<Rightarrow> wait_for_target_mode fd))))
      | Cache_all \<Rightarrow>
          map_option (\<lambda>res. bindE res (\<lambda>(_, as). Inr (Cached as))) (cache_all_actions fuel (be_later e bm) (q_disksize query) (o_at_once os))
      | Cache_all2 \<Rightarrow>
          map_option (\<lambda>res. bindE res (\<lambda>st. Inr (Cached2 st)))
            (cache_all_blocks_with_dedicated_connection fuel (be_later e bm) (q_disksize query) (be_remote e) (be_junk0 e) (be_shared e) (be_registered e))
      | Reconnect \<Rightarrow>
          Some (bindE (reconnect (be_unix e) (be_remote e) (map_option (map of_char) (o_exportname os)) (be_junk0 e) (be_junk2 e) (be_fd_sent e))
            (\<lambda>_. Inr Reconnected)))"

text \<open>The bitmap of a disk without blocks is NULL, which is never accessed.\<close>

definition bgctl_main :: "nat \<Rightarrow> bgctl_env \<Rightarrow> (char \<times> string) list \<Rightarrow> string list \<Rightarrow> (bgctl_end + bgctl_result) option" where
  "bgctl_main fuel e opts argv =
     (case bgctl_args opts argv of
        Inl x \<Rightarrow> Some (Inl x)
      | Inr (os, _, _) \<Rightarrow>
          (case bindE (create_proxy_query (be_unix e) (be_junk e)) (\<lambda>query.
                bindE (bitmap_open_file (be_bitmap e (q_bmpath query)) (get_disk_nblocks (q_disksize query)) True False) (\<lambda>(bm, _). Inr (query, bm))) of
             Inl x \<Rightarrow> Some (Inl (Stopped x))
           | Inr (query, bm) \<Rightarrow>
               let bits = (case bm of None \<Rightarrow> [] | Some (b, _) \<Rightarrow> b) in
               map_option (\<lambda>res. case bindE res (\<lambda>r. bindE (bitmap_close_file (be_msync e) (be_munmap e) (map_option fst bm) (case bm of None \<Rightarrow> 0 | Some (_, n) \<Rightarrow> n)) (\<lambda>_. Inr r)) of
                   Inl x \<Rightarrow> Inl (Stopped x) | Inr r \<Rightarrow> Inr r)
                 (case bitmap_popcount bits (get_disk_nblocks (q_disksize query)) of Inl x \<Rightarrow> Some (Inl x) | Inr _ \<Rightarrow> bgctl_run fuel e os query bits)))"

section \<open>The tool reads what the proxy sends\<close>

definition query_ok :: "xnbd_proxy_query \<Rightarrow> bool" where
  "query_ok q \<longleftrightarrow> 0 \<le> q_disksize q \<and> q_disksize q < 9223372036854775808 \<and> - 2147483648 \<le> q_master_pid q \<and> q_master_pid q < 2147483648 \<and>
     (\<forall>s \<in> {q_diskpath q, q_bmpath q, q_rhost q, q_rport q}. length s < PATH_MAX \<and> CHR 0x00 \<notin> set s)"

lemma length_char_array: "length s \<le> PATH_MAX \<Longrightarrow> length (char_array s) = 4096"
  by (simp add: char_array_def PATH_MAX_def)

lemma byte_of_char: "of_char c = (0 :: u8) \<longleftrightarrow> c = CHR 0x00" "char_of (unat (of_char c :: u8)) = c"
proof -
  have "(of_char c :: u8) = of_nat (of_char c)" by (simp add: of_char_def)
  moreover have "(of_char c :: nat) < 256" by (rule nat_of_char_less_256)
  ultimately have u: "unat (of_char c :: u8) = of_char c" by (simp add: unat_of_nat)
  then show "char_of (unat (of_char c :: u8)) = c" by simp
  have "(of_char c = (0 :: u8)) \<longleftrightarrow> (of_char c :: nat) = 0" by (simp only: u[symmetric] unsigned_eq_0_iff)
  also have "\<dots> \<longleftrightarrow> (of_char c :: nat) = of_char (CHR 0x00)" by simp
  also have "\<dots> \<longleftrightarrow> c = CHR 0x00" by (rule of_char_eq_iff)
  finally show "of_char c = (0 :: u8) \<longleftrightarrow> c = CHR 0x00" .
qed

lemma c_string_array: "length s < PATH_MAX \<Longrightarrow> CHR 0x00 \<notin> set s \<Longrightarrow> c_string (char_array s) = s"
proof -
  assume s: "length s < PATH_MAX" "CHR 0x00 \<notin> set s"
  then have "takeWhile (\<lambda>x. x \<noteq> 0) (map of_char s @ replicate (PATH_MAX - length s) (0 :: u8)) = map of_char s"
    by (subst takeWhile_append2) (auto simp: byte_of_char)
  then show ?thesis by (simp add: c_string_def char_array_def byte_of_char comp_def)
qed

lemma length_enc_query: "query_ok q \<Longrightarrow> length (enc_query q) = sizeof_query"
  by (simp add: enc_query_def query_ok_def length_char_array sizeof_query_def less_imp_le)

lemma dec_enc_query:
  assumes "query_ok q"
  shows "dec_query (enc_query q) = q"
proof -
  have l: "length (char_array (q_diskpath q)) = 4096" "length (char_array (q_bmpath q)) = 4096" "length (char_array (q_rhost q)) = 4096"
    "length (char_array (q_rport q)) = 4096" using assms by (simp_all add: query_ok_def length_char_array)
  have "sint (word_of_int (q_disksize q) :: u64) = q_disksize q" using assms by (intro sint_of_small) (simp_all add: query_ok_def)
  moreover have "sint (word_of_int (q_master_pid q) :: u32) = q_master_pid q"
    using assms by (simp add: query_ok_def signed_of_int signed_take_bit_int_eq_self)
  ultimately show ?thesis using assms by (simp add: dec_query_def enc_query_def l query_ok_def c_string_array)
qed

lemma net_recv_all_or_abort_full:
  assumes "wf_sock s" and "length buf < 2147483648" and "length buf \<le> length (pending s)" and "buf \<noteq> []"
  shows "\<exists>s'. net_recv_all_or_abort s buf e = Inr (take (length buf) (pending s), s', e)"
proof -
  obtain segs where "net_iov_all True (iov1 buf) 0 (mem_of buf) s e =
      (int (length buf), scatter (mem_of buf) (iov1 buf) (pending s), s\<lparr>rx := segs\<rparr>, e)"
    using net_iov_all_read_full[of "iov1 buf" s 0 "mem_of buf" e] assms by auto
  then show ?thesis using assms
    by (intro exI[of _ "s\<lparr>rx := segs\<rparr>"]) (simp add: net_recv_all_or_abort_def net_recv_all_def check_fin_def scatter_iov1_long int32_of_nat)
qed

text \<open>
  Over the control socket the tool gets the status of the proxy: the size of the disk, the paths, the process that
  SIGUSR2 is for, and the usage.
\<close>

lemma query_reaches_tool:
  assumes "writable fd" and "wf_sock fd" and "pending fd = enc_query q @ rest" and "query_ok q" and "length junk = sizeof_query"
  shows "create_proxy_query (Some fd) junk = Inr q"
proof -
  obtain s where s: "send_cmd fd XNBD_PROXY_CMD_QUERY_STATUS = Inr s" "wf_sock s" "pending s = enc_query q @ rest"
    using net_send_all_or_abort_full[OF assms(1), of "le 4 (XNBD_PROXY_CMD_QUERY_STATUS :: u32)" 0] assms(2,3)
    by (auto simp: send_cmd_def rx_part_def wf_sock_def pending_def)
  have n: "length junk = length (enc_query q)" "length junk = 16432" using length_enc_query[OF assms(4)] assms(5) by (simp_all add: sizeof_query_def)
  then obtain s' where "net_recv_all_or_abort s junk 0 = Inr (enc_query q, s', 0)"
    using net_recv_all_or_abort_full[OF s(2), of junk 0] s(3) by fastforce
  then show ?thesis using s(1) by (simp add: create_proxy_query_def unix_connect_ok_def dec_enc_query[OF assms(4)])
qed

lemma switch_options:
  "bgctl_args [(CHR ''s'', [])] [unix_path] =
     Inr (\<lparr>o_cmd = Switch, o_exportname = None, o_progress = False, o_force = False, o_at_once = XNBD_BGCTL_DEFAULT_BLOCKS_AT_ONCE\<rparr>, unix_path, None)"
  by (simp add: bgctl_args_def bgctl_option_def set_cmd_def)

lemma switch_run:
  assumes "bgctl_main fuel e [(CHR ''s'', [])] [unix_path] = Some (Inr r)" and "create_proxy_query (be_unix e) (be_junk e) = Inr q"
  shows "\<exists>bm res after ended. bitmap_open_file (be_bitmap e (q_bmpath q)) (get_disk_nblocks (q_disksize q)) True False = Inr (res, after) \<and>
    bm = (case res of None \<Rightarrow> [] | Some (b, _) \<Rightarrow> b) \<and> r = Switched (q_master_pid q) ended \<and>
    bgctl_switch bm (get_disk_nblocks (q_disksize q)) False (q_master_pid q) (be_monitor e) (be_kill e (q_master_pid q)) = Inr (q_master_pid q)"
proof -
  obtain res after where o: "bitmap_open_file (be_bitmap e (q_bmpath q)) (get_disk_nblocks (q_disksize q)) True False = Inr (res, after)"
    using assms by (auto simp: bgctl_main_def switch_options bindE_def split: sum.splits)
  let ?bm = "case res of None \<Rightarrow> [] | Some (b, _) \<Rightarrow> b"
  obtain p where p: "bgctl_switch ?bm (get_disk_nblocks (q_disksize q)) False (q_master_pid q) (be_monitor e) (be_kill e (q_master_pid q)) = Inr p"
      and r: "\<exists>ended. r = Switched p ended"
    using assms o by (auto simp: bgctl_main_def switch_options bgctl_run_def bindE_def Let_def split: sum.splits)
  have "p = q_master_pid q" using p by (auto simp: bgctl_switch_def bindE_eq_Inr split: if_splits)
  with o p r show ?thesis by blast
qed

text \<open>
  C8. Run against a proxy, \<open>xnbd-bgctl --switch\<close> sends SIGUSR2 to the process that the proxy names in its status, and only if the
  bitmap file that it names marks all blocks of its disk.
\<close>

theorem switch_signals_named_process:
  assumes "be_unix e = Some fd" and "writable fd" and "wf_sock fd" and "pending fd = enc_query (query_status i m) @ rest"
    and "query_ok (query_status i m)" and "length (be_junk e) = sizeof_query" and "0 < disksize (prx (srv m))"
    and "bgctl_main fuel e [(CHR ''s'', [])] [unix_path] = Some (Inr r)"
  shows "\<exists>ended bits. r = Switched (mi_ppid i) ended \<and> be_kill e (mi_ppid i) \<and>
    contents (be_bitmap e (q_bmpath (query_status i m))) = Some bits \<and> {..<unat (get_disk_nblocks (disksize (prx (srv m))))} \<subseteq> marked (words_of bits)"
proof -
  let ?q = "query_status i m" and ?n = "get_disk_nblocks (disksize (prx (srv m)))"
  have q: "q_disksize ?q = disksize (prx (srv m))" "q_master_pid ?q = mi_ppid i" by (simp_all add: query_status_def)
  have d: "disksize (prx (srv m)) < 9223372036854775808" using assms(5) q by (simp add: query_ok_def)
  have "create_proxy_query (be_unix e) (be_junk e) = Inr ?q" using query_reaches_tool[OF assms(2-6)] assms(1) by simp
  from switch_run[OF assms(8) this] q obtain res after ended where o: "bitmap_open_file (be_bitmap e (q_bmpath ?q)) ?n True False = Inr (res, after)"
    and r: "r = Switched (mi_ppid i) ended"
    and s: "bgctl_switch (case res of None \<Rightarrow> [] | Some (b, _) \<Rightarrow> b) ?n False (mi_ppid i) (be_monitor e) (be_kill e (mi_ppid i)) = Inr (mi_ppid i)" by auto
  have n: "unat ?n \<le> 18446744073709551552" "?n \<noteq> 0" using nblocks_nat[of "disksize (prx (srv m))"] nblocks_nonzero assms(7) d by auto
  from bitmap_open_file_ok[OF n o] obtain bm len bs where b: "res = Some (bm, len)" "unat ?n \<le> 64 * length bm" "words_of bs = bm"
    "contents (be_bitmap e (q_bmpath ?q)) = Some bs" by (auto split: if_splits)
  have "be_kill e (mi_ppid i)" using s by (auto simp: bgctl_switch_def bindE_eq_Inr split: if_splits)
  with switch_guarded[OF s] b r show ?thesis by auto
qed

definition demo_status :: xnbd_proxy_query where
  "demo_status = query_status demo_in demo_main"

lemma demo_status_ok: "query_ok demo_status"
  by (simp add: query_ok_def demo_status_def query_status_def demo_in_def demo_main_def demo_machine_def g_strlcpy_def PATH_MAX_def)

definition demo_fd :: sock where
  "demo_fd = \<lparr>rx = [enc_query demo_status], rx_end = None, tx = [], tx_plan = []\<rparr>"

definition demo_bgctl :: bgctl_env where
  "demo_bgctl = \<lparr>be_unix = Some demo_fd, be_junk = replicate sizeof_query 0, be_junk0 = [], be_junk2 = [],
     be_bitmap = (\<lambda>_. \<lparr>contents = Some [3, 0, 0, 0, 0, 0, 0, 0], stat_errno = 0, open_ok = True, ftruncate_ok = True, mmap_ok = True, msync_ok = True\<rparr>),
     be_later = (\<lambda>bm _. bm), be_monitor = Some \<lparr>rx = [], rx_end = None, tx = [], tx_plan = []\<rparr>, be_kill = (\<lambda>_. True), be_remote = None,
     be_shared = Inl Segv, be_registered = Inl Segv, be_fd_sent = True, be_msync = True, be_munmap = True\<rparr>"

lemma demo_fd_ok: "writable demo_fd" "wf_sock demo_fd" "pending demo_fd = enc_query demo_status @ []"
  using length_enc_query[OF demo_status_ok] by (auto simp: demo_fd_def writable_def wf_sock_def pending_def sizeof_query_def)

lemma demo_query: "create_proxy_query (be_unix demo_bgctl) (be_junk demo_bgctl) = Inr demo_status"
  using query_reaches_tool[OF demo_fd_ok demo_status_ok, of "replicate sizeof_query 0"] by (simp add: demo_bgctl_def)

lemma demo_open: "bitmap_open_file (be_bitmap demo_bgctl p) 2 True False = Inr (Some ([3], 8), Some [3, 0, 0, 0, 0, 0, 0, 0])"
proof -
  have "words_of [3, 0, 0, 0, 0, 0, 0, 0] = [3 :: u64]" by code_simp
  then show ?thesis by (simp add: demo_bgctl_def bitmap_open_file_def BITS_TO_LONGS_def)
qed

lemma demo_switched: "\<exists>r. bgctl_main 0 demo_bgctl [(CHR ''s'', [])] [''ctl''] = Some (Inr r)"
proof -
  have n: "get_disk_nblocks (q_disksize demo_status) = 2" by (simp add: demo_status_def query_status_def demo_main_def demo_machine_def get_disk_nblocks_def)
  have p: "bitmap_popcount [3] 2 = Inr 2" by code_simp
  obtain s where "send_cmd \<lparr>rx = [], rx_end = None, tx = [], tx_plan = []\<rparr> XNBD_PROXY_CMD_DETECT_SWITCH = Inr s"
    using net_send_all_or_abort_full[of "\<lparr>rx = [], rx_end = None, tx = [], tx_plan = []\<rparr>" "le 4 (XNBD_PROXY_CMD_DETECT_SWITCH :: u32)" 0]
    by (auto simp: send_cmd_def writable_def)
  then have s: "bgctl_switch [3] 2 False (q_master_pid demo_status) (be_monitor demo_bgctl) (be_kill demo_bgctl (q_master_pid demo_status)) = Inr (q_master_pid demo_status)"
    by (simp add: bgctl_switch_def p demo_bgctl_def unix_connect_ok_def)
  have c: "bitmap_close_file (be_msync demo_bgctl) (be_munmap demo_bgctl) (Some [3]) 8 = Inr True"
    by (simp add: bitmap_close_file_def bitmap_sync_file_def demo_bgctl_def)
  show ?thesis by (simp add: bgctl_main_def switch_options demo_query n demo_open p bgctl_run_def s c)
qed

theorem switch_signals_named_process_witness:
  "\<exists>ended. bgctl_main 0 demo_bgctl [(CHR ''s'', [])] [''ctl''] = Some (Inr (Switched (mi_ppid demo_in) ended))"
proof -
  obtain r where r: "bgctl_main 0 demo_bgctl [(CHR ''s'', [])] [''ctl''] = Some (Inr r)" using demo_switched by blast
  have e: "be_unix demo_bgctl = Some demo_fd" "length (be_junk demo_bgctl) = sizeof_query" by (simp_all add: demo_bgctl_def)
  have d: "0 < disksize (prx (srv demo_main))" by (simp add: demo_main_def demo_machine_def)
  from switch_signals_named_process[OF e(1) demo_fd_ok(1,2) demo_fd_ok(3)[unfolded demo_status_def] demo_status_ok[unfolded demo_status_def] e(2) d r] r
  show ?thesis by auto
qed

end
