(* ===== verification/Client.thy ===== *)
theory Client
  imports Nbd Fd_Table
begin

text \<open>
  \<open>xnbd_client.c\<close>: the program that connects a block device of the Linux kernel to a server. It tries a list of servers again
  and again, hands the negotiated connection to the device with \<open>ioctl\<close> calls, and stays in \<open>NBD_DO_IT\<close> until the
  connection ends. The kernel is a parameter: what resolving, connecting, \<open>ioctl\<close> and the file system answer.
\<close>

section \<open>Connecting\<close>

text \<open>
  \<open>net_connect\<close> of \<open>lib/net.c\<close>. An address is whether \<open>socket()\<close> works for it and the connected socket, \<^const>\<open>None\<close> if \<open>connect()\<close>
  fails; without a list \<open>getaddrinfo()\<close> has failed. The number \<open>c\<close> names the connection in the descriptor table.
\<close>

type_synonym addrinfo = "bool \<times> sock option"

fun try_addresses :: "nat \<Rightarrow> addrinfo list \<Rightarrow> fdtab \<Rightarrow> (nat \<times> sock) option \<times> fdtab" where
  "try_addresses c [] t = (None, t)"
| "try_addresses c ((socket_ok, conn) # ais) t =
     (if \<not> socket_ok then try_addresses c ais t
      else case sys_new (Conn c) t of (sockfd, t1) \<Rightarrow>
        (case conn of None \<Rightarrow> try_addresses c ais (sys_close sockfd t1) | Some s \<Rightarrow> (Some (sockfd, s), t1)))"

definition net_connect :: "nat \<Rightarrow> addrinfo list option \<Rightarrow> fdtab \<Rightarrow> (nat \<times> sock) option \<times> fdtab" where
  "net_connect c ai_head t = (case ai_head of None \<Rightarrow> (None, t) | Some ais \<Rightarrow> try_addresses c ais t)"

record dst_info =
  dst_host :: string
  dst_port :: string

definition dst_add :: "string \<Rightarrow> string \<Rightarrow> dst_info list \<Rightarrow> dst_info list" where
  "dst_add host port dst_list = dst_list @ [\<lparr>dst_host = host, dst_port = port\<rparr>]"

text \<open>
  What the network answers in each round at each position of the list, and the contents of the buffers of the negotiation
  before it.
\<close>

record client_env =
  ce_addrs :: "nat \<Rightarrow> nat \<Rightarrow> dst_info \<Rightarrow> addrinfo list option"
  ce_junk0 :: bytes
  ce_junk2 :: bytes

definition negotiate_client :: "client_env \<Rightarrow> bytes option \<Rightarrow> sock \<Rightarrow> int \<times> (int \<times> u32) option \<times> sock" where
  "negotiate_client e exportname s =
     (case exportname of
        Some name \<Rightarrow> nbd_negotiate_v2_client_side s (of_nat (length name)) name (ce_junk0 e) (ce_junk2 e)
      | None \<Rightarrow> nbd_negotiate_v1_client_side s (ce_junk0 e))"

text \<open>One pass over the list of servers; a connection whose negotiation fails is not closed.\<close>

type_synonym session = "nat \<times> sock \<times> (int \<times> u32) option"

fun try_servers :: "client_env \<Rightarrow> bytes option \<Rightarrow> nat \<Rightarrow> nat \<Rightarrow> dst_info list \<Rightarrow> fdtab \<Rightarrow> session option \<times> fdtab" where
  "try_servers e exportname r i [] t = (None, t)"
| "try_servers e exportname r i (dst # rest) t =
     (case net_connect i (ce_addrs e r i dst) t of
        (None, t1) \<Rightarrow> try_servers e exportname r (Suc i) rest t1
      | (Some (sockfd, s), t1) \<Rightarrow>
          (case negotiate_client e exportname s of (ret, res, s') \<Rightarrow>
             if ret < 0 then try_servers e exportname r (Suc i) rest t1
             else (Some (sockfd, s', res), t1)))"

text \<open>
  The loop of \<open>xnbd_connect_to_remote\<close>; \<open>retry\<close> counts the rounds. With \<open>max_retry\<close> 0 there is no end of them: not to return
  is \<^const>\<open>None\<close>.
\<close>

partial_function (option) connect_loop ::
  "client_env \<Rightarrow> bytes option \<Rightarrow> dst_info list \<Rightarrow> int \<Rightarrow> nat \<Rightarrow> fdtab \<Rightarrow> (stop + session \<times> fdtab) option" where
  "connect_loop e exportname dst_list max_retry retry t =
     (case try_servers e exportname retry 0 dst_list t of
        (Some c, t1) \<Rightarrow> Some (Inr (c, t1))
      | (None, t1) \<Rightarrow>
          if max_retry = 0 \<or> int retry < max_retry then connect_loop e exportname dst_list max_retry (Suc retry) t1
          else Some (Inl (Exit 1)))"

definition xnbd_connect_to_remote ::
  "client_env \<Rightarrow> bool \<Rightarrow> dst_info list \<Rightarrow> int \<Rightarrow> bytes option \<Rightarrow> fdtab \<Rightarrow> (stop + session \<times> fdtab) option" where
  "xnbd_connect_to_remote e keep dst_list max_retry exportname t =
     map_option (map_sum id (\<lambda>((sockfd, s, res), t'). ((sockfd, s, res), if keep then t' else sys_close sockfd t')))
       (connect_loop e exportname dst_list max_retry 0 t)"

text \<open>\<open>xnbd_report_target_size\<close>: the number that is printed.\<close>

definition xnbd_report_target_size :: "client_env \<Rightarrow> dst_info list \<Rightarrow> int \<Rightarrow> bytes option \<Rightarrow> fdtab \<Rightarrow> (stop + int) option" where
  "xnbd_report_target_size e dst_list max_retry exportname t =
     map_option (\<lambda>res. bindE res (\<lambda>((_, _, res), _).
         case res of None \<Rightarrow> Inl (Assert ''disksize >= 0'') | Some (disksize, _) \<Rightarrow> bindE (assertE ''disksize >= 0'' (disksize \<ge> 0)) (\<lambda>_. Inr disksize)))
       (xnbd_connect_to_remote e False dst_list max_retry exportname t)"

section \<open>The device\<close>

text \<open>The file system as the client asks for it, through GLib.\<close>

record client_fs =
  file_read_link :: "string \<Rightarrow> string option"
  path_is_absolute :: "string \<Rightarrow> bool"
  path_get_dirname :: "string \<Rightarrow> string"
  build_filename :: "string \<Rightarrow> string \<Rightarrow> string"
  file_is_dir :: "string \<Rightarrow> bool"
  file_exists :: "string \<Rightarrow> bool"
  file_get_contents :: "string \<Rightarrow> string option"
  sc_symloop_max :: int

definition determine_SYMLOOP_MAX :: "int \<Rightarrow> u64" where
  "determine_SYMLOOP_MAX maximum_symlink_steps = (if maximum_symlink_steps < 1 then - 1 else word_of_int maximum_symlink_steps)"

text \<open>The loop of \<open>follow_symlink_chain\<close>; \<open>steps_taken\<close> is an \<open>unsigned int\<close>, the limit an \<open>unsigned long\<close>.\<close>

partial_function (option) follow_links :: "client_fs \<Rightarrow> u64 \<Rightarrow> string \<Rightarrow> u32 \<Rightarrow> (stop + string) option" where
  "follow_links fs max_steps resolved steps_taken =
     (case file_read_link fs resolved of
        None \<Rightarrow> Some (Inr resolved)
      | Some points_to \<Rightarrow>
          if ucast (steps_taken + 1) > max_steps then Some (Inl (Err ''ELOOP''))
          else follow_links fs max_steps
                 (if path_is_absolute fs points_to then points_to else build_filename fs (path_get_dirname fs resolved) points_to)
                 (steps_taken + 1))"

definition follow_symlink_chain :: "client_fs \<Rightarrow> string \<Rightarrow> (stop + string) option" where
  "follow_symlink_chain fs devname = follow_links fs (determine_SYMLOOP_MAX (sc_symloop_max fs)) devname 0"

datatype pid_status = PID_FOUND int | PID_ERROR | PID_DEVICE_UNUSED

text \<open>\<open>g_strchomp\<close> only drops white space behind the number, which \<open>atoi\<close> does not look at.\<close>

definition nbd_pid_of :: "client_fs \<Rightarrow> string \<Rightarrow> pid_status" where
  "nbd_pid_of fs devname_resolved =
     (if take 8 devname_resolved \<noteq> ''/dev/nbd'' then PID_ERROR
      else let device_name_only = drop 5 devname_resolved; pidpath = ''/sys/block/'' @ device_name_only @ ''/pid'' in
        if \<not> file_is_dir fs (''/sys/block/'' @ device_name_only) then PID_ERROR
        else if \<not> file_exists fs pidpath then PID_DEVICE_UNUSED
        else let pid = (case file_get_contents fs pidpath of None \<Rightarrow> - 1 | Some buf \<Rightarrow> atoi buf) in
          if pid < 1 then PID_ERROR else PID_FOUND pid)"

definition get_nbd_pid :: "client_fs \<Rightarrow> string \<Rightarrow> (stop + pid_status) option" where
  "get_nbd_pid fs devname = map_option (\<lambda>res. bindE res (\<lambda>name. Inr (nbd_pid_of fs name))) (follow_symlink_chain fs devname)"

text \<open>The requests to the driver, and what else the client does to the system.\<close>

datatype client_action =
    SET_SOCK nat | SET_BLKSIZE u64 | SET_SIZE_BLOCKS u64 | BLKROSET | SET_FLAGS u32 | SET_TIMEOUT u32
  | DO_IT | CLEAR_QUE | CLEAR_SOCK | DISCONNECT | RRPART
  | Kill_USR1 int | Reboot | Spawn string

record client_kern =
  ck_open :: bool
  ck_ret :: "client_action \<Rightarrow> int"
  ck_usr1 :: bool
  ck_polls :: "(bool \<times> pid_status) list"

text \<open>A request that must succeed is added to those made so far.\<close>

definition ioctl_or_err :: "client_kern \<Rightarrow> string \<Rightarrow> client_action \<Rightarrow> client_action list \<Rightarrow> stop + client_action list" where
  "ioctl_or_err k msg a done = (if ck_ret k a < 0 then Inl (Err msg) else Inr (done @ [a]))"

definition NBD_MAX_NBLOCKS :: u64 where
  "NBD_MAX_NBLOCKS = drop_bit 1 (not 0)"

text \<open>A block size of 0 is a division by zero, which ends the process with a signal.\<close>

definition nbddev_set_sizes :: "client_kern \<Rightarrow> u64 \<Rightarrow> u64 \<Rightarrow> client_action list \<Rightarrow> stop + client_action list" where
  "nbddev_set_sizes k disksize blocksize done =
     (if blocksize = 0 then Inl (Err ''SIGFPE'')
      else if disksize div blocksize > NBD_MAX_NBLOCKS then Inl (Err ''Disksize too large'')
      else bindE (ioctl_or_err k ''NBD_SET_BLKSIZE'' (SET_BLKSIZE blocksize) done) (\<lambda>done.
        ioctl_or_err k ''NBD_SET_SIZE_BLOCKS'' (SET_SIZE_BLOCKS (disksize div blocksize)) done))"

definition nbddev_set_readonly :: "client_kern \<Rightarrow> client_action list \<Rightarrow> stop + client_action list" where
  "nbddev_set_readonly k done = ioctl_or_err k ''BLKROSET'' BLKROSET done"

definition nbddev_set_timeout :: "client_kern \<Rightarrow> u32 \<Rightarrow> client_action list \<Rightarrow> stop + client_action list" where
  "nbddev_set_timeout k timeout done =
     (if timeout = 0 then Inr done else ioctl_or_err k ''NBD_SET_TIMEOUT'' (SET_TIMEOUT timeout) done)"

definition nbddev_set_sockfd :: "client_kern \<Rightarrow> nat \<Rightarrow> client_action list \<Rightarrow> stop + client_action list" where
  "nbddev_set_sockfd k sockfd done = ioctl_or_err k ''NBD_SET_SOCK'' (SET_SOCK sockfd) done"

text \<open>\<open>xnbd_disconnect\<close>: the failure of \<open>kill\<close> is only warned about.\<close>

definition xnbd_disconnect :: "client_kern \<Rightarrow> client_fs \<Rightarrow> string \<Rightarrow> (stop + client_action list) option" where
  "xnbd_disconnect k fs devpath =
     map_option (\<lambda>res. bindE res (\<lambda>status.
       case status of
         PID_FOUND pid \<Rightarrow>
           if \<not> ck_open k then Inl (Exit 1)
           else bindE (ioctl_or_err k ''NBD_CLEAR_QUE'' CLEAR_QUE [Kill_USR1 pid]) (\<lambda>done.
                bindE (ioctl_or_err k ''NBD_DISCONNECT'' DISCONNECT done) (\<lambda>done.
                  ioctl_or_err k ''NBD_CLEAR_SOCK'' CLEAR_SOCK done))
       | _ \<Rightarrow> Inl (Exit 1))) (get_nbd_pid fs devpath)"

text \<open>The device is set up with what the server told.\<close>

definition setup_device :: "client_kern \<Rightarrow> u64 \<Rightarrow> u32 \<Rightarrow> nat \<Rightarrow> int \<Rightarrow> u32 \<Rightarrow> stop + client_action list" where
  "setup_device k blocksize timeout sockfd disksize flags =
     (if \<not> ck_open k then Inl (Exit 1)
      else bindE (nbddev_set_sockfd k sockfd []) (\<lambda>done.
           bindE (nbddev_set_sizes k (word_of_int disksize) blocksize done) (\<lambda>done.
           bindE (if and flags NBD_FLAG_READ_ONLY \<noteq> 0 then nbddev_set_readonly k done else Inr done) (\<lambda>done.
           bindE (if and flags NBD_FLAG_HAS_FLAGS \<noteq> 0
                  then if ck_ret k (SET_FLAGS flags) \<noteq> 0 then Inl (Err ''NBD_SET_FLAGS'') else Inr (done @ [SET_FLAGS flags])
                  else Inr done) (\<lambda>done.
             nbddev_set_timeout k timeout done)))))"

datatype recovery = No_recovery | Recovery_command string | Recovery_reboot

text \<open>
  The child: it serves the device until \<open>NBD_DO_IT\<close> returns. The command of the internal reboot is the string
  \<open>reboot now\<close>, which is run when the system call fails. The results of the last two requests are not looked at.
\<close>

definition recover :: "client_kern \<Rightarrow> recovery \<Rightarrow> client_action list" where
  "recover k rec =
     (case rec of
        No_recovery \<Rightarrow> []
      | Recovery_command cmd \<Rightarrow> [Spawn cmd]
      | Recovery_reboot \<Rightarrow> Reboot # (if ck_ret k Reboot < 0 then [Spawn ''reboot now''] else []))"

definition client_child :: "client_kern \<Rightarrow> recovery \<Rightarrow> int \<times> client_action list" where
  "client_child k rec =
     (if ck_ret k DO_IT < 0 then
        if ck_usr1 k then (0, [DO_IT, CLEAR_QUE, CLEAR_SOCK])
        else (- 2, DO_IT # recover k rec @ [CLEAR_QUE, CLEAR_SOCK])
      else (- 3, [DO_IT, CLEAR_QUE, CLEAR_SOCK]))"

text \<open>The parent: in each second it looks for SIGCHLD and for the process that serves the device; then it has the partition table read.\<close>

fun client_parent :: "(bool \<times> pid_status) list \<Rightarrow> (stop \<times> client_action list) option" where
  "client_parent [] = None"
| "client_parent ((sigchld, status) # polls) =
     (if sigchld then Some (Err ''xnbd-client (child) was terminated due to an internal error'', [])
      else case status of PID_FOUND _ \<Rightarrow> Some (Exit 0, [RRPART]) | _ \<Rightarrow> client_parent polls)"

text \<open>
  \<open>xnbd_setup_client\<close>: how the parent ends (\<^const>\<open>None\<close> while it waits), the result of the child, and the
  requests of set-up and child in order. A negotiation that succeeds has a size (\<open>negotiated_size\<close> below).
\<close>

definition xnbd_setup_client ::
  "client_kern \<Rightarrow> client_fs \<Rightarrow> client_env \<Rightarrow> string \<Rightarrow> u64 \<Rightarrow> u32 \<Rightarrow> dst_info list \<Rightarrow> int \<Rightarrow> recovery \<Rightarrow> bytes option \<Rightarrow> fdtab \<Rightarrow>
   (stop + (stop \<times> client_action list) option \<times> int \<times> client_action list) option" where
  "xnbd_setup_client k fs e devpath blocksize timeout dst_list max_retry rec exportname t =
     (case get_nbd_pid fs devpath of
        None \<Rightarrow> None
      | Some (Inl x) \<Rightarrow> Some (Inl x)
      | Some (Inr (PID_FOUND _)) \<Rightarrow> Some (Inl (Exit 1))
      | Some (Inr _) \<Rightarrow>
          map_option (\<lambda>res. bindE res (\<lambda>((sockfd, s, res), t').
              case res of
                None \<Rightarrow> Inl (Err ''no size'')
              | Some (disksize, flags) \<Rightarrow>
                  bindE (setup_device k blocksize timeout sockfd disksize flags) (\<lambda>done.
                    case client_child k rec of (retcode, acts) \<Rightarrow> Inr (client_parent (ck_polls k), retcode, done @ acts))))
            (xnbd_connect_to_remote e True dst_list max_retry exportname t))"

definition flush_device :: "bool \<Rightarrow> bool \<Rightarrow> stop + unit" where
  "flush_device open_ok fsync_ok = (if \<not> open_ok then Inl (Exit 1) else if \<not> fsync_ok then Inl (Err ''flush'') else Inr ())"

section \<open>The command line\<close>

datatype client_cmd = Cl_unknown | Cl_connect | Cl_disconnect | Cl_check | Cl_help | Cl_getsize64 | Cl_flush

record client_opts =
  co_cmd :: client_cmd
  co_devpath :: "string option"
  co_timeout :: u32
  co_blocksize :: u64
  co_max_retry :: int
  co_recovery :: recovery
  co_exportname :: "string option"

datatype client_end = Client_help "string option" | Client_stop stop

definition client_defaults :: client_opts where
  "client_defaults = \<lparr>co_cmd = Cl_unknown, co_devpath = None, co_timeout = 0, co_blocksize = 1024, co_max_retry = 1,
     co_recovery = No_recovery, co_exportname = None\<rparr>"

definition client_mode :: "client_cmd \<Rightarrow> client_opts \<Rightarrow> client_end + client_opts" where
  "client_mode cmd os = (if co_cmd os \<noteq> Cl_unknown then Inl (Client_help (Some ''specify one mode'')) else Inr (os\<lparr>co_cmd := cmd\<rparr>))"

text \<open>One option, its letter with \<open>optarg\<close>; \<open>s\<close> and \<open>f\<close> only come from their long names.\<close>

definition client_option :: "char \<times> string option \<Rightarrow> client_opts \<Rightarrow> client_end + client_opts" where
  "client_option = (\<lambda>(c, optarg) os.
     let need = (\<lambda>f. case optarg of None \<Rightarrow> Inl (Client_stop Segv) | Some a \<Rightarrow> Inr (f a)) in
     if c = CHR ''C'' then client_mode Cl_connect os
     else if c = CHR ''d'' then bindE (client_mode Cl_disconnect os) (\<lambda>os. Inr (os\<lparr>co_devpath := optarg\<rparr>))
     else if c = CHR ''c'' then bindE (client_mode Cl_check os) (\<lambda>os. Inr (os\<lparr>co_devpath := optarg\<rparr>))
     else if c = CHR ''f'' then bindE (client_mode Cl_flush os) (\<lambda>os. Inr (os\<lparr>co_devpath := optarg\<rparr>))
     else if c = CHR ''h'' then client_mode Cl_help os
     else if c = CHR ''s'' then client_mode Cl_getsize64 os
     else if c = CHR ''t'' then Inl (Client_stop (Exit 1))
     else if c = CHR ''b'' then need (\<lambda>a. os\<lparr>co_blocksize := word_of_int (atoi a)\<rparr>)
     else if c = CHR ''r'' then need (\<lambda>a. os\<lparr>co_max_retry := atoi a\<rparr>)
     else if c = CHR ''R'' then need (\<lambda>a. os\<lparr>co_recovery := Recovery_command a\<rparr>)
     else if c = CHR ''H'' then Inr (os\<lparr>co_recovery := Recovery_reboot\<rparr>)
     else if c = CHR ''?'' then Inl (Client_help (Some ''unknown option''))
     else if c = CHR ''n'' then Inr (os\<lparr>co_exportname := optarg\<rparr>)
     else Inl (Client_stop (Err ''getopt'')))"

text \<open>
  \<open>sscanf\<close> with a literal and \<open>%lu\<close>: the end of the string before the number is \<open>EOF\<close>, which is not 0; a sign negates
  modulo \<open>2^64\<close> and too large a number is cut off.
\<close>

datatype scanned = Scan_eof | Mismatch | Scanned u64

definition scan_ulong :: "string \<Rightarrow> string \<Rightarrow> scanned" where
  "scan_ulong lit s =
     (if take (length lit) s \<noteq> lit then if take (length s) lit = s then Scan_eof else Mismatch
      else let s1 = dropWhile is_space (drop (length lit) s);
               (neg, s2) = (case s1 of c # cs \<Rightarrow> if c = CHR ''-'' then (True, cs) else if c = CHR ''+'' then (False, cs) else (False, s1) | [] \<Rightarrow> (False, s1));
               ds = takeWhile is_digit s2; v = digits_value ds
        in if s1 = [] then Scan_eof
           else if ds = [] then Mismatch
           else Scanned (if v \<ge> 18446744073709551616 then - 1 else if neg then - of_nat v else of_nat v))"

text \<open>The compatible command line: \<open>bs=\<close> and \<open>timeout=\<close>, then host, port and device. When all arguments are options, \<open>optind\<close> stays.\<close>

fun compat_options :: "string list \<Rightarrow> client_opts \<Rightarrow> client_opts \<times> string list option" where
  "compat_options [] os = (os, None)"
| "compat_options (a # as) os =
     (case scan_ulong ''bs='' a of
        Scanned v \<Rightarrow> compat_options as (os\<lparr>co_blocksize := v\<rparr>)
      | Scan_eof \<Rightarrow> compat_options as os
      | Mismatch \<Rightarrow>
          (case scan_ulong ''timeout='' a of
             Scanned v \<Rightarrow> compat_options as (os\<lparr>co_timeout := ucast v\<rparr>)
           | _ \<Rightarrow> (os, Some (a # as))))"

datatype client_run =
    Run_setup string client_opts "dst_info list"
  | Run_getsize client_opts "dst_info list"
  | Run_check string
  | Run_disconnect string
  | Run_flush string

fun add_pairs :: "string list \<Rightarrow> dst_info list \<Rightarrow> dst_info list" where
  "add_pairs (host # port # rest) dst_list = add_pairs rest (dst_add host port dst_list)"
| "add_pairs _ dst_list = dst_list"

definition on_device :: "(string \<Rightarrow> client_run) \<Rightarrow> client_opts \<Rightarrow> client_end + client_run" where
  "on_device f os = (case co_devpath os of None \<Rightarrow> Inl (Client_stop Segv) | Some dev \<Rightarrow> Inr (f dev))"

definition client_args :: "(char \<times> string option) list \<Rightarrow> string list \<Rightarrow> client_end + client_run" where
  "client_args opts argv =
     bindE (foldE client_option opts client_defaults) (\<lambda>os.
       case co_cmd os of
         Cl_unknown \<Rightarrow>
           (case compat_options argv os of (os, rest) \<Rightarrow>
              (case (case rest of None \<Rightarrow> argv | Some as \<Rightarrow> as) of
                 [host, port, dev] \<Rightarrow> Inr (Run_setup dev os (dst_add host port []))
               | _ \<Rightarrow> Inl (Client_help (Some ''command line error''))))
       | Cl_check \<Rightarrow> if argv \<noteq> [] then Inl (Client_help (Some ''command line error'')) else on_device Run_check os
       | Cl_disconnect \<Rightarrow> if argv \<noteq> [] then Inl (Client_help (Some ''command line error'')) else on_device Run_disconnect os
       | Cl_help \<Rightarrow> Inl (Client_help None)
       | Cl_flush \<Rightarrow> on_device Run_flush os
       | Cl_connect \<Rightarrow>
           (case argv of
              [] \<Rightarrow> Inl (Client_help (Some ''incomplete pairs of host and port''))
            | dev # rest \<Rightarrow> if odd (length rest) then Inl (Client_help (Some ''incomplete pairs of host and port''))
                            else Inr (Run_setup dev os (add_pairs rest [])))
       | Cl_getsize64 \<Rightarrow>
           if odd (length argv) then Inl (Client_help (Some ''incomplete pairs of host and port'')) else Inr (Run_getsize os (add_pairs argv [])))"

text \<open>How the process ends, for \<open>--connect\<close> the child, whose result is not used; \<^const>\<open>None\<close> when it does not.\<close>

definition client_check :: "pid_status \<Rightarrow> stop" where
  "client_check status = (case status of PID_FOUND _ \<Rightarrow> Exit 0 | PID_DEVICE_UNUSED \<Rightarrow> Exit 2 | PID_ERROR \<Rightarrow> Exit 1)"

definition exit_of :: "stop + 'a \<Rightarrow> stop" where
  "exit_of res = (case res of Inl x \<Rightarrow> x | Inr _ \<Rightarrow> Exit 0)"

definition client_exit :: "client_kern \<Rightarrow> client_fs \<Rightarrow> client_env \<Rightarrow> bool \<Rightarrow> fdtab \<Rightarrow> client_end + client_run \<Rightarrow> stop option" where
  "client_exit k fs e fsync_ok t run =
     (let name = (\<lambda>os. map_option (map of_char) (co_exportname os)) in
      case run of
        Inl (Client_help _) \<Rightarrow> Some (Exit 0)
      | Inl (Client_stop x) \<Rightarrow> Some x
      | Inr (Run_check dev) \<Rightarrow> map_option (case_sum id client_check) (get_nbd_pid fs dev)
      | Inr (Run_disconnect dev) \<Rightarrow> map_option exit_of (xnbd_disconnect k fs dev)
      | Inr (Run_flush dev) \<Rightarrow> Some (exit_of (flush_device (ck_open k) fsync_ok))
      | Inr (Run_getsize os dsts) \<Rightarrow> map_option exit_of (xnbd_report_target_size e dsts (co_max_retry os) (name os) t)
      | Inr (Run_setup dev os dsts) \<Rightarrow>
          map_option exit_of (xnbd_setup_client k fs e dev (co_blocksize os) (co_timeout os) dsts (co_max_retry os) (co_recovery os) (name os) t))"

end
