(* ===== verification/Client_Props.thy ===== *)
theory Client_Props
  imports Client
begin

text \<open>
  What \<open>xnbd-client\<close> does: it takes the first server that accepts, in the first round in which one does; its device is
  set up as the server exports the disk; following symbolic links ends exactly when the system tells a limit.
\<close>

section \<open>The first server that accepts\<close>

text \<open>The socket of the first address that can be connected to, and what a server answers at one place of a round.\<close>

fun first_conn :: "addrinfo list \<Rightarrow> sock option" where
  "first_conn [] = None"
| "first_conn ((socket_ok, conn) # ais) = (if socket_ok \<and> conn \<noteq> None then conn else first_conn ais)"

definition server_answer :: "client_env \<Rightarrow> bytes option \<Rightarrow> nat \<Rightarrow> nat \<Rightarrow> dst_info \<Rightarrow> (sock \<times> (int \<times> u32) option) option" where
  "server_answer e exportname r i dst =
     (case Option.bind (ce_addrs e r i dst) first_conn of
        None \<Rightarrow> None
      | Some s \<Rightarrow> (case negotiate_client e exportname s of (ret, res, s') \<Rightarrow> if ret < 0 then None else Some (s', res)))"

definition round_fails :: "client_env \<Rightarrow> bytes option \<Rightarrow> dst_info list \<Rightarrow> nat \<Rightarrow> bool" where
  "round_fails e exportname dst_list r \<longleftrightarrow> (\<forall>i < length dst_list. server_answer e exportname r i (dst_list ! i) = None)"

lemma close_fresh: "sys_close (fd_fresh t) (fd_set (fd_fresh t) k t) = t"
proof -
  have "fd \<noteq> fd_fresh t" if "(fd, k') \<in> set t" for fd k'
    using fd_fresh_unused[of t] that by (auto simp: fd_look_def map_of_eq_None_iff rev_image_eqI)
  then show ?thesis unfolding sys_close_def fd_set_def by (simp add: filter_id_conv) blast
qed

lemma try_addresses_first:
  "try_addresses c ais t =
     (case first_conn ais of None \<Rightarrow> (None, t) | Some s \<Rightarrow> (Some (fd_fresh t, s), fd_set (fd_fresh t) (Conn c) t))"
  by (induction c ais t rule: try_addresses.induct) (auto simp: sys_new_def close_fresh split: option.splits)

lemma try_servers_Cons:
  "try_servers e x r i (dst # rest) t =
     (case server_answer e x r i dst of
        Some (s, res) \<Rightarrow> (Some (fd_fresh t, s, res), fd_set (fd_fresh t) (Conn i) t)
      | None \<Rightarrow> try_servers e x r (Suc i) rest (snd (net_connect i (ce_addrs e r i dst) t)))"
  by (auto simp: server_answer_def net_connect_def try_addresses_first split: option.splits prod.splits if_splits)

lemma try_servers_fail:
  "(\<And>j. j < length ds \<Longrightarrow> server_answer e x r (i + j) (ds ! j) = None) \<Longrightarrow> fst (try_servers e x r i ds t) = None"
proof (induction ds arbitrary: i t)
  case (Cons d ds)
  have "server_answer e x r i d = None" using Cons.prems[of 0] by simp
  moreover have "fst (try_servers e x r (Suc i) ds t') = None" for t' using Cons.prems[of "Suc j" for j] by (intro Cons.IH) simp
  ultimately show ?case by (simp add: try_servers_Cons del: try_servers.simps)
qed simp

lemma try_servers_first:
  "(\<And>j. j < n \<Longrightarrow> server_answer e x r (i + j) (ds ! j) = None) \<Longrightarrow> n < length ds \<Longrightarrow> server_answer e x r (i + n) (ds ! n) = Some (s, res) \<Longrightarrow>
   \<exists>fd t'. try_servers e x r i ds t = (Some (fd, s, res), t') \<and> fd_look t' fd = Some (Conn (i + n))"
proof (induction ds arbitrary: i n t)
  case (Cons d ds)
  show ?case
  proof (cases n)
    case 0
    with Cons.prems(3) show ?thesis by (simp add: try_servers_Cons fd_simps del: try_servers.simps)
  next
    case (Suc m)
    have "server_answer e x r i d = None" using Cons.prems(1)[of 0] Suc by simp
    moreover have "\<exists>fd t'. try_servers e x r (Suc i) ds t1 = (Some (fd, s, res), t') \<and> fd_look t' fd = Some (Conn (Suc i + m))" for t1
      using Cons.prems(1)[of "Suc j" for j] Cons.prems(2,3) Suc by (intro Cons.IH) simp_all
    ultimately show ?thesis using Suc by (simp add: try_servers_Cons del: try_servers.simps)
  qed
qed simp

lemma failed_round: "round_fails e x ds r \<Longrightarrow> \<exists>t'. try_servers e x r 0 ds t = (None, t')"
  using try_servers_fail[of ds e x r 0 t] unfolding round_fails_def by (cases "try_servers e x r 0 ds t") simp

lemma skip_rounds:
  "(\<And>r. retry \<le> r \<Longrightarrow> r < n \<Longrightarrow> round_fails e x ds r) \<Longrightarrow> retry \<le> n \<Longrightarrow> max_retry = 0 \<or> int n \<le> max_retry \<or> n = retry \<Longrightarrow>
   \<exists>t'. connect_loop e x ds max_retry retry t = connect_loop e x ds max_retry n t'"
proof (induction "n - retry" arbitrary: retry t)
  case (Suc d)
  then have lt: "retry < n" by simp
  then obtain t1 where t1: "try_servers e x retry 0 ds t = (None, t1)" using Suc.prems(1)[of retry] failed_round by blast
  obtain t' where "connect_loop e x ds max_retry (Suc retry) t1 = connect_loop e x ds max_retry n t'"
  proof -
    have "d = n - Suc retry" "max_retry = 0 \<or> int n \<le> max_retry \<or> n = Suc retry" using Suc.hyps(2) Suc.prems(3) lt by auto
    with Suc.hyps(1)[of "Suc retry" t1] Suc.prems(1) lt that show thesis by auto
  qed
  moreover have "connect_loop e x ds max_retry retry t = connect_loop e x ds max_retry (Suc retry) t1"
    using Suc.prems(3) lt by (subst connect_loop.simps) (auto simp: t1)
  ultimately show ?case by metis
qed auto

lemma connect_never:
  assumes "connect_loop e x ds max_retry retry t = Some y" and "max_retry = 0" and "\<And>r. round_fails e x ds r"
  shows False
proof -
  have "max_retry = 0 \<longrightarrow> (\<exists>r. \<not> round_fails e x ds r)"
  proof (rule connect_loop.raw_induct[where P = "\<lambda>e x ds max_retry retry t y. max_retry = 0 \<longrightarrow> (\<exists>r. \<not> round_fails e x ds r)", OF _ assms(1)])
    fix f e x ds max_retry retry t y
    assume IH: "\<And>e x ds max_retry retry t y. f e x ds max_retry retry t = Some y \<Longrightarrow> max_retry = 0 \<longrightarrow> (\<exists>r. \<not> round_fails e x ds r)"
      and step: "(case try_servers e x retry 0 ds t of (None, t1) \<Rightarrow> if max_retry = 0 \<or> int retry < max_retry then f e x ds max_retry (Suc retry) t1 else Some (Inl (Exit 1))
         | (Some c, t1) \<Rightarrow> Some (Inr (c, t1))) = Some y"
    show "max_retry = (0::int) \<longrightarrow> (\<exists>r. \<not> round_fails e x ds r)"
      using IH[of e x ds max_retry "Suc retry"] step failed_round[of e x ds retry t] by (auto split: if_splits) fastforce
  qed
  with assms(2,3) show False by simp
qed


text \<open>
  A server on the other end: what it sends in the old negotiation is what the client takes from the connection.
\<close>

lemma client_reads_export:
  assumes "writable srv" and "nbd_negotiate_v1_server_side_main srv disksize readonly = Inr (0, srv')" and "tx srv' = tx srv @ sent"
    and "0 \<le> disksize" and "disksize \<le> 0x7FFFFFFFFFFFFFFF" and "wf_sock conn" and "pending conn = sent @ rest" and "length (ce_junk0 e) = 152"
  shows "\<exists>conn'. negotiate_client e None conn = (0, Some (disksize, if readonly then 7 else 5), conn')"
  using negotiate_v1_agree[OF assms(1,6,4,5,8), of readonly rest] assms(2,3,7) by (auto simp: negotiate_client_def)

definition idle_sock :: sock where
  "idle_sock = \<lparr>rx = [], rx_end = None, tx = [], tx_plan = []\<rparr>"

definition hello :: "int \<Rightarrow> bool \<Rightarrow> bytes" where
  "hello disksize readonly = (case nbd_negotiate_v1_server_side_main idle_sock disksize readonly of Inr (_, s) \<Rightarrow> tx s | Inl _ \<Rightarrow> [])"

definition demo_conn :: "int \<Rightarrow> bool \<Rightarrow> sock" where
  "demo_conn disksize readonly = idle_sock\<lparr>rx := filter (\<lambda>b. b \<noteq> []) [hello disksize readonly]\<rparr>"

text \<open>The first server cannot be resolved, the second has an address that refuses and one that accepts.\<close>

definition demo_env :: client_env where
  "demo_env = \<lparr>ce_addrs = (\<lambda>r i dst. if dst_host dst = ''b'' then Some [(True, None), (True, Some (demo_conn 1048576 True))] else None),
     ce_junk0 = replicate 152 0, ce_junk2 = []\<rparr>"

definition demo_dsts :: "dst_info list" where
  "demo_dsts = [\<lparr>dst_host = ''a'', dst_port = ''8520''\<rparr>, \<lparr>dst_host = ''b'', dst_port = ''8520''\<rparr>]"

lemma idle_sock_ok: "writable idle_sock" "wf_sock idle_sock" "tx idle_sock = []"
  by (simp_all add: idle_sock_def writable_def wf_sock_def)

lemma demo_export:
  assumes "0 \<le> disksize" and "disksize \<le> 0x7FFFFFFFFFFFFFFF"
  shows "\<exists>srv'. nbd_negotiate_v1_server_side_main idle_sock disksize readonly = Inr (0, srv') \<and> tx srv' = hello disksize readonly"
  using negotiate_v1_agree[OF idle_sock_ok(1,2) assms, of "replicate 152 0" readonly "[]"] idle_sock_ok by (auto simp: hello_def)

lemma demo_pending: "pending (demo_conn disksize readonly) = hello disksize readonly @ []" "wf_sock (demo_conn disksize readonly)"
  by (auto simp: demo_conn_def pending_def wf_sock_def)

lemma demo_reads:
  "0 \<le> disksize \<Longrightarrow> disksize \<le> 0x7FFFFFFFFFFFFFFF \<Longrightarrow> length (ce_junk0 e) = 152 \<Longrightarrow>
   \<exists>conn'. negotiate_client e None (demo_conn disksize readonly) = (0, Some (disksize, if readonly then 7 else 5), conn')"
proof -
  assume a: "0 \<le> disksize" "disksize \<le> 0x7FFFFFFFFFFFFFFF" "length (ce_junk0 e) = 152"
  obtain srv' where "nbd_negotiate_v1_server_side_main idle_sock disksize readonly = Inr (0, srv')" "tx srv' = tx idle_sock @ hello disksize readonly"
    using demo_export[OF a(1,2), of readonly] idle_sock_ok(3) by auto
  from client_reads_export[OF idle_sock_ok(1) this a(1,2) demo_pending(2,1) a(3)] show ?thesis .
qed


text \<open>A connection whose negotiation fails stays open.\<close>

lemma refused_connection_stays:
  assumes "ce_addrs e r i dst = Some ais" and "first_conn ais = Some s" and "fst (negotiate_client e x s) < 0"
  shows "\<exists>t'. try_servers e x r i [dst] t = (None, t') \<and> fd_look t' (fd_fresh t) = Some (Conn i)"
  using assms by (auto simp: net_connect_def try_addresses_first fd_simps split: prod.splits)

text \<open>A negotiation that succeeds tells a size.\<close>

lemma sint_nonneg: "\<not> 0x7FFFFFFFFFFFFFFF < (w :: u64) \<Longrightarrow> 0 \<le> sint w"
  using sint_of_small[of "uint w"] by (simp add: not_less word_le_def)

lemma negotiated_size: "negotiate_client e x s = (ret, res, s') \<Longrightarrow> \<not> ret < 0 \<Longrightarrow> \<exists>disksize flags. res = Some (disksize, flags) \<and> 0 \<le> disksize"
  by (auto simp: negotiate_client_def nbd_negotiate_v1_client_side_def nbd_negotiate_v2_client_side_def Let_def
    sint_nonneg split: option.splits prod.splits if_splits)

section \<open>The device\<close>

definition kernel_works :: "client_kern \<Rightarrow> bool" where
  "kernel_works k \<longleftrightarrow> ck_open k \<and> (\<forall>a. a \<noteq> DO_IT \<longrightarrow> ck_ret k a = 0)"

lemma setup_device_ok:
  assumes "kernel_works k" and "blocksize \<noteq> 0" and "0 \<le> disksize" and "disksize \<le> 0x7FFFFFFFFFFFFFFF"
  shows "setup_device k blocksize timeout sockfd disksize (if readonly then 7 else 5) =
    Inr ([SET_SOCK sockfd, SET_BLKSIZE blocksize, SET_SIZE_BLOCKS (word_of_int disksize div blocksize)] @ (if readonly then [BLKROSET] else []) @
      [SET_FLAGS (if readonly then 7 else 5)] @ (if timeout = 0 then [] else [SET_TIMEOUT timeout]))"
proof -
  have "word_of_int disksize div blocksize \<le> (word_of_int disksize :: u64)" by (simp add: word_le_nat_alt unat_div)
  also have "\<dots> \<le> NBD_MAX_NBLOCKS" using assms(3,4) uint_word_of_int_u64[of disksize] by (simp add: word_le_def NBD_MAX_NBLOCKS_def mask_eq_exp_minus_1)
  finally have "\<not> word_of_int disksize div blocksize > NBD_MAX_NBLOCKS" by simp
  with assms(1,2) show ?thesis
    by (simp add: setup_device_def nbddev_set_sockfd_def nbddev_set_sizes_def nbddev_set_readonly_def nbddev_set_timeout_def
      ioctl_or_err_def kernel_works_def NBD_FLAG_READ_ONLY_def NBD_FLAG_HAS_FLAGS_def)
qed

lemma child_actions:
  "client_child k rec = (ret, acts) \<Longrightarrow>
   acts = DO_IT # (if ret = - 2 then recover k rec else []) @ [CLEAR_QUE, CLEAR_SOCK] \<and> (ret = - 2 \<longleftrightarrow> ck_ret k DO_IT < 0 \<and> \<not> ck_usr1 k)"
  by (auto simp: client_child_def split: if_splits)

lemma div_tiles:
  assumes "0 \<le> disksize" and "disksize \<le> 0x7FFFFFFFFFFFFFFF" and "blocksize \<noteq> (0 :: u64)"
  shows "uint (word_of_int disksize div blocksize) * uint blocksize \<le> disksize \<and>
    disksize < (uint (word_of_int disksize div blocksize) + 1) * uint blocksize"
proof -
  have b: "0 < uint blocksize" using assms(3) uint_0_iff[of blocksize] unsigned_greater_eq[of blocksize, where 'a = int] by linarith
  have "uint (word_of_int disksize div blocksize) = disksize div uint blocksize" using assms(1,2) uint_word_of_int_u64[of disksize] by (simp add: uint_div)
  moreover have "disksize = disksize div uint blocksize * uint blocksize + disksize mod uint blocksize" by simp
  ultimately show ?thesis using pos_mod_bound[OF b, of disksize] pos_mod_sign[OF b, of disksize] by (simp only: distrib_right mult_1) linarith
qed


definition demo_fs :: client_fs where
  "demo_fs = \<lparr>file_read_link = (\<lambda>_. None), path_is_absolute = (\<lambda>p. take 1 p = ''/''), path_get_dirname = (\<lambda>p. ''/dev''), build_filename = (\<lambda>d f. d @ ''/'' @ f),
     file_is_dir = (\<lambda>_. True), file_exists = (\<lambda>_. False), file_get_contents = (\<lambda>_. None), sc_symloop_max = - 1\<rparr>"

definition demo_kern :: client_kern where
  "demo_kern = \<lparr>ck_open = True, ck_ret = (\<lambda>a. if a = DO_IT then - 1 else 0), ck_usr1 = False, ck_polls = [(False, PID_FOUND 7)]\<rparr>"

lemma demo_device: "get_nbd_pid demo_fs ''/dev/nbd0'' = Some (Inr PID_DEVICE_UNUSED)"
  unfolding get_nbd_pid_def follow_symlink_chain_def by (subst follow_links.simps) (simp add: demo_fs_def nbd_pid_of_def)


section \<open>Symbolic links\<close>

lemma steps_exceed: "ucast (n :: u32) > (m :: u64) \<longleftrightarrow> unat n > unat m"
proof -
  have "unat (ucast n :: u64) = unat n" using unsigned_less[of n, where 'a = nat] by (simp add: unsigned_ucast_eq take_bit_nat_eq_self)
  then show ?thesis by (simp add: word_less_nat_alt)
qed

lemma follow_links_total:
  "unat max_steps < 4294967295 \<Longrightarrow> unat steps_taken \<le> unat max_steps \<Longrightarrow> \<exists>y. follow_links fs max_steps resolved steps_taken = Some y"
proof (induction "unat max_steps - unat steps_taken" arbitrary: resolved steps_taken rule: less_induct)
  case less
  have n: "unat (steps_taken + 1) = Suc (unat steps_taken)" using less.prems by (simp add: unat_word_ariths)
  show ?case
  proof (cases "file_read_link fs resolved \<noteq> None \<and> unat (steps_taken + 1) \<le> unat max_steps")
    case True
    then have "unat max_steps - unat (steps_taken + 1) < unat max_steps - unat steps_taken" using n by linarith
    then have "\<exists>y. follow_links fs max_steps p (steps_taken + 1) = Some y" for p using less.hyps[of "steps_taken + 1" p] less.prems(1) True by blast
    then show ?thesis using True by (subst follow_links.simps) (auto simp: steps_exceed)
  qed (subst follow_links.simps, auto simp: steps_exceed split: option.splits)
qed

lemma follow_links_never:
  assumes "follow_links fs max_steps resolved steps_taken = Some y" and "\<And>p. file_read_link fs p \<noteq> None"
  shows "unat max_steps < 4294967295"
proof -
  have "(\<forall>p. file_read_link fs p \<noteq> None) \<longrightarrow> unat max_steps < 4294967295"
  proof (rule follow_links.raw_induct[where P = "\<lambda>fs max_steps resolved steps_taken y. (\<forall>p. file_read_link fs p \<noteq> None) \<longrightarrow> unat max_steps < 4294967295", OF _ assms(1)])
    fix f :: "client_fs \<Rightarrow> u64 \<Rightarrow> string \<Rightarrow> u32 \<Rightarrow> (stop + string) option" and fs max_steps resolved steps_taken y
    assume IH: "\<And>fs max_steps resolved steps_taken y. f fs max_steps resolved steps_taken = Some y \<Longrightarrow>
        (\<forall>p. file_read_link fs p \<noteq> None) \<longrightarrow> unat max_steps < 4294967295"
      and step: "(case file_read_link fs resolved of None \<Rightarrow> Some (Inr resolved)
        | Some points_to \<Rightarrow> if ucast (steps_taken + 1) > max_steps then Some (Inl (Err ''ELOOP''))
            else f fs max_steps (if path_is_absolute fs points_to then points_to else build_filename fs (path_get_dirname fs resolved) points_to) (steps_taken + 1)) = Some y"
    have "unat (steps_taken + 1) \<le> 4294967295" using unsigned_less[of "steps_taken + 1", where 'a = nat] by simp
    moreover have "unat max_steps < unat (steps_taken + 1) \<or> (\<exists>r. f fs max_steps r (steps_taken + 1) = Some y)" if "file_read_link fs resolved = Some p" for p
      using step that by (auto simp: steps_exceed split: if_splits)
    ultimately show "(\<forall>p. file_read_link fs p \<noteq> None) \<longrightarrow> unat max_steps < 4294967295"
      using IH[of fs max_steps _ "steps_taken + 1" y] by (cases "file_read_link fs resolved") fastforce+
  qed
  with assms(2) show ?thesis by blast
qed

text \<open>
  C39. Following symbolic links ends for every device name in every file system exactly when the system tells a limit that
  the 32-bit counter can exceed; where it tells none, as the C library may, a cycle of links is followed for ever.
\<close>

theorem symlinks_end_iff:
  assumes "limit < 9223372036854775808"
  shows "(\<forall>fs devname. sc_symloop_max fs = limit \<longrightarrow> follow_symlink_chain fs devname \<noteq> None) \<longleftrightarrow> 1 \<le> limit \<and> limit < 4294967295"
proof
  assume all: "\<forall>fs devname. sc_symloop_max fs = limit \<longrightarrow> follow_symlink_chain fs devname \<noteq> None"
  let ?fs = "demo_fs\<lparr>file_read_link := \<lambda>_. Some ''/dev/nbd0'', sc_symloop_max := limit\<rparr>"
  obtain y where "follow_links ?fs (determine_SYMLOOP_MAX limit) ''/dev/nbd0'' 0 = Some y"
    using all[rule_format, of ?fs "''/dev/nbd0''"] by (auto simp: follow_symlink_chain_def)
  then have "unat (determine_SYMLOOP_MAX limit) < 4294967295" by (rule follow_links_never) simp
  then show "1 \<le> limit \<and> limit < 4294967295"
    using assms by (auto simp: determine_SYMLOOP_MAX_def unat_word_of_int_u64 nat_less_iff unsigned_minus_1_eq_mask mask_eq_exp_minus_1 split: if_splits)
next
  assume l: "1 \<le> limit \<and> limit < 4294967295"
  then have "unat (determine_SYMLOOP_MAX limit) < 4294967295" by (simp add: determine_SYMLOOP_MAX_def unat_word_of_int_u64 nat_less_iff)
  then show "\<forall>fs devname. sc_symloop_max fs = limit \<longrightarrow> follow_symlink_chain fs devname \<noteq> None"
    using follow_links_total[of "determine_SYMLOOP_MAX limit" 0] by (fastforce simp: follow_symlink_chain_def)
qed

theorem symlinks_end_iff_witness: "\<exists>fs devname. sc_symloop_max fs = - 1 \<and> follow_symlink_chain fs devname = None"
  using symlinks_end_iff[of "- 1"] by auto

text \<open>The end of an argument inside \<open>bs=\<close> counts as a match, so that a host with the name \<open>b\<close> is skipped.\<close>

lemma short_host_skipped: "client_args [] [''b'', ''8520'', ''/dev/nbd0''] = Inl (Client_help (Some ''command line error''))"
  by code_simp

end
