(* ===== verification/Watchdog.thy ===== *)
theory Watchdog
  imports Client
begin

text \<open>
  \<open>xnbd_watchdog.c\<close>: a process reads the first sector of a device again and again and tells its parent after each read; the
  parent runs the recovery command when it hears nothing for too long. Time is counted in seconds from the start of both.
\<close>

section \<open>The two processes\<close>

text \<open>One read of the device, with the seconds it takes; for a read that works, whether the parent could be told.\<close>

datatype poll = Pread_data nat bool | Pread_eof nat | Pread_error nat

fun seconds :: "poll \<Rightarrow> nat" where
  "seconds (Pread_data d _) = d"
| "seconds (Pread_eof d) = d"
| "seconds (Pread_error d) = d"

text \<open>What arrives at the parent's end of the pipe: a byte, its end when the child exits or aborts, or an error of \<open>read\<close>.\<close>

datatype notice = Byte | Closed | Broken

text \<open>\<open>watchdog_main\<close> from a given time; after the last of the polls the device does not answer any more.\<close>

fun watchdog_main :: "u32 \<Rightarrow> nat \<Rightarrow> poll list \<Rightarrow> (nat \<times> notice) list" where
  "watchdog_main polling_interval now [] = []"
| "watchdog_main polling_interval now (Pread_data d told # polls) =
     (if told then (now + d, Byte) # watchdog_main polling_interval (now + d + unat polling_interval) polls else [(now + d, Closed)])"
| "watchdog_main polling_interval now (Pread_eof d # polls) = [(now + d, Closed)]"
| "watchdog_main polling_interval now (Pread_error d # polls) = [(now + d, Closed)]"

text \<open>
  The loop of \<open>nbddev_watchdog\<close>: \<open>alarm\<close> of 0 seconds sets no alarm, so that the parent may wait for ever. A byte that arrives
  as the alarm goes off is in time.
\<close>

datatype watch_end = Shutdown | Timed_out | Read_failed

fun watch :: "u32 \<Rightarrow> nat \<Rightarrow> (nat \<times> notice) list \<Rightarrow> watch_end option" where
  "watch period now [] = (if period = 0 then None else Some Timed_out)"
| "watch period now ((t, what) # rest) =
     (if period \<noteq> 0 \<and> now + unat period < t then Some Timed_out
      else case what of Byte \<Rightarrow> watch period t rest | Closed \<Rightarrow> Some Shutdown | Broken \<Rightarrow> Some Read_failed)"

definition watch_recover :: "int \<Rightarrow> recovery \<Rightarrow> client_action list" where
  "watch_recover reboot_ret rec =
     (case rec of
        No_recovery \<Rightarrow> []
      | Recovery_command cmd \<Rightarrow> [Spawn cmd]
      | Recovery_reboot \<Rightarrow> Reboot # (if reboot_ret < 0 then [Spawn ''reboot now''] else []))"

text \<open>The child first allocates its buffer and opens the device, which may fail.\<close>

definition nbddev_watchdog :: "bool \<Rightarrow> poll list \<Rightarrow> u32 \<Rightarrow> u32 \<Rightarrow> int \<Rightarrow> recovery \<Rightarrow> (stop + client_action list) option" where
  "nbddev_watchdog start_ok polls timeout interval reboot_ret rec =
     map_option (\<lambda>w. case w of Timed_out \<Rightarrow> Inr (watch_recover reboot_ret rec) | Shutdown \<Rightarrow> Inr [] | Read_failed \<Rightarrow> Inl (Err ''read''))
       (watch (timeout + interval) 0 (if start_ok then watchdog_main interval 0 polls else [(0, Closed)]))"

section \<open>The command line\<close>

record watchdog_opts =
  wd_recovery :: recovery
  wd_timeout :: u32
  wd_interval :: u32

definition watchdog_option :: "char \<times> string option \<Rightarrow> watchdog_opts \<Rightarrow> client_end + watchdog_opts" where
  "watchdog_option = (\<lambda>(c, optarg) os.
     let need = (\<lambda>f. case optarg of None \<Rightarrow> Inl (Client_stop Segv) | Some a \<Rightarrow> Inr (f a)) in
     if c = CHR ''h'' then Inl (Client_help (Some ''specify one mode''))
     else if c = CHR ''t'' then need (\<lambda>a. os\<lparr>wd_timeout := word_of_int (atoi a)\<rparr>)
     else if c = CHR ''i'' then need (\<lambda>a. os\<lparr>wd_interval := word_of_int (atoi a)\<rparr>)
     else if c = CHR ''R'' then need (\<lambda>a. os\<lparr>wd_recovery := Recovery_command a\<rparr>)
     else if c = CHR ''H'' then Inr (os\<lparr>wd_recovery := Recovery_reboot\<rparr>)
     else if c = CHR ''?'' then Inl (Client_help (Some ''unknown option''))
     else Inl (Client_stop (Err ''getopt'')))"

definition watchdog_args :: "(char \<times> string option) list \<Rightarrow> string list \<Rightarrow> client_end + watchdog_opts \<times> string" where
  "watchdog_args opts argv =
     bindE (foldE watchdog_option opts \<lparr>wd_recovery = No_recovery, wd_timeout = 10, wd_interval = 10\<rparr>) (\<lambda>os.
       case argv of [devpath] \<Rightarrow> Inr (os, devpath) | _ \<Rightarrow> Inl (Client_help (Some ''command line error'')))"

section \<open>When the recovery command runs\<close>

text \<open>How long a read may take: the first one also has the interval, which the child does not sleep before it.\<close>

definition patience :: "u32 \<Rightarrow> u32 \<Rightarrow> nat \<Rightarrow> nat" where
  "patience timeout interval i = unat timeout + (if i = 0 then unat interval else 0)"

fun told :: "poll \<Rightarrow> bool" where
  "told (Pread_data _ w) = w"
| "told _ = False"

definition hangs :: "(nat \<Rightarrow> nat) \<Rightarrow> poll list \<Rightarrow> bool" where
  "hangs limit polls \<longleftrightarrow>
     (\<exists>i \<le> length polls. (\<forall>j < i. told (polls ! j) \<and> seconds (polls ! j) \<le> limit j) \<and> (i = length polls \<or> limit i < seconds (polls ! i)))"

lemma hangs_Nil: "hangs limit []"
  by (simp add: hangs_def)

lemma hangs_Cons: "hangs limit (p # polls) \<longleftrightarrow> limit 0 < seconds p \<or> told p \<and> seconds p \<le> limit 0 \<and> hangs (\<lambda>i. limit (Suc i)) polls"
proof
  assume "hangs limit (p # polls)"
  then obtain i where i: "i \<le> length (p # polls)" "\<forall>j < i. told ((p # polls) ! j) \<and> seconds ((p # polls) ! j) \<le> limit j"
    "i = length (p # polls) \<or> limit i < seconds ((p # polls) ! i)" by (auto simp: hangs_def)
  show "limit 0 < seconds p \<or> told p \<and> seconds p \<le> limit 0 \<and> hangs (\<lambda>i. limit (Suc i)) polls"
  proof (cases i)
    case (Suc n)
    have "hangs (\<lambda>i. limit (Suc i)) polls" unfolding hangs_def
      using i(1,3) i(2)[rule_format, of "Suc j" for j] Suc by (intro exI[of _ n]) auto
    moreover have "told p" "seconds p \<le> limit 0" using i(2)[rule_format, of 0] Suc by simp_all
    ultimately show ?thesis by simp
  qed (use i in auto)
next
  assume r: "limit 0 < seconds p \<or> told p \<and> seconds p \<le> limit 0 \<and> hangs (\<lambda>i. limit (Suc i)) polls"
  show "hangs limit (p # polls)"
  proof (cases "limit 0 < seconds p")
    case False
    with r obtain n where "n \<le> length polls" "\<forall>j < n. told (polls ! j) \<and> seconds (polls ! j) \<le> limit (Suc j)"
      "n = length polls \<or> limit (Suc n) < seconds (polls ! n)" by (auto simp: hangs_def)
    with r False show ?thesis unfolding hangs_def by (intro exI[of _ "Suc n"]) (auto simp: less_Suc_eq_0_disj)
  qed (auto simp: hangs_def intro: exI[of _ 0])
qed

lemma period_sum:
  assumes "unat timeout + unat interval < 4294967296" and "0 < unat timeout + unat interval"
  shows "unat (timeout + interval :: u32) = unat timeout + unat interval" "timeout + interval \<noteq> 0"
proof -
  show u: "unat (timeout + interval) = unat timeout + unat interval" using assms(1) by (simp add: unat_word_ariths)
  show "timeout + interval \<noteq> 0" using u assms(2) by (metis less_irrefl unsigned_0)
qed

lemma watch_later:
  assumes "unat timeout + unat interval < 4294967296" and "0 < unat timeout + unat interval"
  shows "watch (timeout + interval) now (watchdog_main interval (now + unat interval) polls) = Some (if hangs (\<lambda>_. unat timeout) polls then Timed_out else Shutdown)"
proof (induction polls arbitrary: now)
  case Nil
  with period_sum[OF assms] show ?case by (simp add: hangs_Nil)
next
  case (Cons q polls)
  show ?case
  proof (cases q)
    case (Pread_data d w)
    with period_sum[OF assms] Cons[of "now + unat interval + d"] show ?thesis by (auto simp: hangs_Cons ac_simps)
  qed (use period_sum[OF assms] in \<open>auto simp: hangs_Cons\<close>)
qed



text \<open>An error of the device ends the child, which the parent takes for an orderly end; and with both times 0 a device that hangs is never noticed.\<close>

lemma io_error_not_recovered: "nbddev_watchdog True (Pread_error 0 # polls) timeout interval reboot_ret rec = Some (Inr [])"
  by (simp add: nbddev_watchdog_def)

lemma no_alarm_never_recovers: "nbddev_watchdog True [] 0 0 reboot_ret rec = None"
  by (simp add: nbddev_watchdog_def)

end
